(* ===== verification/SoraPrelude.thy ===== *)
theory SoraPrelude
  imports Main "HOL-Library.Word" "HOL-Library.List_Lexorder" "HOL-Library.Char_ord"
begin

text \<open>
  What every component shares: the collections of rewrite rules, the types of the model that
  several components use, and generic facts on lists, options and association lists.
  A Go map that is only looked up is an association list read by \<^const>\<open>map_of\<close>; its list
  order stands for one iteration order of the Go map.
\<close>

named_theorems sora_defs \<open>definitions that proofs by evaluation unfold\<close>

type_synonym 'v go_map = "(string \<times> 'v) list"

text \<open>Durations and instants are nanoseconds.  The zero \<open>time.Time\<close> is \<open>None\<close>.\<close>

type_synonym Duration = int
type_synonym Time = int

definition Nanosecond :: Duration where "Nanosecond = 1"
definition Millisecond :: Duration where "Millisecond = 1000000"
definition Second :: Duration where "Second = 1000000000"
definition Minute :: Duration where "Minute = 60 * Second"

lemmas duration_defs = Nanosecond_def Millisecond_def Second_def Minute_def

section \<open>Lists\<close>

lemma filter_eq_Nil_iff: "filter P xs = [] \<longleftrightarrow> (\<forall>x \<in> set xs. \<not> P x)"
  by (induction xs) auto

lemma concat_eq_Nil_iff: "concat xss = [] \<longleftrightarrow> (\<forall>xs \<in> set xss. xs = [])"
  by (induction xss) auto

lemma find_SomeD: "find P xs = Some x \<Longrightarrow> x \<in> set xs \<and> P x"
  by (induction xs) (auto split: if_splits)

lemma find_None_iff_all: "find P xs = None \<longleftrightarrow> (\<forall>x \<in> set xs. \<not> P x)"
  by (induction xs) auto

text \<open>The first element that satisfies a predicate, with everything before it rejected.\<close>

lemma find_first_split:
  "find P xs = Some x \<longleftrightarrow> (\<exists>ys zs. xs = ys @ x # zs \<and> P x \<and> (\<forall>y \<in> set ys. \<not> P y))"
proof (induction xs)
  case Nil
  then show ?case by simp
next
  case (Cons a xs)
  show ?case
  proof (cases "P a")
    case True
    have "(\<exists>ys zs. a # xs = ys @ x # zs \<and> P x \<and> (\<forall>y \<in> set ys. \<not> P y)) \<longleftrightarrow> a = x"
    proof
      assume "\<exists>ys zs. a # xs = ys @ x # zs \<and> P x \<and> (\<forall>y \<in> set ys. \<not> P y)"
      then obtain ys zs where "a # xs = ys @ x # zs" "\<forall>y \<in> set ys. \<not> P y" by blast
      then show "a = x" using True by (cases ys) auto
    next
      assume "a = x"
      then show "\<exists>ys zs. a # xs = ys @ x # zs \<and> P x \<and> (\<forall>y \<in> set ys. \<not> P y)"
        using True by (intro exI [of _ "[]"] exI [of _ xs]) auto
    qed
    then show ?thesis using True by simp
  next
    case False
    have "(\<exists>ys zs. a # xs = ys @ x # zs \<and> P x \<and> (\<forall>y \<in> set ys. \<not> P y)) \<longleftrightarrow>
        (\<exists>ys zs. xs = ys @ x # zs \<and> P x \<and> (\<forall>y \<in> set ys. \<not> P y))" (is "?l \<longleftrightarrow> ?r")
    proof
      assume ?l
      then obtain ys zs where e: "a # xs = ys @ x # zs" "P x" "\<forall>y \<in> set ys. \<not> P y" by blast
      with False show ?r by (cases ys) auto
    next
      assume ?r
      then obtain ys zs where e: "xs = ys @ x # zs" "P x" "\<forall>y \<in> set ys. \<not> P y" by blast
      with False show ?l by (intro exI [of _ "a # ys"] exI [of _ zs]) auto
    qed
    with Cons False show ?thesis by simp
  qed
qed

lemma find_append: "find P (xs @ ys) = (case find P xs of Some x \<Rightarrow> Some x | None \<Rightarrow> find P ys)"
  by (induction xs) auto

lemma those_Some_iff: "those xs = Some ys \<longleftrightarrow> xs = map Some ys"
  by (induction xs arbitrary: ys) (auto split: option.splits)

section \<open>Words\<close>

lemma drop_bit_coarser:
  fixes a b :: "'a :: len word"
  assumes "drop_bit n a = drop_bit n b" and "n \<le> m"
  shows "drop_bit m a = drop_bit m b"
proof -
  have "drop_bit (m - n) (drop_bit n a) = drop_bit (m - n) (drop_bit n b)"
    by (simp add: assms(1))
  then show ?thesis using assms(2) by (simp only: drop_bit_drop_bit) simp
qed

lemma drop_push_drop:
  fixes a :: "'a :: len word"
  shows "drop_bit n (push_bit n (drop_bit n a)) = drop_bit n a"
  by (rule bit_word_eqI)
    (auto simp: bit_drop_bit_eq bit_push_bit_iff dest: bit_imp_le_length)

lemma push_drop_eq_iff:
  fixes a b :: "'a :: len word"
  shows "push_bit n (drop_bit n a) = push_bit n (drop_bit n b) \<longleftrightarrow> drop_bit n a = drop_bit n b"
  by (metis drop_push_drop)

text \<open>Two aligned blocks share a word exactly when the larger contains the smaller.\<close>

lemma drop_bit_common:
  fixes a b :: "'a :: len word"
  shows "(\<exists>x. drop_bit m a = drop_bit m x \<and> drop_bit n b = drop_bit n x) \<longleftrightarrow>
    drop_bit (max m n) a = drop_bit (max m n) b"
proof
  assume "\<exists>x. drop_bit m a = drop_bit m x \<and> drop_bit n b = drop_bit n x"
  then obtain x where "drop_bit m a = drop_bit m x" "drop_bit n b = drop_bit n x" by blast
  then show "drop_bit (max m n) a = drop_bit (max m n) b"
    by (metis drop_bit_coarser max.cobounded1 max.cobounded2)
next
  assume e: "drop_bit (max m n) a = drop_bit (max m n) b"
  show "\<exists>x. drop_bit m a = drop_bit m x \<and> drop_bit n b = drop_bit n x"
  proof (cases "m \<le> n")
    case True
    with e show ?thesis by (intro exI [of _ a]) (simp add: max_def)
  next
    case False
    with e show ?thesis by (intro exI [of _ b]) (simp add: max_def)
  qed
qed

end
