(* ===== verification/GoNetip.thy ===== *)
theory GoNetip
  imports GoStrings
begin

unbundle bit_operations_syntax

text \<open>
  Go's \<open>net/netip\<close> as far as the core uses it: addresses, prefixes, their parsers and
  printers, and the address classes.  An IPv4 address is a 32-bit word; an IPv6 address is a
  128-bit word with a zone.  The zero values \<open>netip.Addr{}\<close> and \<open>netip.Prefix{}\<close> are
  \<open>None\<close> of the corresponding option type, so \<open>IsValid\<close> is \<open>\<noteq> None\<close>.
\<close>

section \<open>Addresses and prefixes\<close>

datatype addr = V4 "32 word" | V6 "128 word" string

datatype prefix = Prefix (pfx_addr: addr) (pfx_bits: nat)

fun Is4 :: "addr \<Rightarrow> bool" where
  "Is4 (V4 _) = True"
| "Is4 (V6 _ _) = False"

fun Is6 :: "addr \<Rightarrow> bool" where
  "Is6 (V4 _) = False"
| "Is6 (V6 _ _) = True"

fun BitLen :: "addr \<Rightarrow> nat" where
  "BitLen (V4 _) = 32"
| "BitLen (V6 _ _) = 128"

fun Zone :: "addr \<Rightarrow> string" where
  "Zone (V4 _) = []"
| "Zone (V6 _ z) = z"

text \<open>\<open>Addr.Unmap\<close> turns an IPv4-mapped IPv6 address into the IPv4 address.\<close>

fun Unmap :: "addr \<Rightarrow> addr" where
  "Unmap (V4 w) = V4 w"
| "Unmap (V6 w z) = (if drop_bit 32 w = 0xFFFF then V4 (ucast w) else V6 w z)"

text \<open>\<open>Addr.Prefix\<close> keeps the leading bits and drops the zone; \<open>None\<close> when there are too many.\<close>

fun addr_Prefix :: "addr \<Rightarrow> nat \<Rightarrow> prefix option" where
  "addr_Prefix (V4 w) b =
     (if b \<le> 32 then Some (Prefix (V4 (push_bit (32 - b) (drop_bit (32 - b) w))) b) else None)"
| "addr_Prefix (V6 w z) b =
     (if b \<le> 128 then Some (Prefix (V6 (push_bit (128 - b) (drop_bit (128 - b) w)) []) b) else None)"

definition Masked :: "prefix \<Rightarrow> prefix" where
  "Masked p = (case addr_Prefix (pfx_addr p) (pfx_bits p) of Some q \<Rightarrow> q | None \<Rightarrow> p)"

definition valid_prefix :: "prefix \<Rightarrow> bool" where
  "valid_prefix p \<longleftrightarrow> pfx_bits p \<le> BitLen (pfx_addr p) \<and> Zone (pfx_addr p) = []"

fun prefix_Contains :: "prefix \<Rightarrow> addr \<Rightarrow> bool" where
  "prefix_Contains (Prefix (V4 p) b) (V4 a) \<longleftrightarrow> drop_bit (32 - b) p = drop_bit (32 - b) a"
| "prefix_Contains (Prefix (V6 p _) b) (V6 a z) \<longleftrightarrow>
     z = [] \<and> drop_bit (128 - b) p = drop_bit (128 - b) a"
| "prefix_Contains _ _ \<longleftrightarrow> False"

definition Overlaps :: "prefix \<Rightarrow> prefix \<Rightarrow> bool" where
  "Overlaps p q \<longleftrightarrow>
     (if p = q then True
      else if Is4 (pfx_addr p) \<noteq> Is4 (pfx_addr q) then False
      else (let m = min (pfx_bits p) (pfx_bits q) in
            if m = 0 then True
            else (case (addr_Prefix (pfx_addr p) m, addr_Prefix (pfx_addr q) m) of
                    (Some p', Some q') \<Rightarrow> pfx_addr p' = pfx_addr q'
                  | _ \<Rightarrow> False)))"

section \<open>Address classes\<close>

fun IsLoopback_raw :: "addr \<Rightarrow> bool" where
  "IsLoopback_raw (V4 w) \<longleftrightarrow> drop_bit 24 w = 127"
| "IsLoopback_raw (V6 w _) \<longleftrightarrow> w = 1"

definition IsLoopback :: "addr \<Rightarrow> bool" where
  "IsLoopback a = IsLoopback_raw (Unmap a)"

fun IsMulticast_raw :: "addr \<Rightarrow> bool" where
  "IsMulticast_raw (V4 w) \<longleftrightarrow> drop_bit 28 w = 0xE"
| "IsMulticast_raw (V6 w _) \<longleftrightarrow> drop_bit 120 w = 0xFF"

definition IsMulticast :: "addr \<Rightarrow> bool" where
  "IsMulticast a = IsMulticast_raw (Unmap a)"

fun IsLinkLocalUnicast_raw :: "addr \<Rightarrow> bool" where
  "IsLinkLocalUnicast_raw (V4 w) \<longleftrightarrow> drop_bit 16 w = 0xA9FE"
| "IsLinkLocalUnicast_raw (V6 w _) \<longleftrightarrow> drop_bit 118 w = 0x3FA"

definition IsLinkLocalUnicast :: "addr \<Rightarrow> bool" where
  "IsLinkLocalUnicast a = IsLinkLocalUnicast_raw (Unmap a)"

fun IsPrivate_raw :: "addr \<Rightarrow> bool" where
  "IsPrivate_raw (V4 w) \<longleftrightarrow> drop_bit 24 w = 10 \<or> drop_bit 20 w = 0xAC1 \<or> drop_bit 16 w = 0xC0A8"
| "IsPrivate_raw (V6 w _) \<longleftrightarrow> drop_bit 121 w = 0x7E"

definition IsPrivate :: "addr \<Rightarrow> bool" where
  "IsPrivate a = IsPrivate_raw (Unmap a)"

definition IsGlobalUnicast :: "addr \<Rightarrow> bool" where
  "IsGlobalUnicast a \<longleftrightarrow>
     a \<noteq> V4 0 \<and> a \<noteq> V4 0xFFFFFFFF \<and> a \<noteq> V6 0 [] \<and>
     \<not> IsLoopback a \<and> \<not> IsMulticast a \<and> \<not> IsLinkLocalUnicast a"

section \<open>Parsing\<close>

text \<open>One octet of a dotted quad: decimal, no leading zero, at most 255.\<close>

definition parse_octet :: "string \<Rightarrow> nat option" where
  "parse_octet s =
     (if s \<noteq> [] \<and> list_all is_digit s \<and> length s \<le> 3 \<and> (length s > 1 \<longrightarrow> hd s \<noteq> CHR ''0'')
         \<and> digits_value 0 s \<le> 255
      then Some (digits_value 0 s) else None)"

definition parse_ipv4_fields :: "string \<Rightarrow> (nat \<times> nat \<times> nat \<times> nat) option" where
  "parse_ipv4_fields s =
     (case Split s CHR ''.'' of
        [a, b, c, d] \<Rightarrow>
          (case (parse_octet a, parse_octet b, parse_octet c, parse_octet d) of
             (Some w, Some x, Some y, Some z) \<Rightarrow> Some (w, x, y, z)
           | _ \<Rightarrow> None)
      | _ \<Rightarrow> None)"

definition parse_ipv4 :: "string \<Rightarrow> addr option" where
  "parse_ipv4 s =
     (case parse_ipv4_fields s of
        Some (a, b, c, d) \<Rightarrow> Some (V4 (((of_nat a * 256 + of_nat b) * 256 + of_nat c) * 256 + of_nat d))
      | None \<Rightarrow> None)"

definition is_hex :: "char \<Rightarrow> bool" where
  "is_hex c \<longleftrightarrow> is_digit c \<or> (97 \<le> byte c \<and> byte c \<le> 102) \<or> (65 \<le> byte c \<and> byte c \<le> 70)"

definition hex_digit_value :: "char \<Rightarrow> nat" where
  "hex_digit_value c =
     (if is_digit c then byte c - 48 else if 97 \<le> byte c then byte c - 87 else byte c - 55)"

fun hex_value :: "nat \<Rightarrow> string \<Rightarrow> nat" where
  "hex_value acc [] = acc"
| "hex_value acc (c # cs) = hex_value (acc * 16 + hex_digit_value c) cs"

fun hex_word :: "16 word \<Rightarrow> string \<Rightarrow> 16 word" where
  "hex_word acc [] = acc"
| "hex_word acc (c # cs) = hex_word (acc * 16 + of_nat (hex_digit_value c)) cs"

text \<open>
  The main loop of \<open>parseIPv6\<close>: the rest of the input, the 16-bit groups read so far and
  the position of the \<open>::\<close>.  It reads at most eight groups.
\<close>

function v6_loop :: "string \<Rightarrow> 16 word list \<Rightarrow> nat option \<Rightarrow> (string \<times> 16 word list \<times> nat option) option" where
  "v6_loop s gs el =
     (if length gs \<ge> 8 then Some (s, gs, el)
      else
        (let hs = takeWhile is_hex s; rest = dropWhile is_hex s in
         if hs = [] \<or> length hs > 4 then None
         else if HasPrefix rest ''.'' then
           (if (el = None \<and> length gs \<noteq> 6) \<or> length gs > 6 then None
            else (case parse_ipv4_fields s of
                    Some (a, b, c, d) \<Rightarrow>
                      Some ([], gs @ [of_nat a * 256 + of_nat b, of_nat c * 256 + of_nat d], el)
                  | None \<Rightarrow> None))
         else
           (case rest of
              [] \<Rightarrow> Some ([], gs @ [hex_word 0 hs], el)
            | c # s1 \<Rightarrow>
                if c \<noteq> CHR '':'' \<or> s1 = [] then None
                else if HasPrefix s1 '':'' then
                  (if el \<noteq> None then None
                   else if tl s1 = [] then Some ([], gs @ [hex_word 0 hs], Some (Suc (length gs)))
                   else v6_loop (tl s1) (gs @ [hex_word 0 hs]) (Some (Suc (length gs))))
                else v6_loop s1 (gs @ [hex_word 0 hs]) el)))"
  by pat_completeness auto
termination
  by (relation "measure (\<lambda>(s, gs, el). 8 - length gs)") auto

declare v6_loop.simps [simp del]

definition groups_word :: "16 word list \<Rightarrow> 128 word" where
  "groups_word gs = foldl (\<lambda>w g. push_bit 16 w OR ucast g) 0 gs"

definition parse_ipv6 :: "string \<Rightarrow> addr option" where
  "parse_ipv6 whole =
     (let (s, zone, bad_zone) =
            (case cut_first (\<lambda>c. c = CHR ''%'') whole of
               None \<Rightarrow> (whole, [], False)
             | Some (a, z) \<Rightarrow> (a, z, z = []));
          lead = HasPrefix s ''::'';
          body = (if lead then drop 2 s else s)
      in if bad_zone then None
         else if lead \<and> body = [] then Some (V6 0 zone)
         else (case v6_loop body [] (if lead then Some 0 else None) of
                 None \<Rightarrow> None
               | Some (rest, gs, el) \<Rightarrow>
                   if rest \<noteq> [] then None
                   else if length gs < 8 then
                     (case el of
                        None \<Rightarrow> None
                      | Some e \<Rightarrow>
                          Some (V6 (groups_word (take e gs @ replicate (8 - length gs) 0 @ drop e gs)) zone))
                   else if el \<noteq> None then None
                   else Some (V6 (groups_word gs) zone)))"

text \<open>\<open>netip.ParseAddr\<close>: the first of the three characters decides the syntax.\<close>

definition ParseAddr :: "string \<Rightarrow> addr option" where
  "ParseAddr s =
     (case find (\<lambda>c. c = CHR ''.'' \<or> c = CHR '':'' \<or> c = CHR ''%'') s of
        Some c \<Rightarrow> if c = CHR ''.'' then parse_ipv4 s else if c = CHR '':'' then parse_ipv6 s else None
      | None \<Rightarrow> None)"

definition ParsePrefix :: "string \<Rightarrow> prefix option" where
  "ParsePrefix s =
     (case cut_last (\<lambda>c. c = CHR ''/'') s of
        None \<Rightarrow> None
      | Some (a, bits) \<Rightarrow>
          (case ParseAddr a of
             None \<Rightarrow> None
           | Some ip \<Rightarrow>
               if Zone ip \<noteq> [] then None
               else if length bits > 1 \<and> \<not> (is_digit (hd bits) \<and> hd bits \<noteq> CHR ''0'') then None
               else (case Atoi bits of
                       None \<Rightarrow> None
                     | Some n \<Rightarrow>
                         if n < 0 \<or> n > int (BitLen ip) then None
                         else Some (Prefix ip (nat n)))))"

text \<open>\<open>net.ParseIP\<close> refuses zones; \<open>net.ParseCIDR\<close> cuts at the first slash.\<close>

definition ParseIP :: "string \<Rightarrow> addr option" where
  "ParseIP s = (case ParseAddr s of Some a \<Rightarrow> if Zone a = [] then Some a else None | None \<Rightarrow> None)"

definition ParseCIDR :: "string \<Rightarrow> prefix option" where
  "ParseCIDR s =
     (case cut_first (\<lambda>c. c = CHR ''/'') s of
        None \<Rightarrow> None
      | Some (a, m) \<Rightarrow>
          (case ParseIP a of
             None \<Rightarrow> None
           | Some ip \<Rightarrow>
               if m \<noteq> [] \<and> list_all is_digit m \<and> digits_value 0 m \<le> BitLen ip
               then Some (Prefix ip (digits_value 0 m)) else None))"

section \<open>Printing\<close>

definition octets :: "32 word \<Rightarrow> nat list" where
  "octets w = map (\<lambda>k. unat (drop_bit k w AND 0xFF)) [24, 16, 8, 0]"

definition v4_string :: "32 word \<Rightarrow> string" where
  "v4_string w = Join (map nat_digits (octets w)) ''.''"

definition groups :: "128 word \<Rightarrow> 16 word list" where
  "groups w = map (\<lambda>k. ucast (drop_bit k w)) [112, 96, 80, 64, 48, 32, 16, 0]"

definition hex_char :: "nat \<Rightarrow> char" where
  "hex_char d = (if d < 10 then char_of (48 + d) else char_of (87 + d))"

definition hex_nibble :: "16 word \<Rightarrow> nat \<Rightarrow> char" where
  "hex_nibble x k = hex_char (unat (drop_bit k x AND 0xF))"

definition hex_digits :: "16 word \<Rightarrow> string" where
  "hex_digits x =
     (if 0x1000 \<le> x then [hex_nibble x 12] else []) @ (if 0x100 \<le> x then [hex_nibble x 8] else []) @
     (if 0x10 \<le> x then [hex_nibble x 4] else []) @ [hex_nibble x 0]"

text \<open>The first longest run of at least two zero groups, as a start and an end position.\<close>

definition zero_run :: "16 word list \<Rightarrow> (nat \<times> nat) option" where
  "zero_run gs =
     fold (\<lambda>i best.
         let l = length (takeWhile (\<lambda>g. g = 0) (drop i gs)) in
         if l \<ge> 2 \<and> (case best of None \<Rightarrow> True | Some (a, b) \<Rightarrow> l > b - a) then Some (i, i + l) else best)
       [0..<length gs] None"

definition v6_string :: "128 word \<Rightarrow> string" where
  "v6_string w =
     (let gs = groups w in
      case zero_run gs of
        None \<Rightarrow> Join (map hex_digits gs) '':''
      | Some (a, b) \<Rightarrow> Join (map hex_digits (take a gs)) '':'' @ ''::'' @ Join (map hex_digits (drop b gs)) '':'')"

fun addr_String :: "addr \<Rightarrow> string" where
  "addr_String (V4 w) = v4_string w"
| "addr_String (V6 w z) =
     (if drop_bit 32 w = 0xFFFF then ''::ffff:'' @ v4_string (ucast w) else v6_string w)
       @ (if z = [] then [] else ''%'' @ z)"

definition prefix_String :: "prefix \<Rightarrow> string" where
  "prefix_String p = addr_String (pfx_addr p) @ ''/'' @ nat_digits (pfx_bits p)"

section \<open>Laws\<close>

lemma Is6_iff [simp]: "Is6 a \<longleftrightarrow> \<not> Is4 a"
  by (cases a) auto

lemma max_diff_min: "max (k - m) (k - n) = k - min m (n :: nat)"
  by arith

lemma Overlaps_V4:
  assumes "m \<le> 32" and "n \<le> 32"
  shows "Overlaps (Prefix (V4 a) m) (Prefix (V4 b) n) \<longleftrightarrow>
    drop_bit (32 - min m n) a = drop_bit (32 - min m n) b"
  using assms by (auto simp: Overlaps_def Let_def push_drop_eq_iff)

lemma Overlaps_V6:
  assumes "m \<le> 128" and "n \<le> 128"
  shows "Overlaps (Prefix (V6 a y) m) (Prefix (V6 b z) n) \<longleftrightarrow>
    drop_bit (128 - min m n) a = drop_bit (128 - min m n) b"
  using assms by (auto simp: Overlaps_def Let_def push_drop_eq_iff)

text \<open>Two prefixes overlap exactly when some address lies in both.\<close>

lemma Overlaps_common_addr:
  assumes "valid_prefix p" and "valid_prefix q"
  shows "Overlaps p q \<longleftrightarrow> (\<exists>a. prefix_Contains p a \<and> prefix_Contains q a)"
proof (cases p; cases q)
  fix x m y n
  assume p: "p = Prefix x m" and q: "q = Prefix y n"
  show ?thesis
  proof (cases x; cases y)
    fix a b
    assume x: "x = V4 a" and y: "y = V4 b"
    have b: "m \<le> 32" "n \<le> 32" using assms p q x y by (simp_all add: valid_prefix_def)
    have "(\<exists>z. prefix_Contains p z \<and> prefix_Contains q z) \<longleftrightarrow>
        (\<exists>w. drop_bit (32 - m) a = drop_bit (32 - m) w \<and> drop_bit (32 - n) b = drop_bit (32 - n) w)"
      unfolding p q x y by (metis prefix_Contains.simps(1) prefix_Contains.simps(4) addr.exhaust)
    also have "\<dots> \<longleftrightarrow> drop_bit (32 - min m n) a = drop_bit (32 - min m n) b"
      by (simp only: drop_bit_common max_diff_min)
    finally show ?thesis using b by (simp add: p q x y Overlaps_V4)
  next
    fix a b z z'
    assume x: "x = V6 a z" and y: "y = V6 b z'"
    have b: "m \<le> 128" "n \<le> 128" using assms p q x y by (simp_all add: valid_prefix_def)
    have "(\<exists>v. prefix_Contains p v \<and> prefix_Contains q v) \<longleftrightarrow>
        (\<exists>w. drop_bit (128 - m) a = drop_bit (128 - m) w \<and> drop_bit (128 - n) b = drop_bit (128 - n) w)"
      unfolding p q x y by (metis prefix_Contains.simps(2) prefix_Contains.simps(3) addr.exhaust)
    also have "\<dots> \<longleftrightarrow> drop_bit (128 - min m n) a = drop_bit (128 - min m n) b"
      by (simp only: drop_bit_common max_diff_min)
    finally show ?thesis using b by (simp add: p q x y Overlaps_V6)
  next
    fix a b z
    assume "x = V4 a" "y = V6 b z"
    then show ?thesis using p q by (auto simp: Overlaps_def elim: prefix_Contains.elims)
  next
    fix a b z
    assume "x = V6 a z" "y = V4 b"
    then show ?thesis using p q by (auto simp: Overlaps_def elim: prefix_Contains.elims)
  qed
qed

lemma Overlaps_sym:
  "valid_prefix p \<Longrightarrow> valid_prefix q \<Longrightarrow> Overlaps p q \<longleftrightarrow> Overlaps q p"
  by (auto simp: Overlaps_common_addr)

section \<open>Round trips\<close>

lemma parse_octet_nat_digits: "n < 256 \<Longrightarrow> parse_octet (nat_digits n) = Some n"
proof -
  assume n: "n < 256"
  have "length (nat_digits n) \<le> 3" using length_nat_digits [of n 2] n by simp
  moreover have "hd (nat_digits n) \<noteq> CHR ''0''" if "length (nat_digits n) > 1"
  proof (cases "n = 0")
    case True
    with that show ?thesis by (simp add: nat_digits.simps [of 0])
  next
    case False
    then show ?thesis by (intro nat_digits_no_leading_zero) simp
  qed
  ultimately show ?thesis
    using n by (simp add: parse_octet_def digits_value_nat_digits nat_digits_all_digits length_nat_digits_pos)
qed

lemma octets_div: "octets w = [unat w div 16777216 mod 256, unat w div 65536 mod 256, unat w div 256 mod 256, unat w mod 256]"
proof -
  have "unat (drop_bit k w AND 0xFF) = unat w div 2 ^ k mod 256" for k
  proof -
    have "drop_bit k w AND 0xFF = take_bit 8 (drop_bit k w)"
      by (simp add: take_bit_eq_mask mask_eq_exp_minus_1 and.commute)
    then have "unat (drop_bit k w AND 0xFF) = take_bit 8 (drop_bit k (unat w))"
      by (simp only: unsigned_take_bit_eq unsigned_drop_bit_eq)
        (use unsigned_less [of w, where ?'a = nat] in \<open>simp add: take_bit_eq_mod drop_bit_eq_div\<close>)
    then show ?thesis by (simp add: take_bit_eq_mod drop_bit_eq_div)
  qed
  then show ?thesis by (simp add: octets_def)
qed

lemma four_bytes: "(n :: nat) < 4294967296 \<Longrightarrow>
  ((n div 16777216 mod 256 * 256 + n div 65536 mod 256) * 256 + n div 256 mod 256) * 256 + n mod 256 = n"
proof -
  assume "n < 4294967296"
  then have "n div 16777216 mod 256 = n div 256 div 256 div 256" by (simp flip: div_mult2_eq)
  moreover have "n div 65536 = n div 256 div 256" by (simp flip: div_mult2_eq)
  ultimately show ?thesis by (simp only: div_mult_mod_eq)
qed

lemma parse_ipv4_v4_string: "parse_ipv4 (v4_string w) = Some (V4 w)"
proof -
  let ?n = "unat w"
  have "Split (v4_string w) CHR ''.'' = map nat_digits (octets w)"
    unfolding v4_string_def
    by (rule Split_Join) (auto simp: octets_def is_digit_def intro!: nat_digits_no_sep)
  then have "parse_ipv4_fields (v4_string w) =
      Some (?n div 16777216 mod 256, ?n div 65536 mod 256, ?n div 256 mod 256, ?n mod 256)"
    by (simp add: parse_ipv4_fields_def octets_div parse_octet_nat_digits)
  moreover have "?n < 4294967296" using unsigned_less [of w, where ?'a = nat] by simp
  then have "of_nat (((?n div 16777216 mod 256 * 256 + ?n div 65536 mod 256) * 256 + ?n div 256 mod 256) * 256 + ?n mod 256) = w"
    by (simp only: four_bytes) simp
  ultimately show ?thesis by (simp add: parse_ipv4_def)
qed

lemma v4_string_dot:
  "\<exists>ds rest. v4_string w = ds @ CHR ''.'' # rest \<and> list_all is_digit ds"
  using nat_digits_all_digits by (auto simp: v4_string_def octets_def)

lemma ParseAddr_v4_string: "ParseAddr (v4_string w) = Some (V4 w)"
proof -
  obtain ds rest where s: "v4_string w = ds @ CHR ''.'' # rest" "list_all is_digit ds"
    using v4_string_dot by blast
  have "find (\<lambda>c. c = CHR ''.'' \<or> c = CHR '':'' \<or> c = CHR ''%'') ds = None"
    using s(2) by (auto simp: find_None_iff_all list_all_iff is_digit_def)
  then show ?thesis
    using parse_ipv4_v4_string [of w] by (simp add: ParseAddr_def s(1) find_append)
qed

lemma prefix_bits_digits:
  "b \<le> 128 \<Longrightarrow> \<not> (length (nat_digits b) > 1 \<and> \<not> (is_digit (hd (nat_digits b)) \<and> hd (nat_digits b) \<noteq> CHR ''0''))
    \<and> Atoi (nat_digits b) = Some (int b)"
proof
  assume b: "b \<le> 128"
  show "\<not> (length (nat_digits b) > 1 \<and> \<not> (is_digit (hd (nat_digits b)) \<and> hd (nat_digits b) \<noteq> CHR ''0''))"
  proof (cases "b = 0")
    case True
    then show ?thesis by (simp add: nat_digits.simps [of 0])
  next
    case False
    then show ?thesis using nat_digits_no_leading_zero [of b] nat_digits_head [of b] by auto
  qed
  show "Atoi (nat_digits b) = Some (int b)"
    using Atoi_Itoa [of "int b"] b by (simp add: Itoa_def)
qed

lemma ParsePrefix_String:
  assumes "ParseAddr (addr_String a) = Some a" "Zone a = []" "b \<le> BitLen a"
  shows "ParsePrefix (prefix_String (Prefix a b)) = Some (Prefix a b)"
proof -
  have "b \<le> 128" using assms(3) by (cases a) auto
  note d = prefix_bits_digits [OF this]
  have "cut_last (\<lambda>c. c = CHR ''/'') (prefix_String (Prefix a b)) = Some (addr_String a, nat_digits b)"
    unfolding prefix_String_def
    using cut_last_append [of "nat_digits b" "\<lambda>c. c = CHR ''/''" "CHR ''/''" "addr_String a"]
      nat_digits_no_sep [of "CHR ''/''" b] by (auto simp: is_digit_def)
  with d assms show ?thesis by (simp add: ParsePrefix_def)
qed

text \<open>Printing an IPv4 prefix and reading it back gives the prefix.\<close>

lemma ParsePrefix_V4_String: "b \<le> 32 \<Longrightarrow> ParsePrefix (prefix_String (Prefix (V4 w) b)) = Some (Prefix (V4 w) b)"
  by (rule ParsePrefix_String) (simp_all add: ParseAddr_v4_string)

lemma ParsePrefix_valid: "ParsePrefix s = Some p \<Longrightarrow> valid_prefix p"
  by (auto simp: ParsePrefix_def valid_prefix_def split: option.splits if_splits)

end
