(* ===== verification/PlanModel.thy ===== *)
theory PlanModel
  imports GoNetip
begin

text \<open>
  The data model of \<open>core/engine\<close>: plans (\<open>plan.go\<close>), engine kinds, features and
  versions (\<open>engine.go\<close>).  Go's string-typed enumerations stay strings, because plans
  arrive with arbitrary text in them and validation decides what is known.  A Go pointer that
  may be nil is an option; a Go map is an association list.  \<open>zero_\<dots>\<close> are Go's zero values.
\<close>

section \<open>Limits and names\<close>

definition MaxOutbounds :: nat where "MaxOutbounds = 5000"
definition MaxGroups :: nat where "MaxGroups = 500"
definition MaxRules :: nat where "MaxRules = 10000"
definition MaxIDLen :: nat where "MaxIDLen = 128"
definition MaxNameBytes :: nat where "MaxNameBytes = 256"
definition MaxHeaderCount :: nat where "MaxHeaderCount = 32"
definition MaxDNSServers :: nat where "MaxDNSServers = 32"

lemmas plan_limits =
  MaxOutbounds_def MaxGroups_def MaxRules_def MaxIDLen_def MaxNameBytes_def
  MaxHeaderCount_def MaxDNSServers_def

type_synonym Protocol = string
type_synonym GroupType = string
type_synonym RuleType = string
type_synonym DNSTransport = string
type_synonym Kind = string
type_synonym Feature = string

abbreviation ProtocolVLESS :: Protocol where "ProtocolVLESS \<equiv> ''vless''"
abbreviation ProtocolVMess :: Protocol where "ProtocolVMess \<equiv> ''vmess''"
abbreviation ProtocolTrojan :: Protocol where "ProtocolTrojan \<equiv> ''trojan''"
abbreviation ProtocolShadowsocks :: Protocol where "ProtocolShadowsocks \<equiv> ''shadowsocks''"
abbreviation ProtocolHysteria2 :: Protocol where "ProtocolHysteria2 \<equiv> ''hysteria2''"
abbreviation ProtocolTUIC :: Protocol where "ProtocolTUIC \<equiv> ''tuic''"
abbreviation ProtocolWireGuard :: Protocol where "ProtocolWireGuard \<equiv> ''wireguard''"
abbreviation ProtocolSOCKS5 :: Protocol where "ProtocolSOCKS5 \<equiv> ''socks5''"
abbreviation ProtocolHTTP :: Protocol where "ProtocolHTTP \<equiv> ''http''"
abbreviation ProtocolAnyTLS :: Protocol where "ProtocolAnyTLS \<equiv> ''anytls''"
abbreviation ProtocolBypass :: Protocol where "ProtocolBypass \<equiv> ''bypass''"
abbreviation ProtocolXrayProfile :: Protocol where "ProtocolXrayProfile \<equiv> ''xray-profile''"
abbreviation ProtocolDirect :: Protocol where "ProtocolDirect \<equiv> ''direct''"

abbreviation GroupSelect :: GroupType where "GroupSelect \<equiv> ''select''"
abbreviation GroupURLTest :: GroupType where "GroupURLTest \<equiv> ''url-test''"
abbreviation GroupFallback :: GroupType where "GroupFallback \<equiv> ''fallback''"
abbreviation GroupLoadBalance :: GroupType where "GroupLoadBalance \<equiv> ''load-balance''"

abbreviation RuleDomain :: RuleType where "RuleDomain \<equiv> ''domain''"
abbreviation RuleDomainSuffix :: RuleType where "RuleDomainSuffix \<equiv> ''domain-suffix''"
abbreviation RuleDomainKeyword :: RuleType where "RuleDomainKeyword \<equiv> ''domain-keyword''"
abbreviation RuleIPCIDR :: RuleType where "RuleIPCIDR \<equiv> ''ip-cidr''"
abbreviation RuleIPSuffix :: RuleType where "RuleIPSuffix \<equiv> ''ip-suffix''"
abbreviation RuleGeoIP :: RuleType where "RuleGeoIP \<equiv> ''geoip''"
abbreviation RuleGeoSite :: RuleType where "RuleGeoSite \<equiv> ''geosite''"
abbreviation RuleRuleSet :: RuleType where "RuleRuleSet \<equiv> ''rule-set''"
abbreviation RulePort :: RuleType where "RulePort \<equiv> ''port''"
abbreviation RuleSrcPort :: RuleType where "RuleSrcPort \<equiv> ''src-port''"
abbreviation RuleProcess :: RuleType where "RuleProcess \<equiv> ''process''"
abbreviation RuleProtocol :: RuleType where "RuleProtocol \<equiv> ''protocol''"
abbreviation RuleMatchAll :: RuleType where "RuleMatchAll \<equiv> ''all''"

abbreviation DNSSystem :: DNSTransport where "DNSSystem \<equiv> ''system''"
abbreviation DNSFakeIP :: DNSTransport where "DNSFakeIP \<equiv> ''fakeip''"

abbreviation KindMihomo :: Kind where "KindMihomo \<equiv> ''mihomo''"
abbreviation KindSingBox :: Kind where "KindSingBox \<equiv> ''sing-box''"
abbreviation KindXray :: Kind where "KindXray \<equiv> ''xray''"

abbreviation FeatureTun :: Feature where "FeatureTun \<equiv> ''tun''"
abbreviation FeatureFakeIP :: Feature where "FeatureFakeIP \<equiv> ''fake-ip''"
abbreviation FeatureRuleSets :: Feature where "FeatureRuleSets \<equiv> ''rule-sets''"
abbreviation FeatureProxyProviders :: Feature where "FeatureProxyProviders \<equiv> ''proxy-providers''"
abbreviation FeatureURLTest :: Feature where "FeatureURLTest \<equiv> ''url-test''"
abbreviation FeatureLatencyTest :: Feature where "FeatureLatencyTest \<equiv> ''latency-test''"
abbreviation FeatureHotApply :: Feature where "FeatureHotApply \<equiv> ''hot-apply''"
abbreviation FeatureGeoData :: Feature where "FeatureGeoData \<equiv> ''geodata''"
abbreviation FeaturePerAppRouting :: Feature where "FeaturePerAppRouting \<equiv> ''per-app-routing''"
abbreviation FeatureFallbackGroup :: Feature where "FeatureFallbackGroup \<equiv> ''fallback-group''"
abbreviation FeatureLoadBalance :: Feature where "FeatureLoadBalance \<equiv> ''load-balance''"
abbreviation FeatureTLSFragment :: Feature where "FeatureTLSFragment \<equiv> ''tls-fragment''"
abbreviation FeatureXHTTP :: Feature where "FeatureXHTTP \<equiv> ''xhttp''"
abbreviation FeatureVLESSEncrypt :: Feature where "FeatureVLESSEncrypt \<equiv> ''vless-encryption''"
abbreviation FeatureAmneziaWG :: Feature where "FeatureAmneziaWG \<equiv> ''amneziawg''"
abbreviation FeaturePrivateControl :: Feature where "FeaturePrivateControl \<equiv> ''private-control''"

section \<open>Outbounds\<close>

record TLS =
  tls_Enabled :: bool
  tls_ServerName :: string
  tls_ALPN :: "string list"
  tls_Fingerprint :: string
  tls_Insecure :: bool
  tls_Reality :: bool
  tls_RealityPublicKey :: string
  tls_RealityShortID :: string
  tls_SpiderX :: string

definition zero_TLS :: TLS where
  "zero_TLS = \<lparr>tls_Enabled = False, tls_ServerName = [], tls_ALPN = [], tls_Fingerprint = [],
     tls_Insecure = False, tls_Reality = False, tls_RealityPublicKey = [], tls_RealityShortID = [],
     tls_SpiderX = []\<rparr>"

record Transport =
  tr_Type :: string
  tr_Path :: string
  tr_Host :: string
  tr_Service :: string
  tr_Headers :: "string go_map"
  tr_Prefix :: string
  tr_IdleTimeout :: int
  tr_Mode :: string

definition zero_Transport :: Transport where
  "zero_Transport = \<lparr>tr_Type = [], tr_Path = [], tr_Host = [], tr_Service = [], tr_Headers = [],
     tr_Prefix = [], tr_IdleTimeout = 0, tr_Mode = []\<rparr>"

record WireGuardPeer =
  wg_PublicKey :: string
  wg_PreSharedKey :: string
  wg_Endpoint :: string
  wg_AllowedIPs :: "string list"
  wg_PersistentKeepalive :: int

record AmneziaWG =
  awg_Jc :: int
  awg_Jmin :: int
  awg_Jmax :: int
  awg_S1 :: int
  awg_S2 :: int
  awg_S3 :: int
  awg_S4 :: int
  awg_H1 :: string
  awg_H2 :: string
  awg_H3 :: string
  awg_H4 :: string
  awg_I1 :: string
  awg_I2 :: string
  awg_I3 :: string
  awg_I4 :: string
  awg_I5 :: string
  awg_J1 :: string
  awg_J2 :: string
  awg_J3 :: string
  awg_Itime :: int

definition zero_AmneziaWG :: AmneziaWG where
  "zero_AmneziaWG = \<lparr>awg_Jc = 0, awg_Jmin = 0, awg_Jmax = 0, 
     awg_S1 = 0, awg_S2 = 0, awg_S3 = 0, awg_S4 = 0, awg_H1 = [], awg_H2 = [], awg_H3 = [], awg_H4 = [], 
     awg_I1 = [], awg_I2 = [], awg_I3 = [], awg_I4 = [], awg_I5 = [], awg_J1 = [], awg_J2 = [], awg_J3 = [], awg_Itime = 0\<rparr>"

record BypassStrategy =
  bp_SplitPos :: "string list"
  bp_Disorder :: bool
  bp_OOB :: bool
  bp_TLSRecord :: string
  bp_HostCase :: bool
  bp_DomainCase :: bool
  bp_MethodEOL :: bool

record Outbound =
  o_ID :: string
  o_Name :: string
  o_Protocol :: Protocol
  o_Transport :: Transport
  o_TLS :: TLS
  o_SOCKSUDP :: bool
  o_Server :: string
  o_Port :: "16 word"
  o_UUID :: string
  o_Password :: string
  o_Cipher :: string
  o_UserID :: string
  o_Flow :: string
  o_Obfs :: string
  o_ObfsParam :: string
  o_PrivateKey :: string
  o_PublicKey :: string
  o_ShortID :: string
  o_Encryption :: string
  o_Peers :: "WireGuardPeer list"
  o_Amnezia :: "AmneziaWG option"
  o_Bypass :: "BypassStrategy option"
  o_Profile :: string
  o_Addresses :: "string list"
  o_Tags :: "string list"
  o_CountryCode :: string
  o_ProviderID :: string
  o_OriginalLink :: string

definition zero_Outbound :: Outbound where
  "zero_Outbound = \<lparr>o_ID = [], o_Name = [], o_Protocol = [], o_Transport = zero_Transport,
     o_TLS = zero_TLS, o_SOCKSUDP = False, o_Server = [], o_Port = 0, o_UUID = [], o_Password = [],
     o_Cipher = [], o_UserID = [], o_Flow = [], o_Obfs = [], o_ObfsParam = [], o_PrivateKey = [],
     o_PublicKey = [], o_ShortID = [], o_Encryption = [], o_Peers = [], o_Amnezia = None,
     o_Bypass = None, o_Profile = [], o_Addresses = [], o_Tags = [], o_CountryCode = [],
     o_ProviderID = [], o_OriginalLink = []\<rparr>"

section \<open>Groups, rules, resolvers, adapter and options\<close>

record Group =
  g_Name :: string
  g_Type :: GroupType
  g_Outbounds :: "string list"
  g_URL :: string
  g_Interval :: int
  g_Tolerance :: int
  g_Lazy :: bool
  g_Hidden :: bool
  g_Icon :: string
  g_Provider :: string
  g_Include :: "string list"
  g_Exclude :: "string list"

definition zero_Group :: Group where
  "zero_Group = \<lparr>g_Name = [], g_Type = [], g_Outbounds = [], g_URL = [], g_Interval = 0,
     g_Tolerance = 0, g_Lazy = False, g_Hidden = False, g_Icon = [], g_Provider = [],
     g_Include = [], g_Exclude = []\<rparr>"

record Rule =
  r_Type :: RuleType
  r_Value :: string
  r_Target :: string
  r_NoResolve :: bool

record DNSServer =
  ds_Tag :: string
  ds_Transport :: DNSTransport
  ds_Address :: string
  ds_Port :: "16 word"
  ds_Dialer :: string
  ds_Suffixes :: "string list"
  ds_ProxyOnly :: bool

record DNS =
  d_Enabled :: bool
  d_Mode :: string
  d_FakeIPRange :: string
  d_Servers :: "DNSServer list"
  d_NameserverPolicy :: "string list go_map"
  d_DisableCache :: bool
  d_Sniff :: bool
  d_HijackTun :: "string list"

definition zero_DNS :: DNS where
  "zero_DNS = \<lparr>d_Enabled = False, d_Mode = [], d_FakeIPRange = [], d_Servers = [],
     d_NameserverPolicy = [], d_DisableCache = False, d_Sniff = False, d_HijackTun = []\<rparr>"

definition TunDevice :: string where "TunDevice = ''sora0''"

record Tun =
  t_IPv4 :: "prefix option"
  t_IPv6 :: "prefix option"
  t_Enabled :: bool
  t_Stack :: string
  t_DeviceName :: string
  t_MTU :: int
  t_StrictRoute :: bool
  t_AutoRoute :: bool
  t_RouteAddressSets :: "string list"
  t_IncludeApps :: "string list"
  t_ExcludeApps :: "string list"

definition zero_Tun :: Tun where
  "zero_Tun = \<lparr>t_IPv4 = None, t_IPv6 = None, t_Enabled = False, t_Stack = [], t_DeviceName = [],
     t_MTU = 0, t_StrictRoute = False, t_AutoRoute = False, t_RouteAddressSets = [],
     t_IncludeApps = [], t_ExcludeApps = []\<rparr>"

record Fragment =
  f_Enabled :: bool
  f_Packets :: string
  f_Length :: string
  f_Interval :: string

record Options =
  op_LogLevel :: string
  op_Mode :: string
  op_UnifiedDelay :: bool
  op_FindProcess :: bool
  op_GeoData :: bool
  op_AllowLAN :: bool
  op_IPv6 :: bool
  op_ProfileStorage :: bool
  op_TestURL :: string
  op_GeoSiteURL :: string
  op_GeoIPURL :: string
  op_Fragment :: Fragment

definition zero_Options :: Options where
  "zero_Options = \<lparr>op_LogLevel = [], op_Mode = [], op_UnifiedDelay = False, op_FindProcess = False,
     op_GeoData = False, op_AllowLAN = False, op_IPv6 = False, op_ProfileStorage = False,
     op_TestURL = [], op_GeoSiteURL = [], op_GeoIPURL = [],
     op_Fragment = \<lparr>f_Enabled = False, f_Packets = [], f_Length = [], f_Interval = []\<rparr>\<rparr>"

record LocalProxy =
  lp_Enabled :: bool
  lp_Username :: string
  lp_Password :: string

record Plan =
  p_SessionID :: string
  p_Engines :: "Kind list"
  p_PrivateControl :: bool
  p_LocalProxy :: LocalProxy
  p_Outbounds :: "Outbound list"
  p_Groups :: "Group list"
  p_Rules :: "Rule list"
  p_DNS :: DNS
  p_Tun :: Tun
  p_Options :: Options

definition zero_Plan :: Plan where
  "zero_Plan = \<lparr>p_SessionID = [], p_Engines = [], p_PrivateControl = False,
     p_LocalProxy = \<lparr>lp_Enabled = False, lp_Username = [], lp_Password = []\<rparr>, p_Outbounds = [],
     p_Groups = [], p_Rules = [], p_DNS = zero_DNS, p_Tun = zero_Tun, p_Options = zero_Options\<rparr>"

lemmas zero_defs =
  zero_TLS_def zero_Transport_def zero_Outbound_def zero_Group_def zero_DNS_def zero_Tun_def
  zero_Options_def zero_Plan_def

section \<open>Engine versions and capabilities\<close>

record Version =
  v_Raw :: string
  v_Major :: int
  v_Minor :: int
  v_Patch :: int
  v_PreRelease :: string

definition version_Less :: "Version \<Rightarrow> Version \<Rightarrow> bool" where
  "version_Less v w =
     (if v_Major v \<noteq> v_Major w then v_Major v < v_Major w
      else if v_Minor v \<noteq> v_Minor w then v_Minor v < v_Minor w
      else v_Patch v < v_Patch w)"

text \<open>\<open>ParseVersion\<close>; both failures (empty, malformed) are \<open>None\<close>.\<close>

definition ParseVersion :: "string \<Rightarrow> Version option" where
  "ParseVersion raw =
     (let s0 = TrimSpace (TrimPrefix (TrimSpace raw) ''v'') in
      if s0 = [] then None
      else
        (let (s, pre) = (case cut_first (\<lambda>c. c = CHR ''-'' \<or> c = CHR ''+'') s0 of
                           Some (a, b) \<Rightarrow> (a, b) | None \<Rightarrow> (s0, []))
         in case Split s CHR ''.'' of
              [x, y, z] \<Rightarrow>
                (case (Atoi x, Atoi y, Atoi z) of
                   (Some a, Some b, Some c) \<Rightarrow>
                     if a < 0 \<or> b < 0 \<or> c < 0 then None
                     else Some \<lparr>v_Raw = TrimSpace raw, v_Major = a, v_Minor = b, v_Patch = c,
                                v_PreRelease = pre\<rparr>
                 | _ \<Rightarrow> None)
            | _ \<Rightarrow> None))"

record Capabilities =
  c_Kind :: Kind
  c_MinVersion :: string
  c_Protocols :: "bool go_map"
  c_Features :: "bool go_map"

definition SupportsProtocol :: "Capabilities \<Rightarrow> Protocol \<Rightarrow> bool" where
  "SupportsProtocol c p \<longleftrightarrow> map_of (c_Protocols c) p = Some True"

definition Supports :: "Capabilities \<Rightarrow> Feature \<Rightarrow> bool" where
  "Supports c f \<longleftrightarrow> map_of (c_Features c) f = Some True"

section \<open>Laws of versions\<close>

lemma version_Less_irrefl: "\<not> version_Less v v"
  by (simp add: version_Less_def)

lemma version_Less_trans: "version_Less u v \<Longrightarrow> version_Less v w \<Longrightarrow> version_Less u w"
  by (auto simp: version_Less_def split: if_splits)

lemma version_Less_total:
  "version_Less v w \<or> version_Less w v \<or>
   (v_Major v = v_Major w \<and> v_Minor v = v_Minor w \<and> v_Patch v = v_Patch w)"
  by (auto simp: version_Less_def)

text \<open>The printed form \<open>major.minor.patch\<close> reads back.\<close>

lemma Itoa_digits: "0 \<le> i \<Longrightarrow> c \<in> set (Itoa i) \<Longrightarrow> is_digit c"
  using nat_digits_all_digits [of "nat i"] by (auto simp: Itoa_def list_all_iff)

end
