(* ===== verification/GoURL.thy ===== *)
theory GoURL
  imports GoNetip
begin

text \<open>
  Go's \<open>net/url\<close>: \<open>Parse\<close>, which splits off fragment, scheme, query and authority with the
  character and escape checks that make it fail; printing, resolving references against a base,
  and reading queries.
\<close>

record url =
  u_Scheme :: string
  u_Opaque :: string
  u_User :: "(string \<times> string option) option"
  u_Host :: string
  u_Path :: string
  u_RawPath :: string
  u_OmitHost :: bool
  u_ForceQuery :: bool
  u_RawQuery :: string
  u_Fragment :: string
  u_RawFragment :: string

definition empty_url :: url where
  "empty_url = \<lparr>u_Scheme = [], u_Opaque = [], u_User = None, u_Host = [], u_Path = [], u_RawPath = [],
     u_OmitHost = False, u_ForceQuery = False, u_RawQuery = [], u_Fragment = [], u_RawFragment = []\<rparr>"

definition ascii_lower :: "char \<Rightarrow> char" where
  "ascii_lower c = (if is_upper c then char_of (byte c + 32) else c)"

definition contains_ctl :: "string \<Rightarrow> bool" where
  "contains_ctl s \<longleftrightarrow> list_ex (\<lambda>c. byte c < 32 \<or> byte c = 127) s"

definition is_alnum :: "char \<Rightarrow> bool" where
  "is_alnum c \<longleftrightarrow> is_digit c \<or> is_lower c \<or> is_upper c"

section \<open>Escapes\<close>

datatype url_mode = EncodePath | EncodeHost | EncodeZone | EncodeUserPassword | EncodeFragment | EncodeQuery

text \<open>\<open>shouldEscape\<close> in the host and zone modes, the only ones \<open>unescape\<close> consults.\<close>

definition host_should_escape :: "char \<Rightarrow> bool" where
  "host_should_escape c \<longleftrightarrow>
     \<not> is_alnum c \<and> \<not> List.member (''-_.~!$&()*+,;=:[]<>'' @ [CHR 0x27, CHR 0x22]) c"

fun unescape :: "url_mode \<Rightarrow> string \<Rightarrow> string option" where
  "unescape mode [] = Some []"
| "unescape mode (c # cs) =
     (if c = CHR ''%'' then
        (case cs of
           x # y # rest \<Rightarrow>
             (let v = hex_digit_value x * 16 + hex_digit_value y;
                  is25 = (x = CHR ''2'' \<and> y = CHR ''5'')
              in if \<not> is_hex x \<or> \<not> is_hex y then None
                 else if mode = EncodeHost \<and> hex_digit_value x < 8 \<and> \<not> is25 then None
                 else if mode = EncodeZone \<and> \<not> is25 \<and> v \<noteq> 32 \<and> host_should_escape (char_of v) then None
                 else map_option (\<lambda>r. char_of v # r) (unescape mode rest))
         | _ \<Rightarrow> None)
      else if mode = EncodeQuery \<and> c = CHR ''+'' then map_option (\<lambda>r. CHR '' '' # r) (unescape mode cs)
      else if (mode = EncodeHost \<or> mode = EncodeZone) \<and> byte c < 128 \<and> host_should_escape c then None
      else map_option (\<lambda>r. c # r) (unescape mode cs))"

text \<open>\<open>shouldEscape\<close> in all modes, and \<open>escape\<close>.\<close>

definition should_escape :: "url_mode \<Rightarrow> char \<Rightarrow> bool" where
  "should_escape mode c =
     (if mode = EncodeHost \<or> mode = EncodeZone then host_should_escape c
      else if is_alnum c \<or> List.member ''-_.~'' c then False
      else if List.member ''$&+,/:;=?@'' c then
        (case mode of
           EncodePath \<Rightarrow> c = CHR ''?''
         | EncodeUserPassword \<Rightarrow> List.member ''@/?:'' c
         | EncodeFragment \<Rightarrow> False
         | _ \<Rightarrow> True)
      else \<not> (mode = EncodeFragment \<and> List.member ''!()*'' c))"

definition upper_hex :: "nat \<Rightarrow> char" where
  "upper_hex d = (if d < 10 then char_of (48 + d) else char_of (55 + d))"

definition escape_byte :: "url_mode \<Rightarrow> char \<Rightarrow> string" where
  "escape_byte mode c =
     (if c = CHR '' '' \<and> mode = EncodeQuery then ''+''
      else if should_escape mode c then [CHR ''%'', upper_hex (byte c div 16), upper_hex (byte c mod 16)]
      else [c])"

definition escape :: "url_mode \<Rightarrow> string \<Rightarrow> string" where
  "escape mode s = concat (map (escape_byte mode) s)"

definition setPath :: "string \<Rightarrow> url \<Rightarrow> url option" where
  "setPath p u =
     map_option (\<lambda>path. u\<lparr>u_Path := path, u_RawPath := (if p = escape EncodePath path then [] else p)\<rparr>)
       (unescape EncodePath p)"

definition setFragment :: "string \<Rightarrow> url \<Rightarrow> url option" where
  "setFragment f u =
     map_option (\<lambda>frag. u\<lparr>u_Fragment := frag, u_RawFragment := (if f = escape EncodeFragment frag then [] else f)\<rparr>)
       (unescape EncodeFragment f)"

section \<open>Scheme and authority\<close>

text \<open>\<open>None\<close> is a missing scheme before a leading colon.\<close>

definition is_scheme_char :: "char \<Rightarrow> bool" where
  "is_scheme_char c \<longleftrightarrow> is_alnum c \<or> c = CHR ''+'' \<or> c = CHR ''-'' \<or> c = CHR ''.''"

definition getScheme :: "string \<Rightarrow> (string \<times> string) option" where
  "getScheme raw =
     (let sch = takeWhile is_scheme_char raw; rest = dropWhile is_scheme_char raw in
      case rest of
        c # tail \<Rightarrow>
          if c = CHR '':'' then
            (if raw = rest then None
             else if is_lower (hd raw) \<or> is_upper (hd raw) then Some (sch, tail)
             else Some ([], raw))
          else Some ([], raw)
      | [] \<Rightarrow> Some ([], raw))"

definition validOptionalPort :: "string \<Rightarrow> bool" where
  "validOptionalPort p \<longleftrightarrow> p = [] \<or> (hd p = CHR '':'' \<and> list_all is_digit (tl p))"

definition validUserinfo :: "string \<Rightarrow> bool" where
  "validUserinfo s \<longleftrightarrow>
     list_all (\<lambda>c. is_alnum c \<or> List.member (''-._:~!$&()*+,;=%@'' @ [CHR 0x27]) c) s"

definition split_zone :: "string \<Rightarrow> (string \<times> string) option" where
  "split_zone h =
     (case find (\<lambda>i. HasPrefix (drop i h) ''%25'') [0..<length h] of
        Some i \<Rightarrow> Some (take i h, drop i h) | None \<Rightarrow> None)"

definition parse_host :: "string \<Rightarrow> string option" where
  "parse_host host =
     (case cut_last (\<lambda>c. c = CHR ''['') host of
        Some (_, after_open) \<Rightarrow>
          (case cut_last (\<lambda>c. c = CHR '']'') host of
             None \<Rightarrow> None
           | Some (before_close, port) \<Rightarrow>
               (let name = drop (length host - length after_open) before_close;
                    plain = (case split_zone name of
                               Some (h, z) \<Rightarrow>
                                 (case (unescape EncodeHost h, unescape EncodeZone z) of
                                    (Some a, Some b) \<Rightarrow> Some (a @ b) | _ \<Rightarrow> None)
                             | None \<Rightarrow> unescape EncodeHost name)
                in if \<not> validOptionalPort port then None
                   else (case plain of
                           None \<Rightarrow> None
                         | Some n \<Rightarrow>
                             (case ParseAddr n of
                                Some (V6 _ _) \<Rightarrow> Some (''['' @ n @ '']'' @ port)
                              | _ \<Rightarrow> None))))
      | None \<Rightarrow>
          (case cut_first (\<lambda>c. c = CHR '':'') host of
             Some (_, port) \<Rightarrow>
               if validOptionalPort ('':'' @ port) then unescape EncodeHost host else None
           | None \<Rightarrow> unescape EncodeHost host))"

definition parse_userinfo :: "string \<Rightarrow> (string \<times> string option) option" where
  "parse_userinfo s =
     (if \<not> validUserinfo s then None
      else (case cut_first (\<lambda>c. c = CHR '':'') s of
              None \<Rightarrow> map_option (\<lambda>u. (u, None)) (unescape EncodeUserPassword s)
            | Some (u, p) \<Rightarrow>
                (case (unescape EncodeUserPassword u, unescape EncodeUserPassword p) of
                   (Some a, Some b) \<Rightarrow> Some (a, Some b) | _ \<Rightarrow> None)))"

definition parse_authority :: "string \<Rightarrow> ((string \<times> string option) option \<times> string) option" where
  "parse_authority a =
     (case cut_last (\<lambda>c. c = CHR ''@'') a of
        None \<Rightarrow> map_option (\<lambda>h. (None, h)) (parse_host a)
      | Some (user, h) \<Rightarrow>
          (case (parse_host h, parse_userinfo user) of
             (Some host, Some u) \<Rightarrow> Some (Some u, host) | _ \<Rightarrow> None))"

section \<open>The parser\<close>

text \<open>A query mark that is the last byte and the only one is remembered in a flag.\<close>

definition cut_query :: "string \<Rightarrow> string \<times> bool \<times> string" where
  "cut_query rest =
     (case cut_first (\<lambda>c. c = CHR ''?'') rest of
        None \<Rightarrow> (rest, False, [])
      | Some (a, []) \<Rightarrow> (a, True, [])
      | Some (a, q) \<Rightarrow> (a, False, q))"

definition parse_no_fragment :: "string \<Rightarrow> url option" where
  "parse_no_fragment raw =
     (if contains_ctl raw then None
      else if raw = ''*'' then Some (empty_url\<lparr>u_Path := ''*''\<rparr>)
      else
        (case getScheme raw of
           None \<Rightarrow> None
         | Some (sch, rest0) \<Rightarrow>
             (let scheme = map ascii_lower sch;
                  (rest, force, query) = cut_query rest0;
                  segment = takeWhile (\<lambda>c. c \<noteq> CHR ''/'') rest;
                  base = empty_url\<lparr>u_Scheme := scheme, u_ForceQuery := force, u_RawQuery := query\<rparr>
              in if \<not> HasPrefix rest ''/'' \<and> scheme \<noteq> [] then Some (base\<lparr>u_Opaque := rest\<rparr>)
                 else if \<not> HasPrefix rest ''/'' \<and> Contains segment '':'' then None
                 else if (scheme \<noteq> [] \<or> \<not> HasPrefix rest ''///'') \<and> HasPrefix rest ''//'' then
                   (let auth = takeWhile (\<lambda>c. c \<noteq> CHR ''/'') (drop 2 rest);
                        path = dropWhile (\<lambda>c. c \<noteq> CHR ''/'') (drop 2 rest)
                    in case parse_authority auth of
                         None \<Rightarrow> None
                       | Some (user, host) \<Rightarrow> setPath path (base\<lparr>u_User := user, u_Host := host\<rparr>))
                 else setPath rest (base\<lparr>u_OmitHost := (scheme \<noteq> [] \<and> HasPrefix rest ''/'')\<rparr>))))"

definition url_Parse :: "string \<Rightarrow> url option" where
  "url_Parse raw =
     (case cut_first (\<lambda>c. c = CHR ''#'') raw of
        None \<Rightarrow> parse_no_fragment raw
      | Some (u, frag) \<Rightarrow>
          (case parse_no_fragment u of
             None \<Rightarrow> None
           | Some v \<Rightarrow> if frag = [] then Some v else setFragment frag v))"

section \<open>Printing\<close>

definition validEncoded :: "url_mode \<Rightarrow> string \<Rightarrow> bool" where
  "validEncoded mode s \<longleftrightarrow>
     list_all (\<lambda>c. List.member (''!$&()*+,;=:@[]%'' @ [CHR 0x27]) c \<or> \<not> should_escape mode c) s"

definition EscapedPath :: "url \<Rightarrow> string" where
  "EscapedPath u =
     (if u_RawPath u \<noteq> [] \<and> validEncoded EncodePath (u_RawPath u) \<and>
         unescape EncodePath (u_RawPath u) = Some (u_Path u) then u_RawPath u
      else if u_Path u = ''*'' then ''*''
      else escape EncodePath (u_Path u))"

definition EscapedFragment :: "url \<Rightarrow> string" where
  "EscapedFragment u =
     (if u_RawFragment u \<noteq> [] \<and> validEncoded EncodeFragment (u_RawFragment u) \<and>
         unescape EncodeFragment (u_RawFragment u) = Some (u_Fragment u) then u_RawFragment u
      else escape EncodeFragment (u_Fragment u))"

definition Userinfo_String :: "string \<times> string option \<Rightarrow> string" where
  "Userinfo_String ui =
     escape EncodeUserPassword (fst ui) @
     (case snd ui of None \<Rightarrow> [] | Some p \<Rightarrow> '':'' @ escape EncodeUserPassword p)"

definition authority_text :: "url \<Rightarrow> string" where
  "authority_text u =
     (if u_Scheme u = [] \<and> u_Host u = [] \<and> u_User u = None then []
      else if u_OmitHost u \<and> u_Host u = [] \<and> u_User u = None then []
      else (if u_Host u \<noteq> [] \<or> u_Path u \<noteq> [] \<or> u_User u \<noteq> None then ''//'' else []) @
           (case u_User u of None \<Rightarrow> [] | Some ui \<Rightarrow> Userinfo_String ui @ ''@'') @
           escape EncodeHost (u_Host u))"

definition url_String :: "url \<Rightarrow> string" where
  "url_String u =
     (let scheme = (if u_Scheme u = [] then [] else u_Scheme u @ '':'');
          front = scheme @ authority_text u;
          path = EscapedPath u;
          slash = (if path \<noteq> [] \<and> hd path \<noteq> CHR ''/'' \<and> u_Host u \<noteq> [] then ''/'' else []);
          dot = (if front @ slash = [] \<and> Contains (takeWhile (\<lambda>c. c \<noteq> CHR ''/'') path) '':'' then ''./'' else [])
      in (if u_Opaque u \<noteq> [] then scheme @ u_Opaque u else front @ slash @ dot @ path) @
         (if u_ForceQuery u \<or> u_RawQuery u \<noteq> [] then ''?'' @ u_RawQuery u else []) @
         (if u_Fragment u \<noteq> [] then ''#'' @ EscapedFragment u else []))"

section \<open>Resolving\<close>

text \<open>
  The loop of \<open>resolvePath\<close> over the elements between slashes; \<open>dst\<close> is what was written after the
  leading slash.
\<close>

fun resolve_elems :: "bool \<Rightarrow> string \<Rightarrow> string list \<Rightarrow> string" where
  "resolve_elems first dst [] = dst"
| "resolve_elems first dst (e # es) =
     (if e = ''.'' then resolve_elems False dst es
      else if e = ''..'' then
        (case cut_last (\<lambda>c. c = CHR ''/'') dst of
           None \<Rightarrow> resolve_elems True [] es
         | Some (a, _) \<Rightarrow> resolve_elems first a es)
      else resolve_elems False (dst @ (if first then [] else ''/'') @ e) es)"

definition resolvePath :: "string \<Rightarrow> string \<Rightarrow> string" where
  "resolvePath base ref =
     (let full = (if ref = [] then base
                  else if hd ref \<noteq> CHR ''/'' then
                    (case cut_last (\<lambda>c. c = CHR ''/'') base of None \<Rightarrow> ref | Some (a, _) \<Rightarrow> a @ ''/'' @ ref)
                  else ref)
      in if full = [] then []
         else
           (let elems = Split full (CHR ''/'');
                dst = resolve_elems True [] elems @ (if last elems \<in> {''.'', ''..''} then ''/'' else []);
                r = ''/'' @ dst
            in if HasPrefix dst ''/'' then dst else r))"

definition ResolveReference :: "url \<Rightarrow> url \<Rightarrow> url" where
  "ResolveReference u ref =
     (let url0 = (if u_Scheme ref = [] then ref\<lparr>u_Scheme := u_Scheme u\<rparr> else ref);
          path = (\<lambda>p v. case setPath p v of Some v' \<Rightarrow> v' | None \<Rightarrow> v)
      in if u_Scheme ref \<noteq> [] \<or> u_Host ref \<noteq> [] \<or> u_User ref \<noteq> None then path (resolvePath (EscapedPath ref) []) url0
         else if u_Opaque ref \<noteq> [] then url0\<lparr>u_User := None, u_Host := [], u_Path := []\<rparr>
         else
           (let bare = (u_Path ref = [] \<and> \<not> u_ForceQuery ref \<and> u_RawQuery ref = []);
                url1 = (if bare then url0\<lparr>u_RawQuery := u_RawQuery u\<rparr> else url0);
                url2 = (if bare \<and> u_Fragment ref = []
                        then url1\<lparr>u_Fragment := u_Fragment u, u_RawFragment := u_RawFragment u\<rparr> else url1)
            in if u_Path ref = [] \<and> u_Opaque u \<noteq> []
               then url2\<lparr>u_Opaque := u_Opaque u, u_User := None, u_Host := [], u_Path := []\<rparr>
               else path (resolvePath (EscapedPath u) (EscapedPath ref)) (url2\<lparr>u_Host := u_Host u, u_User := u_User u\<rparr>)))"

section \<open>Host, port and query\<close>

text \<open>\<open>splitHostPort\<close>: the host without brackets, and the port.\<close>

definition split_port :: "string \<Rightarrow> string \<times> string" where
  "split_port hostPort =
     (let (host, port) = (case cut_last (\<lambda>c. c = CHR '':'') hostPort of
                            Some (h, p) \<Rightarrow> if validOptionalPort ('':'' @ p) then (h, p) else (hostPort, [])
                          | None \<Rightarrow> (hostPort, []))
      in (if HasPrefix host ''['' \<and> HasSuffix host '']'' then drop 1 (butlast host) else host, port))"

definition url_Hostname :: "url \<Rightarrow> string" where
  "url_Hostname u = fst (split_port (u_Host u))"

definition url_Port :: "url \<Rightarrow> string" where
  "url_Port u = snd (split_port (u_Host u))"

text \<open>
  \<open>URL.Query\<close>: the pairs in order; malformed ones are dropped, and a query of more than ten
  thousand parts is refused as a whole.
\<close>

definition query_pair :: "string \<Rightarrow> (string \<times> string) option" where
  "query_pair part =
     (if part = [] \<or> List.member part (CHR '';'') then None
      else
        (let (k, v) = (case cut_first (\<lambda>c. c = CHR ''='') part of Some kv \<Rightarrow> kv | None \<Rightarrow> (part, []))
         in case (unescape EncodeQuery k, unescape EncodeQuery v) of
              (Some k', Some v') \<Rightarrow> Some (k', v')
            | _ \<Rightarrow> None))"

definition url_Query :: "url \<Rightarrow> (string \<times> string) list" where
  "url_Query u =
     (let parts = Split (u_RawQuery u) (CHR ''&'') in
      if length parts > 10000 then [] else List.map_filter query_pair parts)"

definition query_Get :: "(string \<times> string) list \<Rightarrow> string \<Rightarrow> string" where
  "query_Get q k = (case map_of q k of Some v \<Rightarrow> v | None \<Rightarrow> [])"

end
