(* ===== verification/GoJSON.thy ===== *)
theory GoJSON
  imports GoURL
begin

text \<open>
  Go's \<open>encoding/json\<close> as the core uses it: the decoder of one document and the two
  targets the plan code decodes into.  Numbers keep their literal text.  The recursive
  decoder carries a fuel argument; \<open>json_value_fuel\<close> shows that one more than the length of
  the input is always enough, so that fuel never decides an outcome of \<open>json_parse\<close>.
\<close>

datatype json =
    JNull
  | JBool bool
  | JNum string
  | JStr string
  | JArr "json list"
  | JObj "(string \<times> json) list"

section \<open>Tokens\<close>

definition is_ws :: "char \<Rightarrow> bool" where
  "is_ws c \<longleftrightarrow> c = CHR 0x20 \<or> c = CHR 0x09 \<or> c = CHR 0x0A \<or> c = CHR 0x0D"

definition skip_ws :: "string \<Rightarrow> string" where
  "skip_ws s = dropWhile is_ws s"

definition encode_rune :: "nat \<Rightarrow> string" where
  "encode_rune r =
     map char_of
       (if r < 128 then [r]
        else if r < 2048 then [192 + r div 64, 128 + r mod 64]
        else if r < 65536 then [224 + r div 4096, 128 + r div 64 mod 64, 128 + r mod 64]
        else [240 + r div 262144, 128 + r div 4096 mod 64, 128 + r div 64 mod 64, 128 + r mod 64])"

text \<open>The raw text between the quotes, and what follows the closing quote.\<close>

fun scan_str :: "string \<Rightarrow> (string \<times> string) option" where
  "scan_str [] = None"
| "scan_str (c # cs) =
     (if c = CHR 0x22 then Some ([], cs)
      else if byte c < 32 then None
      else if c = CHR 0x5C then
        (case cs of
           [] \<Rightarrow> None
         | d # ds \<Rightarrow> map_option (\<lambda>(a, r). (c # d # a, r)) (scan_str ds))
      else map_option (\<lambda>(a, r). (c # a, r)) (scan_str cs))"

definition simple_escape :: "char \<Rightarrow> char option" where
  "simple_escape e = map_of
     [(CHR 0x22, CHR 0x22), (CHR 0x5C, CHR 0x5C), (CHR 0x2F, CHR 0x2F), (CHR ''b'', CHR 0x08),
      (CHR ''f'', CHR 0x0C), (CHR ''n'', CHR 0x0A), (CHR ''r'', CHR 0x0D), (CHR ''t'', CHR 0x09)] e"

text \<open>Four hexadecimal digits at the front.\<close>

definition hex4 :: "string \<Rightarrow> nat option" where
  "hex4 s = (if length s \<ge> 4 \<and> list_all is_hex (take 4 s) then Some (hex_value 0 (take 4 s)) else None)"

function unquote :: "string \<Rightarrow> string option" where
  "unquote s =
     (case s of
        [] \<Rightarrow> Some []
      | c # cs \<Rightarrow>
          if c = CHR 0x5C then
            (case cs of
               [] \<Rightarrow> None
             | e # ds \<Rightarrow>
                 if e = CHR ''u'' then
                   (case hex4 ds of
                      None \<Rightarrow> None
                    | Some r \<Rightarrow>
                        (let rest = drop 4 ds;
                             low = (if HasPrefix rest [CHR 0x5C, CHR ''u''] then hex4 (drop 2 rest) else None)
                         in if r < 55296 \<or> 57343 < r then
                              map_option ((@) (encode_rune r)) (unquote rest)
                            else (case low of
                                    Some l \<Rightarrow>
                                      if r < 56320 \<and> 56320 \<le> l \<and> l \<le> 57343 then
                                        map_option ((@) (encode_rune (65536 + (r - 55296) * 1024 + (l - 56320))))
                                          (unquote (drop 6 rest))
                                      else map_option ((@) (encode_rune rune_error)) (unquote rest)
                                  | None \<Rightarrow> map_option ((@) (encode_rune rune_error)) (unquote rest))))
                 else (case simple_escape e of
                         None \<Rightarrow> None
                       | Some d \<Rightarrow> map_option ((#) d) (unquote ds)))
          else if byte c < 128 then map_option ((#) c) (unquote cs)
          else map_option ((@) (encode_rune (fst (DecodeRune s)))) (unquote (drop (snd (DecodeRune s)) s)))"
  by pat_completeness auto
termination
proof (relation "measure length")
  fix s :: string and c cs
  assume "s = c # cs"
  then show "(drop (snd (DecodeRune s)) s, s) \<in> measure length"
    using DecodeRune_width_pos [of s] by simp
qed auto

declare unquote.simps [simp del]

text \<open>A number literal at the front: sign, integer part, fraction, exponent.\<close>

definition num_int :: "string \<Rightarrow> string \<times> string" where
  "num_int a = (if HasPrefix a ''0'' then (''0'', drop 1 a)
                else (takeWhile is_digit a, dropWhile is_digit a))"

definition num_frac :: "string \<Rightarrow> (string \<times> string) option" where
  "num_frac b =
     (if HasPrefix b ''.'' then
        (let ds = takeWhile is_digit (drop 1 b) in
         if ds = [] then None else Some (''.'' @ ds, dropWhile is_digit (drop 1 b)))
      else Some ([], b))"

definition num_exp :: "string \<Rightarrow> (string \<times> string) option" where
  "num_exp c =
     (if HasPrefix c ''e'' \<or> HasPrefix c ''E'' then
        (let k = (if HasPrefix (drop 1 c) ''+'' \<or> HasPrefix (drop 1 c) ''-'' then 2 else 1);
             ds = takeWhile is_digit (drop k c)
         in if ds = [] then None else Some (take k c @ ds, dropWhile is_digit (drop k c)))
      else Some ([], c))"

definition json_num :: "string \<Rightarrow> (string \<times> string) option" where
  "json_num s =
     (let sign = (if HasPrefix s ''-'' then ''-'' else []);
          (ip, b) = num_int (drop (length sign) s)
      in if ip = [] then None
         else (case num_frac b of
                 None \<Rightarrow> None
               | Some (fp, c) \<Rightarrow>
                   map_option (\<lambda>(ep, r). (sign @ ip @ fp @ ep, r)) (num_exp c)))"

definition json_string :: "string \<Rightarrow> (string \<times> string) option" where
  "json_string s =
     (case scan_str s of
        None \<Rightarrow> None
      | Some (raw, rest) \<Rightarrow> map_option (\<lambda>t. (t, rest)) (unquote raw))"

section \<open>Values\<close>

text \<open>
  \<open>json_value fuel depth s\<close> reads one value from the front of \<open>s\<close> (leading space skipped);
  \<open>depth\<close> is how many more levels of nesting the decoder accepts.
\<close>

fun json_value :: "nat \<Rightarrow> nat \<Rightarrow> string \<Rightarrow> (json \<times> string) option"
  and json_elems :: "nat \<Rightarrow> nat \<Rightarrow> string \<Rightarrow> (json list \<times> string) option"
  and json_members :: "nat \<Rightarrow> nat \<Rightarrow> string \<Rightarrow> ((string \<times> json) list \<times> string) option" where
  "json_value 0 d s = None"
| "json_value (Suc f) d s =
     (case skip_ws s of
        [] \<Rightarrow> None
      | c # cs \<Rightarrow>
          if c = CHR ''{'' then
            (if d = 0 then None
             else (case skip_ws cs of
                     [] \<Rightarrow> None
                   | x # xs \<Rightarrow>
                       if x = CHR ''}'' then Some (JObj [], xs)
                       else map_option (\<lambda>(m, r). (JObj m, r)) (json_members f (d - 1) cs)))
          else if c = CHR ''['' then
            (if d = 0 then None
             else (case skip_ws cs of
                     [] \<Rightarrow> None
                   | x # xs \<Rightarrow>
                       if x = CHR '']'' then Some (JArr [], xs)
                       else map_option (\<lambda>(m, r). (JArr m, r)) (json_elems f (d - 1) cs)))
          else if c = CHR 0x22 then map_option (\<lambda>(t, r). (JStr t, r)) (json_string cs)
          else if HasPrefix (c # cs) ''null'' then Some (JNull, drop 4 (c # cs))
          else if HasPrefix (c # cs) ''true'' then Some (JBool True, drop 4 (c # cs))
          else if HasPrefix (c # cs) ''false'' then Some (JBool False, drop 5 (c # cs))
          else map_option (\<lambda>(t, r). (JNum t, r)) (json_num (c # cs)))"
| "json_elems 0 d s = None"
| "json_elems (Suc f) d s =
     (case json_value f d s of
        None \<Rightarrow> None
      | Some (v, r) \<Rightarrow>
          (case skip_ws r of
             [] \<Rightarrow> None
           | c # cs \<Rightarrow>
               if c = CHR '']'' then Some ([v], cs)
               else if c = CHR '','' then map_option (\<lambda>(vs, t). (v # vs, t)) (json_elems f d cs)
               else None))"
| "json_members 0 d s = None"
| "json_members (Suc f) d s =
     (case skip_ws s of
        [] \<Rightarrow> None
      | q # qs \<Rightarrow>
          if q \<noteq> CHR 0x22 then None
          else
            (case json_string qs of
               None \<Rightarrow> None
             | Some (k, r) \<Rightarrow>
                 (case skip_ws r of
                    [] \<Rightarrow> None
                  | c # cs \<Rightarrow>
                      if c \<noteq> CHR '':'' then None
                      else
                        (case json_value f d cs of
                           None \<Rightarrow> None
                         | Some (v, t) \<Rightarrow>
                             (case skip_ws t of
                                [] \<Rightarrow> None
                              | e # es \<Rightarrow>
                                  if e = CHR ''}'' then Some ([(k, v)], es)
                                  else if e = CHR '','' then
                                    map_option (\<lambda>(m, u). ((k, v) # m, u)) (json_members f d es)
                                  else None)))))"

definition max_nesting :: nat where "max_nesting = 10000"

definition json_parse :: "string \<Rightarrow> json option" where
  "json_parse s =
     (case json_value (2 * length s + 2) max_nesting s of
        Some (v, rest) \<Rightarrow> if skip_ws rest = [] then Some v else None
      | None \<Rightarrow> None)"

section \<open>Decoding targets\<close>

text \<open>Decoding an object into a Go map keeps the last value of a repeated key.\<close>

definition last_wins :: "(string \<times> 'v) list \<Rightarrow> (string \<times> 'v) list" where
  "last_wins m = map (\<lambda>k. (k, the (map_of (rev m) k))) (remdups (map fst m))"

text \<open>
  \<open>encoding/json\<close> matches a struct field name without regard to case; the letter \<open>s\<close> also
  folds with U+017F.
\<close>

fun fold_name :: "string \<Rightarrow> string" where
  "fold_name [] = []"
| "fold_name (c # cs) =
     (case cs of
        d # ds \<Rightarrow> if c = CHR 0xC5 \<and> d = CHR 0xBF then CHR ''s'' # fold_name ds
                  else ascii_lower c # fold_name cs
      | [] \<Rightarrow> [ascii_lower c])"

text \<open>
  \<open>json.Unmarshal\<close> into a struct with the one field \<open>[]json.RawMessage\<close> of that name: the
  number of elements it ends up with, or \<open>None\<close> for an error.
\<close>

definition unmarshal_raw_list :: "string \<Rightarrow> string \<Rightarrow> nat option" where
  "unmarshal_raw_list name s =
     (case json_parse s of
        Some (JObj m) \<Rightarrow>
          (let vs = map snd (filter (\<lambda>(k, _). fold_name k = name) m) in
           if list_ex (\<lambda>v. case v of JArr _ \<Rightarrow> False | JNull \<Rightarrow> False | _ \<Rightarrow> True) vs then None
           else if vs = [] then Some 0
           else (case last vs of JArr xs \<Rightarrow> Some (length xs) | _ \<Rightarrow> Some 0))
      | Some JNull \<Rightarrow> Some 0
      | _ \<Rightarrow> None)"

section \<open>Enough fuel\<close>

lemma skip_ws_length: "length (skip_ws s) \<le> length s"
  by (simp add: skip_ws_def length_dropWhile_le)

lemma scan_str_length: "scan_str s = Some (a, r) \<Longrightarrow> length r < length s"
proof (induction s arbitrary: a r rule: length_induct)
  case (1 s)
  show ?case
  proof (cases s)
    case Nil
    with "1.prems" show ?thesis by simp
  next
    case (Cons c cs)
    have IH: "length t < length s \<Longrightarrow> scan_str t = Some (x, r) \<Longrightarrow> length r < length t" for t x
      using "1.IH" by blast
    show ?thesis
      using "1.prems" Cons IH [of cs] IH [of "tl cs"]
      by (fastforce split: if_splits list.splits)
  qed
qed

lemma json_string_length: "json_string s = Some (t, r) \<Longrightarrow> length r < length s"
  by (auto simp: json_string_def dest: scan_str_length split: option.splits)

lemma num_int_length: "num_int a = (ip, b) \<Longrightarrow> ip \<noteq> [] \<Longrightarrow> length b < length a"
proof (cases a)
  case (Cons x xs)
  assume "num_int a = (ip, b)" "ip \<noteq> []"
  with Cons show ?thesis
    by (auto simp: num_int_def less_Suc_eq_le length_dropWhile_le split: if_splits)
qed (auto simp: num_int_def HasPrefix_def)

lemma dropWhile_drop_length: "length (dropWhile P (drop k c)) \<le> length c"
  by (metis diff_le_self le_trans length_dropWhile_le length_drop)

lemma num_frac_length: "num_frac b = Some (fp, c) \<Longrightarrow> length c \<le> length b"
  using dropWhile_drop_length [of is_digit 1 b]
  by (auto simp: num_frac_def Let_def split: if_splits)

lemma num_exp_length: "num_exp c = Some (ep, r) \<Longrightarrow> length r \<le> length c"
  unfolding num_exp_def Let_def
  by (fastforce dest: arg_cong [of _ _ length] intro: dropWhile_drop_length split: if_split_asm)

lemma json_num_length:
  assumes "json_num s = Some (t, r)"
  shows "length r < length s"
proof -
  define sign :: string where "sign = (if HasPrefix s ''-'' then ''-'' else [])"
  obtain ip b where ib: "num_int (drop (length sign) s) = (ip, b)" by fastforce
  from assms ib obtain fp c ep where "ip \<noteq> []" "num_frac b = Some (fp, c)" "num_exp c = Some (ep, r)"
    unfolding json_num_def sign_def [symmetric] Let_def by (auto split: if_splits option.splits)
  with ib have "length r < length (drop (length sign) s)"
    using num_int_length num_frac_length num_exp_length by (meson le_less_trans)
  then show ?thesis by simp
qed

lemma skip_ws_Cons: "skip_ws s = c # cs \<Longrightarrow> length cs < length s"
  using skip_ws_length [of s] by simp

lemma json_rest_shorter:
  "(json_value f d s = Some (v, r) \<longrightarrow> length r < length s) \<and>
   (json_elems f d s = Some (vs, r) \<longrightarrow> length r < length s) \<and>
   (json_members f d s = Some (m, r) \<longrightarrow> length r < length s)"
proof (induction f arbitrary: d s v vs m r)
  case 0
  then show ?case by simp
next
  case (Suc f)
  have V: "json_value f d s = Some (v, r) \<Longrightarrow> length r < length s"
    and E: "json_elems f d s = Some (vs, r) \<Longrightarrow> length r < length s"
    and M: "json_members f d s = Some (m, r) \<Longrightarrow> length r < length s" for d s v vs m r
    using Suc.IH by blast+
  have "length r < length s" if "json_value (Suc f) d s = Some (v, r)"
  proof -
    from that obtain c cs where sk: "skip_ws s = c # cs" by (auto split: list.splits)
    have "length r < length (c # cs)"
      using that sk
      by (auto split: if_split_asm list.splits
          dest!: E M json_string_length json_num_length skip_ws_Cons)
    then show ?thesis using skip_ws_length [of s] sk by simp
  qed
  moreover have "length r < length s" if "json_elems (Suc f) d s = Some (vs, r)"
    using that by (fastforce split: option.splits list.splits if_split_asm dest: V E skip_ws_Cons)
  moreover have "length r < length s" if "json_members (Suc f) d s = Some (m, r)"
    using that
    by (fastforce split: option.splits list.splits if_split_asm
        dest: V M skip_ws_Cons json_string_length)
  ultimately show ?case by blast
qed

lemma json_value_shorter: "json_value f d s = Some (v, r) \<Longrightarrow> length r < length s"
  using json_rest_shorter by blast

lemma json_fuel_irrelevant:
  "(2 * length s < f \<and> 2 * length s < g \<longrightarrow> json_value f d s = json_value g d s) \<and>
   (2 * length s + 1 < f \<and> 2 * length s + 1 < g \<longrightarrow> json_elems f d s = json_elems g d s) \<and>
   (2 * length s + 1 < f \<and> 2 * length s + 1 < g \<longrightarrow> json_members f d s = json_members g d s)"
proof (induction f arbitrary: g d s)
  case 0
  then show ?case by simp
next
  case (Suc f)
  show ?case
  proof (cases g)
    case 0
    then show ?thesis by simp
  next
    case (Suc g')
    have V: "2 * length t < f \<Longrightarrow> 2 * length t < g' \<Longrightarrow> json_value f d t = json_value g' d t"
      and E: "2 * length t + 1 < f \<Longrightarrow> 2 * length t + 1 < g' \<Longrightarrow> json_elems f d t = json_elems g' d t"
      and M: "2 * length t + 1 < f \<Longrightarrow> 2 * length t + 1 < g' \<Longrightarrow> json_members f d t = json_members g' d t"
      for d t using Suc.IH by blast+
    have "json_value (Suc f) d s = json_value (Suc g') d s"
      if "2 * length s < Suc f" "2 * length s < Suc g'"
    proof (cases "skip_ws s")
      case (Cons c cs)
      then have "2 * length cs + 1 < f" "2 * length cs + 1 < g'"
        using skip_ws_Cons [OF Cons] that by linarith+
      with Cons show ?thesis by (auto simp: E M split: list.split)
    qed simp
    moreover have "json_elems (Suc f) d s = json_elems (Suc g') d s"
      if "2 * length s + 1 < Suc f" "2 * length s + 1 < Suc g'"
    proof -
      have v: "json_value f d s = json_value g' d s" using that by (intro V) linarith+
      have "json_elems f d cs = json_elems g' d cs"
        if "json_value f d s = Some (x, r)" "skip_ws r = c # cs" for x r c cs
        using json_value_shorter [of f d s x r] skip_ws_Cons [of r c cs] that
          \<open>2 * length s + 1 < Suc f\<close> \<open>2 * length s + 1 < Suc g'\<close>
        by (intro E) auto
      with v show ?thesis by (auto split: option.splits list.splits)
    qed
    moreover have "json_members (Suc f) d s = json_members (Suc g') d s"
      if "2 * length s + 1 < Suc f" "2 * length s + 1 < Suc g'"
    proof -
      have v: "json_value f d cs = json_value g' d cs"
        if "skip_ws s = q # qs" "json_string qs = Some (k, r)" "skip_ws r = c # cs" for q qs k r c cs
        using that skip_ws_Cons [of s q qs] json_string_length [of qs k r] skip_ws_Cons [of r c cs]
          \<open>2 * length s + 1 < Suc f\<close> \<open>2 * length s + 1 < Suc g'\<close>
        by (intro V) auto
      have "json_members f d es = json_members g' d es"
        if "skip_ws s = q # qs" "json_string qs = Some (k, r)" "skip_ws r = c # cs"
          "json_value f d cs = Some (x, t)" "skip_ws t = e # es" for q qs k r c cs x t e es
        using that skip_ws_Cons [of s q qs] json_string_length [of qs k r] skip_ws_Cons [of r c cs]
          json_value_shorter [of f d cs x t] skip_ws_Cons [of t e es]
          \<open>2 * length s + 1 < Suc f\<close> \<open>2 * length s + 1 < Suc g'\<close>
        by (intro M) auto
      with v show ?thesis by (fastforce split: option.splits list.splits)
    qed
    ultimately show ?thesis using Suc by blast
  qed
qed

lemma json_value_fuel: "2 * length s < f \<Longrightarrow> json_value f d s = json_value (2 * length s + 2) d s"
  using json_fuel_irrelevant [of s f "2 * length s + 2" d] by simp

end
