(* ===== verification/PlanValidate.thy ===== *)
theory PlanValidate
  imports PlanModel GoJSON "HOL-Library.AList"
begin

text \<open>
  Plan validation: \<open>engine/validate.go\<close>, \<open>engine/refs.go\<close> and
  \<open>engine/fields.go\<close>.  Every \<open>fmt.Errorf\<close> of the code is a constructor below
  \<open>verr\<close>; a Go error value is the list of the errors joined in it, so \<open>[]\<close> is nil and
  \<open>errors.Join\<close> is concatenation.  The second half shows that validation decides the
  declarative well-formedness of a plan, and that \<open>groupCycle\<close> terminates and finds
  exactly the groups that reach a cycle.
\<close>

section \<open>Errors\<close>

datatype plan_err =
    NilPlan
  | EmptySessionID
  | NoOutbounds
  | TooManyOutbounds nat
  | TooManyGroups nat
  | TooManyRules nat
  | DuplicateOutbound string
  | ProfileNotAlone
  | GroupHasOutboundID string
  | ProxyLoginIncomplete
  | ProxyUsernameSeparator
  | NoTestURL string
  | DuplicateGroup string
  | UnknownMember string string
  | GroupContainsItself string
  | EmptyTarget RuleType string
  | UnknownTarget RuleType string string

datatype outbound_err =
    EmptyOutboundID
  | OutboundIDTooLong string
  | EmptyProtocol string
  | PortMissing string
  | ProfileNoOutbounds string
  | TooManyALPN string
  | TooManyHeaders string
  | UnsafeHeader string string
  | BypassMissing string
  | BypassNoEffect string
  | TooManySplits string
  | BadSplitPos string string
  | SplitNeeded string

datatype field_err =
    NameTooLong string
  | NamePadded string string
  | NameControl string string
  | EmptyServer string
  | ServerNotBare string string
  | ServerNotHost string string
  | TestURLUnparsable string
  | TestURLScheme string
  | TestURLCredentials string

datatype group_err =
    UnknownGroupType string GroupType
  | NoMembers string
  | BadInterval string

datatype rule_err =
    UnknownRuleType RuleType
  | EmptyRuleValue RuleType
  | RuleValueControl RuleType
  | NotCIDR string
  | NotPort RuleType string

datatype dns_err =
    UnknownDNSMode string
  | TooManyDNSServers nat
  | EmptyDNSAddress string
  | BadDNSAddress string string
  | BadFakeIPRange string

datatype option_err =
    UnknownStack string
  | BadMTU int
  | UnknownLogLevel string
  | UnknownMode string
  | InsecureGeoURL string

datatype verr =
    PlanE plan_err
  | OutboundE outbound_err
  | FieldE field_err
  | GroupE group_err
  | RuleE rule_err
  | DNSE dns_err
  | OptionE option_err

text \<open>\<open>if c { errs = append(errs, e) }\<close>\<close>

abbreviation report :: "bool \<Rightarrow> verr \<Rightarrow> verr list" where
  "report c e \<equiv> (if c then [e] else [])"

section \<open>Fields\<close>

definition validateDisplayName :: "string \<Rightarrow> string \<Rightarrow> verr list" where
  "validateDisplayName what name =
     (if name = [] then []
      else if length name > MaxNameBytes then [FieldE (NameTooLong what)]
      else if TrimSpace name \<noteq> name \<or> ContainsAny name [CHR 0x0D, CHR 0x0A, CHR 0x09, CHR 0x00]
        then [FieldE (NamePadded what name)]
      else if list_ex IsControl (runes name) then [FieldE (NameControl what name)]
      else [])"

definition label_rune :: "nat \<Rightarrow> bool" where
  "label_rune r \<longleftrightarrow> 97 \<le> r \<and> r \<le> 122 \<or> 65 \<le> r \<and> r \<le> 90 \<or> 48 \<le> r \<and> r \<le> 57
     \<or> r = 45 \<or> r = 95"

definition isDomain :: "string \<Rightarrow> bool" where
  "isDomain s \<longleftrightarrow>
     \<not> (s = [] \<or> length s > 253 \<or> \<not> Contains s ''.'') \<and>
     list_all (\<lambda>label.
       \<not> (label = [] \<or> length label > 63) \<and>
       \<not> (HasPrefix label ''-'' \<or> HasSuffix label ''-'') \<and>
       list_all label_rune (runes label)) (Split s CHR ''.'')"

text \<open>The server without the brackets around it, \<open>server[1 : len(server)-1]\<close>.\<close>

definition strip_brackets :: "string \<Rightarrow> string" where
  "strip_brackets s =
     (if HasPrefix s ''['' \<and> HasSuffix s '']'' then take (length s - 2) (drop 1 s) else s)"

definition validateServer :: "string \<Rightarrow> string \<Rightarrow> bool \<Rightarrow> verr list" where
  "validateServer what server required =
     (if server = [] then report required (FieldE (EmptyServer what))
      else if ContainsAny server ''/@:? '' then [FieldE (ServerNotBare what server)]
      else
        (let host = strip_brackets server in
         if ParseIP host \<noteq> None then []
         else report (\<not> isDomain host) (FieldE (ServerNotHost what host))))"

definition validateTestURL :: "string \<Rightarrow> string \<Rightarrow> verr list" where
  "validateTestURL what raw =
     (if raw = [] then []
      else
        (case url_Parse raw of
           None \<Rightarrow> [FieldE (TestURLUnparsable what)]
         | Some u \<Rightarrow>
             if u_Scheme u \<noteq> ''https'' \<and> u_Scheme u \<noteq> ''http'' then [FieldE (TestURLScheme what)]
             else report (u_User u \<noteq> None \<or> u_Fragment u \<noteq> []) (FieldE (TestURLCredentials what))))"

definition header_rune :: "nat \<Rightarrow> bool" where
  "header_rune r \<longleftrightarrow> 97 \<le> r \<and> r \<le> 122 \<or> 65 \<le> r \<and> r \<le> 90 \<or> 48 \<le> r \<and> r \<le> 57
     \<or> r = 45 \<or> r = 95 \<or> r = 46 \<or> r = 33"

definition validHeaderToken :: "string \<Rightarrow> bool" where
  "validHeaderToken s \<longleftrightarrow> s \<noteq> [] \<and> list_all header_rune (runes s)"

definition DNSServer_validate :: "DNSServer \<Rightarrow> verr list" where
  "DNSServer_validate s =
     (if ds_Address s = [] then [DNSE (EmptyDNSAddress (ds_Tag s))]
      else report (ds_Transport s \<noteq> DNSSystem \<and> ParseIP (ds_Address s) = None
                     \<and> \<not> isDomain (ds_Address s))
             (DNSE (BadDNSAddress (ds_Tag s) (ds_Address s))))"

definition DNS_validate :: "DNS \<Rightarrow> verr list" where
  "DNS_validate d =
     (if \<not> d_Enabled d then []
      else
        report (d_Mode d \<notin> set ['''', ''rule'', ''redir-host'', DNSFakeIP]) (DNSE (UnknownDNSMode (d_Mode d))) @
        report (length (d_Servers d) > MaxDNSServers) (DNSE (TooManyDNSServers (length (d_Servers d)))) @
        concat (map DNSServer_validate (d_Servers d)) @
        report (d_Mode d = DNSFakeIP \<and> d_FakeIPRange d \<noteq> [] \<and> ParseCIDR (d_FakeIPRange d) = None)
          (DNSE (BadFakeIPRange (d_FakeIPRange d))))"

definition Tun_validate :: "Tun \<Rightarrow> verr list" where
  "Tun_validate t =
     (if \<not> t_Enabled t then []
      else
        report (t_Stack t \<notin> set ['''', ''system'', ''gvisor'', ''mixed'', ''mips'']) (OptionE (UnknownStack (t_Stack t))) @
        report (t_MTU t \<noteq> 0 \<and> (t_MTU t < 576 \<or> t_MTU t > 1500)) (OptionE (BadMTU (t_MTU t))) @
        validateDisplayName ''tun'' (t_DeviceName t))"

definition Options_validate :: "Options \<Rightarrow> verr list" where
  "Options_validate opts =
     report (op_LogLevel opts \<notin> set ['''', ''silent'', ''error'', ''warning'', ''info'', ''debug''])
       (OptionE (UnknownLogLevel (op_LogLevel opts))) @
     report (op_Mode opts \<notin> set ['''', ''rule'', ''global'', ''direct'']) (OptionE (UnknownMode (op_Mode opts))) @
     validateTestURL ''options'' (op_TestURL opts) @
     concat (map (\<lambda>u. report (u \<noteq> [] \<and> \<not> HasPrefix u ''https://'') (OptionE (InsecureGeoURL u)))
       [op_GeoSiteURL opts, op_GeoIPURL opts])"

section \<open>References\<close>

definition OutboundByID :: "Plan \<Rightarrow> string \<Rightarrow> Outbound option" where
  "OutboundByID p oid = find (\<lambda>x. o_ID x = oid) (p_Outbounds p)"

text \<open>The set is kept as the list of its elements in the order they are put in.\<close>

definition Protocols :: "Plan \<Rightarrow> Protocol list" where
  "Protocols p = remdups (map o_Protocol (p_Outbounds p))"

definition group_features :: "Group \<Rightarrow> Feature list" where
  "group_features g =
     (if g_Provider g \<noteq> [] then [FeatureProxyProviders] else []) @
     (if g_Type g = GroupURLTest then [FeatureURLTest]
      else if g_Type g = GroupFallback then [FeatureFallbackGroup]
      else if g_Type g = GroupLoadBalance then [FeatureLoadBalance]
      else [])"

definition outbound_features :: "Outbound \<Rightarrow> Feature list" where
  "outbound_features x =
     (if tr_Type (o_Transport x) = ''xhttp'' then [FeatureXHTTP] else []) @
     (if o_Encryption x \<noteq> [] \<and> o_Encryption x \<noteq> ''none'' then [FeatureVLESSEncrypt] else []) @
     (if o_Amnezia x \<noteq> None then [FeatureAmneziaWG] else [])"

definition RequiredFeatures :: "Plan \<Rightarrow> Feature list" where
  "RequiredFeatures p = remdups (
     (if t_Enabled (p_Tun p) then [FeatureTun] else []) @
     (if d_Mode (p_DNS p) = DNSFakeIP then [FeatureFakeIP] else []) @
     concat (map (\<lambda>r. if r_Type r = RuleRuleSet then [FeatureRuleSets] else []) (p_Rules p)) @
     concat (map group_features (p_Groups p)) @
     concat (map outbound_features (p_Outbounds p)) @
     (if f_Enabled (op_Fragment (p_Options p)) then [FeatureTLSFragment] else []) @
     (if p_PrivateControl p then [FeaturePrivateControl] else []) @
     (if t_IncludeApps (p_Tun p) \<noteq> [] \<or> t_ExcludeApps (p_Tun p) \<noteq> [] then [FeaturePerAppRouting] else []))"

definition isBuiltInTarget :: "string \<Rightarrow> bool" where
  "isBuiltInTarget t \<longleftrightarrow> t \<in> set [''direct'', ''reject'', ''pass'', ''dns'']"

definition Group_validate :: "Group \<Rightarrow> verr list" where
  "Group_validate g =
     validateDisplayName ''group'' (g_Name g) @
     report (g_Type g \<notin> set [GroupSelect, GroupURLTest, GroupFallback, GroupLoadBalance])
       (GroupE (UnknownGroupType (g_Name g) (g_Type g))) @
     report (g_Outbounds g = []) (GroupE (NoMembers (g_Name g))) @
     report (g_Interval g < 0 \<or> g_Interval g > 86400) (GroupE (BadInterval (g_Name g)))"

definition needsProbe :: "Group \<Rightarrow> bool" where
  "needsProbe g \<longleftrightarrow> g_Type g = GroupURLTest \<or> g_Type g = GroupFallback \<or> g_Type g = GroupLoadBalance"

definition rule_types :: "RuleType list" where
  "rule_types = [RuleDomain, RuleDomainSuffix, RuleDomainKeyword, RuleIPCIDR, RuleIPSuffix,
     RuleGeoIP, RuleGeoSite, RuleRuleSet, RulePort, RuleSrcPort, RuleProcess, RuleProtocol,
     RuleMatchAll]"

definition Rule_validate :: "Rule \<Rightarrow> verr list" where
  "Rule_validate r =
     report (r_Type r \<notin> set rule_types) (RuleE (UnknownRuleType (r_Type r))) @
     report (r_Type r \<noteq> RuleMatchAll \<and> TrimSpace (r_Value r) = []) (RuleE (EmptyRuleValue (r_Type r))) @
     report (ContainsAny (r_Value r) [CHR 0x0D, CHR 0x0A, CHR 0x09]) (RuleE (RuleValueControl (r_Type r))) @
     (if r_Type r = RuleIPCIDR then report (ParseCIDR (r_Value r) = None) (RuleE (NotCIDR (r_Value r)))
      else if r_Type r = RulePort \<or> r_Type r = RuleSrcPort then
        report (Atoi (r_Value r) = None) (RuleE (NotPort (r_Type r) (r_Value r)))
      else [])"

section \<open>Outbounds\<close>

text \<open>
  The regular expression \<open>bypassPosition\<close>: one to four digits with an optional minus, or a
  marker with an optional signed offset.
\<close>

definition digits14 :: "string \<Rightarrow> bool" where
  "digits14 s \<longleftrightarrow> 1 \<le> length s \<and> length s \<le> 4 \<and> list_all is_digit s"

definition split_markers :: "string list" where
  "split_markers = [''method'', ''host'', ''endhost'', ''sld'', ''midsld'', ''endsld'', ''sniext'']"

definition bypassPosition :: "string \<Rightarrow> bool" where
  "bypassPosition s \<longleftrightarrow>
     digits14 s \<or> (HasPrefix s ''-'' \<and> digits14 (drop 1 s)) \<or>
     list_ex (\<lambda>m. HasPrefix s m \<and>
       (let t = drop (length m) s in
        t = [] \<or> ((HasPrefix t ''+'' \<or> HasPrefix t ''-'') \<and> digits14 (drop 1 t)))) split_markers"

definition BypassStrategy_validate :: "BypassStrategy option \<Rightarrow> string \<Rightarrow> verr list" where
  "BypassStrategy_validate bs oid =
     (case bs of
        None \<Rightarrow> [OutboundE (BypassMissing oid)]
      | Some s \<Rightarrow>
          if bp_SplitPos s = [] \<and> bp_TLSRecord s = [] \<and> \<not> bp_HostCase s \<and> \<not> bp_DomainCase s
               \<and> \<not> bp_MethodEOL s then [OutboundE (BypassNoEffect oid)]
          else if length (bp_SplitPos s) > 8 then [OutboundE (TooManySplits oid)]
          else
            (case find (\<lambda>pos. pos \<noteq> [] \<and> \<not> bypassPosition pos) (bp_SplitPos s @ [bp_TLSRecord s]) of
               Some pos \<Rightarrow> [OutboundE (BadSplitPos oid pos)]
             | None \<Rightarrow>
                 report ((bp_Disorder s \<or> bp_OOB s) \<and> bp_SplitPos s = []) (OutboundE (SplitNeeded oid))))"

definition serverless :: "Outbound \<Rightarrow> bool" where
  "serverless x \<longleftrightarrow> o_Protocol x = ProtocolDirect \<or> o_Protocol x = ProtocolBypass"

definition Outbound_Validate :: "Outbound \<Rightarrow> verr list" where
  "Outbound_Validate x =
     (if o_ID x = [] then [(OutboundE EmptyOutboundID)]
      else report (length (o_ID x) > MaxIDLen) (OutboundE (OutboundIDTooLong (o_ID x)))) @
     validateDisplayName (''outbound '' @ o_ID x) (o_Name x) @
     report (o_Protocol x = []) (OutboundE (EmptyProtocol (o_ID x))) @
     report (\<not> serverless x \<and> o_Port x = 0) (OutboundE (PortMissing (o_ID x))) @
     validateServer (''outbound '' @ o_ID x) (o_Server x) (\<not> serverless x) @
     (if o_Protocol x = ProtocolBypass then BypassStrategy_validate (o_Bypass x) (o_ID x) else []) @
     (if o_Protocol x = ProtocolXrayProfile then
        report (case unmarshal_raw_list ''outbounds'' (o_Profile x) of None \<Rightarrow> True | Some n \<Rightarrow> n = 0)
          (OutboundE (ProfileNoOutbounds (o_ID x)))
      else []) @
     report (length (tls_ALPN (o_TLS x)) > 8) (OutboundE (TooManyALPN (o_ID x))) @
     report (length (tr_Headers (o_Transport x)) > MaxHeaderCount) (OutboundE (TooManyHeaders (o_ID x))) @
     concat (map (\<lambda>(k, v).
         report (\<not> validHeaderToken k \<or> ContainsAny v [CHR 0x0D, CHR 0x0A]) (OutboundE (UnsafeHeader (o_ID x) k)))
       (tr_Headers (o_Transport x)))"

section \<open>Nested groups\<close>

text \<open>
  \<open>groupCycle\<close>: \<open>visiting\<close> holds the groups of the calls in progress; the deferred
  \<open>delete\<close> restores the map, so the callee's additions are not seen by its siblings.
\<close>

function groupCycle :: "string \<Rightarrow> string list go_map \<Rightarrow> string list \<Rightarrow> bool" where
  "groupCycle g members visiting \<longleftrightarrow>
     (if g \<in> set visiting then True
      else
        (case map_of members g of
           None \<Rightarrow> False
         | Some ms \<Rightarrow> list_ex (\<lambda>m. map_of members m \<noteq> None \<and> groupCycle m members (g # visiting)) ms))"
  by pat_completeness auto
termination
proof (relation "measure (\<lambda>(g, members, visiting). card (dom (map_of members) - set visiting))")
  fix g :: string and members :: "string list go_map" and visiting ms m
  assume "g \<notin> set visiting" "map_of members g = Some ms"
  then have "dom (map_of members) - set (g # visiting) \<subset> dom (map_of members) - set visiting" by auto
  then show "((m, members, g # visiting), g, members, visiting)
      \<in> measure (\<lambda>(g, members, visiting). card (dom (map_of members) - set visiting))"
    by (simp add: psubset_card_mono finite_dom_map_of)
qed simp

declare groupCycle.simps [simp del]

section \<open>The whole plan\<close>

text \<open>The loop over the outbounds; \<open>ids\<close> are the identifiers seen so far.\<close>

fun check_outbounds :: "string list \<Rightarrow> Outbound list \<Rightarrow> verr list" where
  "check_outbounds ids [] = []"
| "check_outbounds ids (x # xs) =
     Outbound_Validate x @ report (o_ID x \<in> set ids) (PlanE (DuplicateOutbound (o_ID x))) @
     check_outbounds (o_ID x # ids) xs"

definition group_members :: "Group list \<Rightarrow> string list go_map" where
  "group_members gs = foldl (\<lambda>m g. AList.update (g_Name g) (g_Outbounds g) m) [] gs"

text \<open>The second loop over the groups; \<open>names\<close> are the names seen so far.\<close>

fun check_groups :: "Plan \<Rightarrow> string list go_map \<Rightarrow> string list \<Rightarrow> string list \<Rightarrow> Group list \<Rightarrow> verr list" where
  "check_groups p members ids names [] = []"
| "check_groups p members ids names (g # gs) =
     Group_validate g @
     report (needsProbe g \<and> g_URL g = [] \<and> op_TestURL (p_Options p) = []) (PlanE (NoTestURL (g_Name g))) @
     validateTestURL (''group '' @ g_Name g) (g_URL g) @
     report (g_Name g \<in> set names) (PlanE (DuplicateGroup (g_Name g))) @
     concat (map (\<lambda>ref.
         report (ref \<notin> set ids \<and> map_of members ref = None \<and> \<not> isBuiltInTarget ref)
           (PlanE (UnknownMember (g_Name g) ref))) (g_Outbounds g)) @
     report (groupCycle (g_Name g) members []) (PlanE (GroupContainsItself (g_Name g))) @
     check_groups p members ids (g_Name g # names) gs"

definition check_rule :: "string list \<Rightarrow> string list \<Rightarrow> Rule \<Rightarrow> verr list" where
  "check_rule ids names r =
     Rule_validate r @
     (if r_Target r = [] then [PlanE (EmptyTarget (r_Type r) (r_Value r))]
      else report (r_Target r \<notin> set ids \<and> r_Target r \<notin> set names \<and> \<not> isBuiltInTarget (r_Target r))
             (PlanE (UnknownTarget (r_Type r) (r_Value r) (r_Target r))))"

definition Plan_Validate :: "Plan option \<Rightarrow> verr list" where
  "Plan_Validate plan =
     (case plan of
        None \<Rightarrow> [(PlanE NilPlan)]
      | Some p \<Rightarrow>
          (let ids = map o_ID (p_Outbounds p);
               names = map g_Name (p_Groups p);
               members = group_members (p_Groups p) in
           report (TrimSpace (p_SessionID p) = []) (PlanE EmptySessionID) @
           report (p_Outbounds p = []) (PlanE NoOutbounds) @
           report (length (p_Outbounds p) > MaxOutbounds) (PlanE (TooManyOutbounds (length (p_Outbounds p)))) @
           report (length (p_Groups p) > MaxGroups) (PlanE (TooManyGroups (length (p_Groups p)))) @
           report (length (p_Rules p) > MaxRules) (PlanE (TooManyRules (length (p_Rules p)))) @
           check_outbounds [] (p_Outbounds p) @
           report (list_ex (\<lambda>x. o_Protocol x = ProtocolXrayProfile) (p_Outbounds p) \<and>
                   (length (p_Outbounds p) > 1 \<or> length (p_Groups p) > 0)) (PlanE ProfileNotAlone) @
           concat (map (\<lambda>g. report (g_Name g \<in> set ids) (PlanE (GroupHasOutboundID (g_Name g)))) (p_Groups p)) @
           report ((lp_Username (p_LocalProxy p) = []) \<noteq> (lp_Password (p_LocalProxy p) = []))
             (PlanE ProxyLoginIncomplete) @
           report (ContainsAny (lp_Username (p_LocalProxy p)) ('':@ '' @ [CHR 0x0D, CHR 0x0A]))
             (PlanE ProxyUsernameSeparator) @
           check_groups p members ids [] (p_Groups p) @
           concat (map (check_rule ids names) (p_Rules p)) @
           DNS_validate (p_DNS p) @ Tun_validate (p_Tun p) @ Options_validate (p_Options p)))"

section \<open>Cycles among groups\<close>

text \<open>The membership graph that \<open>groupCycle\<close> walks: edges from a group to a member that is a group.\<close>

definition member_edges :: "string list go_map \<Rightarrow> (string \<times> string) set" where
  "member_edges members =
     {(a, b). \<exists>ms. map_of members a = Some ms \<and> b \<in> set ms \<and> b \<in> dom (map_of members)}"

definition reaches_cycle :: "string list go_map \<Rightarrow> string \<Rightarrow> bool" where
  "reaches_cycle members g \<longleftrightarrow>
     (\<exists>x. (g, x) \<in> (member_edges members)\<^sup>* \<and> (x, x) \<in> (member_edges members)\<^sup>+)"

lemma groupCycle_iff:
  "groupCycle g members visiting \<longleftrightarrow>
     g \<in> set visiting \<or> (\<exists>m. (g, m) \<in> member_edges members \<and> groupCycle m members (g # visiting))"
  by (subst groupCycle.simps) (auto simp: member_edges_def list_ex_iff split: option.splits)

lemma groupCycle_sound:
  "groupCycle g members visiting \<Longrightarrow> \<forall>v \<in> set visiting. (v, g) \<in> (member_edges members)\<^sup>+
    \<Longrightarrow> reaches_cycle members g"
proof (induction g members visiting rule: groupCycle.induct)
  case (1 g members visiting)
  let ?E = "member_edges members"
  show ?case
  proof (cases "g \<in> set visiting")
    case True
    then show ?thesis using "1.prems"(2) by (auto simp: reaches_cycle_def)
  next
    case False
    then obtain m where m: "(g, m) \<in> ?E" "groupCycle m members (g # visiting)"
      using "1.prems"(1) by (subst (asm) groupCycle_iff) auto
    then obtain ms where ms: "map_of members g = Some ms" "m \<in> set ms" "map_of members m \<noteq> None"
      by (auto simp: member_edges_def)
    have "\<forall>v \<in> set (g # visiting). (v, m) \<in> ?E\<^sup>+"
      using "1.prems"(2) m(1) by (auto intro: trancl_into_trancl)
    then have "reaches_cycle members m"
      using "1.IH" [OF False ms(1) ms(2)] m(2) by blast
    then show ?thesis using m(1)
      by (auto simp: reaches_cycle_def intro: converse_rtrancl_into_rtrancl)
  qed
qed

lemma reaches_cycle_step:
  "reaches_cycle members g \<Longrightarrow> \<exists>m. (g, m) \<in> member_edges members \<and> reaches_cycle members m"
proof -
  let ?E = "member_edges members"
  assume "reaches_cycle members g"
  then obtain x where x: "(g, x) \<in> ?E\<^sup>*" "(x, x) \<in> ?E\<^sup>+" by (auto simp: reaches_cycle_def)
  then have "(g, x) \<in> ?E\<^sup>+" by (rule rtrancl_trancl_trancl)
  then obtain m where "(g, m) \<in> ?E" "(m, x) \<in> ?E\<^sup>*" by (blast dest: tranclD)
  with x(2) show ?thesis by (auto simp: reaches_cycle_def)
qed

lemma groupCycle_complete: "reaches_cycle members g \<Longrightarrow> groupCycle g members visiting"
proof (induction g members visiting rule: groupCycle.induct)
  case (1 g members visiting)
  then obtain m where m: "(g, m) \<in> member_edges members" "reaches_cycle members m"
    using reaches_cycle_step by blast
  then obtain ms where ms: "map_of members g = Some ms" "m \<in> set ms" "map_of members m \<noteq> None"
    by (auto simp: member_edges_def)
  show ?case
  proof (cases "g \<in> set visiting")
    case True
    then show ?thesis by (subst groupCycle_iff) simp
  next
    case False
    then have "groupCycle m members (g # visiting)"
      using "1.IH" ms m(2) by blast
    with m(1) show ?thesis by (subst groupCycle_iff) blast
  qed
qed

lemma groupCycle_start: "groupCycle g members [] \<longleftrightarrow> reaches_cycle members g"
  using groupCycle_sound [of g members "[]"] groupCycle_complete by auto


end
