(* ===== verification/PlanSpec.thy ===== *)
theory PlanSpec
  imports PlanValidate
begin

text \<open>
  What \<open>Plan.Validate\<close> promises, stated without its loops and error lists: the declarative
  predicates \<open>plan_ok\<close>, \<open>outbound_ok\<close> and so on, and the refinement lemmas that the
  executable validation of \<open>PlanValidate\<close> decides them.
\<close>

section \<open>Runes of ASCII text\<close>

lemma DecodeRune_ascii: "byte c < 128 \<Longrightarrow> DecodeRune (c # cs) = (byte c, 1)"
  by (simp add: Let_def)

lemma DecodeRune_non_ascii:
  assumes "\<not> byte c < 128"
  shows "128 \<le> fst (DecodeRune (c # cs))"
proof -
  define b :: nat where "b = byte c"
  have e: "128 \<le> rune_error" by (simp add: rune_error_def)
  consider "194 \<le> b \<and> b \<le> 223" | "224 \<le> b \<and> b \<le> 239" | "240 \<le> b \<and> b \<le> 244"
    | "b < 194 \<or> 244 < b" by linarith
  then show ?thesis
  proof cases
    case 1
    then have "128 \<le> (b - 192) * 64" by auto
    with 1 assms e show ?thesis
      by (auto simp: Let_def trans_le_add1 simp flip: b_def split: list.split)
  next
    case 2
    then have "128 \<le> (b - 224) * 4096 + (x - 128) * 64" if "b = 224 \<longrightarrow> 160 \<le> x" for x
      using that by (cases "b = 224") auto
    with 2 assms e show ?thesis
      by (auto simp: Let_def trans_le_add1 simp flip: b_def split: list.split)
  next
    case 3
    then have "128 \<le> (b - 240) * 262144 + (x - 128) * 4096" if "b = 240 \<longrightarrow> 144 \<le> x" for x
      using that by (cases "b = 240") auto
    with 3 assms e show ?thesis
      by (auto simp: Let_def trans_le_add1 simp flip: b_def split: list.split)
  next
    case 4
    with assms e show ?thesis by (auto simp: Let_def simp flip: b_def)
  qed
qed

lemma DecodeRune_continuation: "list_all is_cont (take (snd (DecodeRune (c # cs)) - 1) cs)"
proof -
  define b :: nat where "b = byte c"
  consider "194 \<le> b \<and> b \<le> 223" | "224 \<le> b \<and> b \<le> 239" | "240 \<le> b \<and> b \<le> 244"
    | "b < 194 \<or> 244 < b" by linarith
  then show ?thesis
    by cases (simp_all add: Let_def flip: b_def split: list.split)
qed

lemma runes_ascii_iff:
  assumes "\<And>r. P r \<Longrightarrow> r < 128"
  shows "list_all P (runes s) \<longleftrightarrow> list_all (\<lambda>c. P (byte c)) s"
proof (induction s rule: runes.induct)
  case (1 s)
  show ?case
  proof (cases s)
    case (Cons c cs)
    show ?thesis
    proof (cases "byte c < 128")
      case True
      then have "list_all P (runes cs) \<longleftrightarrow> list_all (\<lambda>c. P (byte c)) cs"
        using 1 Cons DecodeRune_ascii [OF True, of cs] by simp
      then show ?thesis using Cons True by (simp add: runes_Cons DecodeRune_ascii del: DecodeRune.simps)
    next
      case False
      then have "\<not> P (fst (DecodeRune (c # cs)))" "\<not> P (byte c)"
        using assms DecodeRune_non_ascii [OF False, of cs] by fastforce+
      then show ?thesis using Cons by (simp add: runes_Cons del: DecodeRune.simps)
    qed
  qed simp
qed

text \<open>An ASCII byte is never swallowed by a multi-byte sequence.\<close>

lemma ascii_byte_is_rune: "c \<in> set s \<Longrightarrow> byte c < 128 \<Longrightarrow> byte c \<in> set (runes s)"
proof (induction s rule: runes.induct)
  case (1 s)
  then obtain d ds where s: "s = d # ds" by (cases s) auto
  let ?w = "snd (DecodeRune s)"
  have w: "0 < ?w" using DecodeRune_width_pos s by blast
  show ?case
  proof (cases "c \<in> set (drop ?w s)")
    case True
    then have "byte c \<in> set (runes (drop ?w s))" using 1 s by blast
    then show ?thesis by (simp add: s runes_Cons del: DecodeRune.simps)
  next
    case False
    then have "c \<in> set (take ?w s)"
      using "1.prems"(1) by (metis append_take_drop_id Un_iff set_append)
    then have "c = d \<or> c \<in> set (take (?w - 1) ds)"
      using w by (simp add: s take_Cons' split: if_splits)
    then have "c = d" using DecodeRune_continuation [of d ds] "1.prems"(2) s
      by (auto simp: list_all_iff is_cont_def simp del: DecodeRune.simps)
    then show ?thesis
      using "1.prems"(2) by (simp add: s runes_Cons DecodeRune_ascii del: DecodeRune.simps)
  qed
qed

section \<open>Host names\<close>

definition label_char :: "char \<Rightarrow> bool" where
  "label_char c \<longleftrightarrow> is_lower c \<or> is_upper c \<or> is_digit c \<or> c = CHR ''-'' \<or> c = CHR ''_''"

definition label_ok :: "string \<Rightarrow> bool" where
  "label_ok l \<longleftrightarrow> l \<noteq> [] \<and> length l \<le> 63 \<and> list_all label_char l \<and> hd l \<noteq> CHR ''-'' \<and> last l \<noteq> CHR ''-''"

lemma byte_dash: "byte c = (45 :: nat) \<longleftrightarrow> c = CHR 0x2D"
  using of_char_eq_iff [of c "CHR 0x2D", where ?'a = nat] by (simp add: of_char_Char)

lemma byte_underscore: "byte c = (95 :: nat) \<longleftrightarrow> c = CHR 0x5F"
  using of_char_eq_iff [of c "CHR 0x5F", where ?'a = nat] by (simp add: of_char_Char)

lemma label_rune_byte: "label_rune (byte c) \<longleftrightarrow> label_char c"
  by (auto simp: label_rune_def label_char_def is_lower_def is_upper_def is_digit_def
      byte_dash byte_underscore)

lemma label_rune_ascii: "label_rune r \<Longrightarrow> r < 128"
  by (auto simp: label_rune_def)

lemma label_runes: "list_all label_rune (runes l) \<longleftrightarrow> list_all label_char l"
  using runes_ascii_iff [of label_rune l, OF label_rune_ascii] by (simp add: label_rune_byte)

lemma HasPrefix_single: "HasPrefix s [c] \<longleftrightarrow> s \<noteq> [] \<and> hd s = c"
  by (cases s) (auto simp: HasPrefix_def)

lemma HasSuffix_single: "HasSuffix s [c] \<longleftrightarrow> s \<noteq> [] \<and> last s = c"
  by (cases s rule: rev_cases) (auto simp: HasSuffix_def)

lemma Contains_single: "Contains s [c] \<longleftrightarrow> c \<in> set s"
  by (auto simp: Contains_iff in_set_conv_decomp)

lemma length_Split: "length (Split s sep) = Suc (length (filter (\<lambda>c. c = sep) s))"
  by (induction s) (auto split: list.splits)

lemma label_ok_no_dot: "label_ok l \<Longrightarrow> CHR ''.'' \<notin> set l"
  by (auto simp: label_ok_def list_all_iff label_char_def is_lower_def is_upper_def is_digit_def)

lemma isDomain_Split:
  "isDomain s \<longleftrightarrow> length s \<le> 253 \<and> CHR ''.'' \<in> set s \<and> list_all label_ok (Split s CHR ''.'')"
proof -
  have "(\<not> (l = [] \<or> length l > 63) \<and> \<not> (HasPrefix l ''-'' \<or> HasSuffix l ''-'') \<and>
      list_all label_rune (runes l)) = label_ok l" for l
    by (auto simp: label_ok_def HasPrefix_single HasSuffix_single label_runes)
  then have "isDomain s \<longleftrightarrow> \<not> (s = [] \<or> length s > 253 \<or> CHR ''.'' \<notin> set s) \<and> list_all label_ok (Split s CHR ''.'')"
    by (simp only: isDomain_def Contains_single)
  then show ?thesis by auto
qed

text \<open>
  \<open>isDomain\<close> accepts exactly the texts of at most 253 bytes that are two or more labels
  joined by dots, where a label is 1 to 63 letters, digits, hyphens or underscores that neither
  starts nor ends with a hyphen.
\<close>

theorem isDomain_iff_labels:
  "isDomain s \<longleftrightarrow>
     length s \<le> 253 \<and> (\<exists>labels. 2 \<le> length labels \<and> list_all label_ok labels \<and> s = Join labels ''.'')"
proof
  assume d: "isDomain s"
  then have "filter (\<lambda>c. c = CHR ''.'') s \<noteq> []" by (auto simp: isDomain_Split filter_empty_conv)
  then have "2 \<le> length (Split s CHR ''.'')" by (cases "filter (\<lambda>c. c = CHR ''.'') s") (auto simp: length_Split)
  with d show "length s \<le> 253 \<and> (\<exists>labels. 2 \<le> length labels \<and> list_all label_ok labels \<and> s = Join labels ''.'')"
    by (intro conjI exI [of _ "Split s CHR ''.''"]) (auto simp: isDomain_Split)
next
  assume "length s \<le> 253 \<and> (\<exists>labels. 2 \<le> length labels \<and> list_all label_ok labels \<and> s = Join labels ''.'')"
  then obtain labels where l: "length s \<le> 253" "2 \<le> length labels" "list_all label_ok labels" "s = Join labels ''.''"
    by blast
  have sp: "Split s CHR ''.'' = labels"
    using l(2,3) unfolding l(4) by (intro Split_Join) (auto simp: list_all_iff dest: label_ok_no_dot)
  then have "filter (\<lambda>c. c = CHR ''.'') s \<noteq> []" using l(2) length_Split [of s "CHR ''.''"] by auto
  then show "isDomain s" using l sp by (auto simp: isDomain_Split filter_empty_conv)
qed

section \<open>The parts of a plan\<close>

definition name_ok :: "string \<Rightarrow> bool" where
  "name_ok n \<longleftrightarrow> length n \<le> MaxNameBytes \<and> TrimSpace n = n \<and> (\<forall>r \<in> set (runes n). \<not> IsControl r)"

definition server_ok :: "string \<Rightarrow> bool" where
  "server_ok s \<longleftrightarrow> (\<forall>c \<in> set ''/@:? ''. c \<notin> set s) \<and>
     (ParseIP (strip_brackets s) \<noteq> None \<or> isDomain (strip_brackets s))"

definition test_url_ok :: "string \<Rightarrow> bool" where
  "test_url_ok s \<longleftrightarrow>
     (\<exists>u. url_Parse s = Some u \<and> u_Scheme u \<in> {''https'', ''http''} \<and> u_User u = None \<and> u_Fragment u = [])"

definition bypass_ok :: "BypassStrategy \<Rightarrow> bool" where
  "bypass_ok s \<longleftrightarrow>
     (bp_SplitPos s \<noteq> [] \<or> bp_TLSRecord s \<noteq> [] \<or> bp_HostCase s \<or> bp_DomainCase s \<or> bp_MethodEOL s) \<and>
     length (bp_SplitPos s) \<le> 8 \<and>
     (\<forall>pos \<in> insert (bp_TLSRecord s) (set (bp_SplitPos s)). pos = [] \<or> bypassPosition pos) \<and>
     (bp_Disorder s \<or> bp_OOB s \<longrightarrow> bp_SplitPos s \<noteq> [])"

definition outbound_ok :: "Outbound \<Rightarrow> bool" where
  "outbound_ok x \<longleftrightarrow>
     o_ID x \<noteq> [] \<and> length (o_ID x) \<le> MaxIDLen \<and> name_ok (o_Name x) \<and> o_Protocol x \<noteq> [] \<and>
     (if serverless x then o_Server x = [] \<or> server_ok (o_Server x)
      else o_Port x \<noteq> 0 \<and> server_ok (o_Server x)) \<and>
     (o_Protocol x = ProtocolBypass \<longrightarrow> (\<exists>s. o_Bypass x = Some s \<and> bypass_ok s)) \<and>
     (o_Protocol x = ProtocolXrayProfile \<longrightarrow> (\<exists>n > 0. unmarshal_raw_list ''outbounds'' (o_Profile x) = Some n)) \<and>
     length (tls_ALPN (o_TLS x)) \<le> 8 \<and> length (tr_Headers (o_Transport x)) \<le> MaxHeaderCount \<and>
     (\<forall>(k, v) \<in> set (tr_Headers (o_Transport x)).
        validHeaderToken k \<and> CHR 0x0D \<notin> set v \<and> CHR 0x0A \<notin> set v)"

lemma name_ok_Nil: "name_ok []"
  unfolding name_ok_def by code_simp

lemma IsControl_separators: "c \<in> {CHR 0x0D, CHR 0x0A, CHR 0x09, CHR 0x00} \<Longrightarrow> byte c < 128 \<and> IsControl (byte c)"
  by (auto simp: IsControl_def)

lemma validateDisplayName_ok: "validateDisplayName what n = [] \<longleftrightarrow> name_ok n"
proof (cases "n = []")
  case False
  have "ContainsAny n [CHR 0x0D, CHR 0x0A, CHR 0x09, CHR 0x00] \<Longrightarrow> list_ex IsControl (runes n)"
    using ascii_byte_is_rune IsControl_separators
    by (fastforce simp: ContainsAny_iff list_ex_iff)
  with False show ?thesis
    by (auto simp: validateDisplayName_def name_ok_def list_ex_iff)
qed (auto simp: validateDisplayName_def name_ok_Nil)

lemma server_ok_Nil: "\<not> server_ok []"
proof -
  have "ParseIP (strip_brackets []) = None \<and> \<not> isDomain (strip_brackets [])" by code_simp
  then show ?thesis by (simp add: server_ok_def)
qed

lemma validateServer_ok:
  "validateServer what s required = [] \<longleftrightarrow> (s = [] \<and> \<not> required) \<or> server_ok s"
proof (cases "s = []")
  case True
  then show ?thesis by (simp add: validateServer_def server_ok_Nil)
next
  case False
  have "ContainsAny s ''/@:? '' \<longleftrightarrow> \<not> (\<forall>c \<in> set ''/@:? ''. c \<notin> set s)"
    unfolding ContainsAny_iff by blast
  with False show ?thesis
    by (simp only: validateServer_def server_ok_def Let_def if_False) simp
qed

lemma validateTestURL_ok: "validateTestURL what s = [] \<longleftrightarrow> s = [] \<or> test_url_ok s"
  by (auto simp: validateTestURL_def test_url_ok_def simp del: not_None_eq split: option.splits)

lemma BypassStrategy_validate_ok:
  "BypassStrategy_validate bs oid = [] \<longleftrightarrow> (\<exists>s. bs = Some s \<and> bypass_ok s)"
  by (cases bs) (auto simp: BypassStrategy_validate_def bypass_ok_def find_None_iff_all
      dest!: find_SomeD split: option.splits)

lemma report_Nil: "report c e = [] \<longleftrightarrow> \<not> c"
  by simp

lemma if_Nil: "(if c then es else []) = [] \<longleftrightarrow> (c \<longrightarrow> es = [])"
  by simp

lemmas errs_Nil = append_is_Nil_conv if_Nil report_Nil not_less de_Morgan_conj not_not

lemma headers_ok:
  "concat (map (\<lambda>(k, v). report (\<not> validHeaderToken k \<or> ContainsAny v [CHR 0x0D, CHR 0x0A]) (e k)) hs) = []
    \<longleftrightarrow> (\<forall>(k, v) \<in> set hs. validHeaderToken k \<and> CHR 0x0D \<notin> set v \<and> CHR 0x0A \<notin> set v)"
  by (induction hs) (auto simp: ContainsAny_iff split: if_splits)

lemma server_port_ok:
  "(\<not> (\<not> sl \<and> port = 0) \<and> ((s = [] \<and> \<not> \<not> sl) \<or> server_ok s)) \<longleftrightarrow>
   (if sl then s = [] \<or> server_ok s else port \<noteq> 0 \<and> server_ok s)"
  by auto

lemma profile_ok:
  "\<not> (case r of None \<Rightarrow> True | Some n \<Rightarrow> n = 0) \<longleftrightarrow> (\<exists>n > (0 :: nat). r = Some n)"
  by (cases r) auto

lemma Outbound_Validate_ok: "Outbound_Validate x = [] \<longleftrightarrow> outbound_ok x"
proof -
  have i: "(if o_ID x = [] then [OutboundE EmptyOutboundID]
         else report (length (o_ID x) > MaxIDLen) (OutboundE (OutboundIDTooLong (o_ID x)))) = []
        \<longleftrightarrow> o_ID x \<noteq> [] \<and> length (o_ID x) \<le> MaxIDLen" by auto
  show ?thesis
    unfolding Outbound_Validate_def outbound_ok_def append_is_Nil_conv i
      server_port_ok [of "serverless x" "o_Port x" "o_Server x", symmetric]
    by (simp only: if_Nil headers_ok validateDisplayName_ok validateServer_ok
        BypassStrategy_validate_ok profile_ok not_less list.distinct conj_assoc refl if_cancel)
      (simp add: profile_ok not_less)
qed

section \<open>The whole plan\<close>

definition dns_ok :: "DNS \<Rightarrow> bool" where
  "dns_ok d \<longleftrightarrow> (d_Enabled d \<longrightarrow>
     d_Mode d \<in> {'''', ''rule'', ''redir-host'', DNSFakeIP} \<and> length (d_Servers d) \<le> MaxDNSServers \<and>
     (\<forall>s \<in> set (d_Servers d). ds_Address s \<noteq> [] \<and>
        (ds_Transport s = DNSSystem \<or> ParseIP (ds_Address s) \<noteq> None \<or> isDomain (ds_Address s))) \<and>
     (d_Mode d = DNSFakeIP \<and> d_FakeIPRange d \<noteq> [] \<longrightarrow> ParseCIDR (d_FakeIPRange d) \<noteq> None))"

definition tun_ok :: "Tun \<Rightarrow> bool" where
  "tun_ok t \<longleftrightarrow> (t_Enabled t \<longrightarrow>
     t_Stack t \<in> {'''', ''system'', ''gvisor'', ''mixed'', ''mips''} \<and>
     (t_MTU t = 0 \<or> (576 \<le> t_MTU t \<and> t_MTU t \<le> 1500)) \<and> name_ok (t_DeviceName t))"

definition options_ok :: "Options \<Rightarrow> bool" where
  "options_ok opts \<longleftrightarrow>
     op_LogLevel opts \<in> {'''', ''silent'', ''error'', ''warning'', ''info'', ''debug''} \<and>
     op_Mode opts \<in> {'''', ''rule'', ''global'', ''direct''} \<and>
     (op_TestURL opts = [] \<or> test_url_ok (op_TestURL opts)) \<and>
     (\<forall>u \<in> {op_GeoSiteURL opts, op_GeoIPURL opts}. u = [] \<or> HasPrefix u ''https://'')"

definition target_names :: "Plan \<Rightarrow> string set" where
  "target_names p = o_ID ` set (p_Outbounds p) \<union> g_Name ` set (p_Groups p) \<union> Collect isBuiltInTarget"

definition rule_ok :: "Plan \<Rightarrow> Rule \<Rightarrow> bool" where
  "rule_ok p r \<longleftrightarrow>
     r_Type r \<in> set rule_types \<and> (r_Type r = RuleMatchAll \<or> TrimSpace (r_Value r) \<noteq> []) \<and>
     (\<forall>c \<in> {CHR 0x0D, CHR 0x0A, CHR 0x09}. c \<notin> set (r_Value r)) \<and>
     (r_Type r = RuleIPCIDR \<longrightarrow> ParseCIDR (r_Value r) \<noteq> None) \<and>
     (r_Type r \<in> {RulePort, RuleSrcPort} \<longrightarrow> Atoi (r_Value r) \<noteq> None) \<and>
     r_Target r \<noteq> [] \<and> r_Target r \<in> target_names p"

definition group_ok :: "Plan \<Rightarrow> Group \<Rightarrow> bool" where
  "group_ok p g \<longleftrightarrow>
     name_ok (g_Name g) \<and> g_Type g \<in> {GroupSelect, GroupURLTest, GroupFallback, GroupLoadBalance} \<and>
     g_Outbounds g \<noteq> [] \<and> 0 \<le> g_Interval g \<and> g_Interval g \<le> 86400 \<and>
     (needsProbe g \<longrightarrow> g_URL g \<noteq> [] \<or> op_TestURL (p_Options p) \<noteq> []) \<and>
     (g_URL g = [] \<or> test_url_ok (g_URL g)) \<and> set (g_Outbounds g) \<subseteq> target_names p"

text \<open>The membership graph of the plan: group to member group.\<close>

definition group_graph :: "Plan \<Rightarrow> (string \<times> string) set" where
  "group_graph p = {(a, b). \<exists>g \<in> set (p_Groups p). g_Name g = a \<and> b \<in> set (g_Outbounds g)
     \<and> b \<in> g_Name ` set (p_Groups p)}"

definition plan_ok :: "Plan \<Rightarrow> bool" where
  "plan_ok p \<longleftrightarrow>
     TrimSpace (p_SessionID p) \<noteq> [] \<and>
     p_Outbounds p \<noteq> [] \<and> length (p_Outbounds p) \<le> MaxOutbounds \<and>
     length (p_Groups p) \<le> MaxGroups \<and> length (p_Rules p) \<le> MaxRules \<and>
     (\<forall>x \<in> set (p_Outbounds p). outbound_ok x) \<and>
     distinct (map o_ID (p_Outbounds p) @ map g_Name (p_Groups p)) \<and>
     ((\<exists>x \<in> set (p_Outbounds p). o_Protocol x = ProtocolXrayProfile) \<longrightarrow>
        length (p_Outbounds p) = 1 \<and> p_Groups p = []) \<and>
     (lp_Username (p_LocalProxy p) = [] \<longleftrightarrow> lp_Password (p_LocalProxy p) = []) \<and>
     (\<forall>c \<in> {CHR '':'', CHR ''@'', CHR '' '', CHR 0x0D, CHR 0x0A}. c \<notin> set (lp_Username (p_LocalProxy p))) \<and>
     (\<forall>g \<in> set (p_Groups p). group_ok p g) \<and> acyclic (group_graph p) \<and>
     (\<forall>r \<in> set (p_Rules p). rule_ok p r) \<and>
     dns_ok (p_DNS p) \<and> tun_ok (p_Tun p) \<and> options_ok (p_Options p)"

lemma DNSServer_validate_ok:
  "DNSServer_validate s = [] \<longleftrightarrow> ds_Address s \<noteq> [] \<and>
     (ds_Transport s = DNSSystem \<or> ParseIP (ds_Address s) \<noteq> None \<or> isDomain (ds_Address s))"
  by (simp add: DNSServer_validate_def)

lemma DNS_validate_ok: "DNS_validate d = [] \<longleftrightarrow> dns_ok d"
proof (cases "d_Enabled d")
  case True
  have "set ['''', ''rule'', ''redir-host'', DNSFakeIP] = {'''', ''rule'', ''redir-host'', DNSFakeIP}"
    by simp
  moreover have "concat (map DNSServer_validate ss) = [] \<longleftrightarrow> (\<forall>s \<in> set ss. ds_Address s \<noteq> [] \<and>
      (ds_Transport s = DNSSystem \<or> ParseIP (ds_Address s) \<noteq> None \<or> isDomain (ds_Address s)))" for ss
    by (simp add: DNSServer_validate_ok)
  ultimately show ?thesis
    using True by (simp only: DNS_validate_def dns_ok_def append_is_Nil_conv if_Nil) (simp add: not_less)
qed (simp add: DNS_validate_def dns_ok_def)

lemma Tun_validate_ok: "Tun_validate t = [] \<longleftrightarrow> tun_ok t"
  by (auto simp: Tun_validate_def tun_ok_def validateDisplayName_ok)

lemma Options_validate_ok: "Options_validate opts = [] \<longleftrightarrow> options_ok opts"
  unfolding Options_validate_def options_ok_def append_is_Nil_conv if_Nil validateTestURL_ok
  by auto

lemma check_outbounds_ok:
  "check_outbounds ids xs = [] \<longleftrightarrow>
     (\<forall>x \<in> set xs. outbound_ok x) \<and> distinct (map o_ID xs) \<and> set ids \<inter> o_ID ` set xs = {}"
  by (induction xs arbitrary: ids) (auto simp: Outbound_Validate_ok)

lemma check_rule_ok:
  "check_rule (map o_ID (p_Outbounds p)) (map g_Name (p_Groups p)) r = [] \<longleftrightarrow> rule_ok p r"
proof -
  have "ContainsAny v [CHR 0x0D, CHR 0x0A, CHR 0x09] \<longleftrightarrow> \<not> (\<forall>c \<in> {CHR 0x0D, CHR 0x0A, CHR 0x09}. c \<notin> set v)" for v
    by (auto simp: ContainsAny_iff)
  then show ?thesis
    unfolding check_rule_def Rule_validate_def rule_ok_def target_names_def append_is_Nil_conv if_Nil
    by (simp only: if_split_eq1) auto
qed

lemma map_of_foldl_update:
  "map_of (foldl (\<lambda>m g. AList.update (k g) (v g) m) m0 gs) = map_of m0 ++ map_of (rev (map (\<lambda>g. (k g, v g)) gs))"
  by (induction gs arbitrary: m0) (simp_all add: update_conv' map_add_def fun_eq_iff split: option.split)

lemma dom_group_members: "dom (map_of (group_members gs)) = g_Name ` set gs"
  by (force simp: group_members_def map_of_foldl_update dom_map_of_conv_image_fst)

lemma group_members_distinct:
  "distinct (map g_Name gs) \<Longrightarrow> g \<in> set gs \<Longrightarrow> map_of (group_members gs) (g_Name g) = Some (g_Outbounds g)"
  by (simp add: group_members_def map_of_foldl_update)
    (rule map_of_is_SomeI, auto simp: comp_def simp flip: rev_map)

lemma member_edges_group_graph:
  assumes "distinct (map g_Name (p_Groups p))"
  shows "member_edges (group_members (p_Groups p)) = group_graph p"
proof -
  let ?M = "map_of (group_members (p_Groups p))"
  have "(\<exists>ms. ?M a = Some ms \<and> b \<in> set ms) \<longleftrightarrow>
      (\<exists>g \<in> set (p_Groups p). g_Name g = a \<and> b \<in> set (g_Outbounds g))" for a b
  proof
    assume "\<exists>ms. ?M a = Some ms \<and> b \<in> set ms"
    then obtain ms where ms: "?M a = Some ms" "b \<in> set ms" by blast
    then have "a \<in> g_Name ` set (p_Groups p)" using dom_group_members by blast
    then show "\<exists>g \<in> set (p_Groups p). g_Name g = a \<and> b \<in> set (g_Outbounds g)"
      using ms group_members_distinct [OF assms] by fastforce
  next
    assume "\<exists>g \<in> set (p_Groups p). g_Name g = a \<and> b \<in> set (g_Outbounds g)"
    then show "\<exists>ms. ?M a = Some ms \<and> b \<in> set ms" using group_members_distinct [OF assms] by blast
  qed
  then have "member_edges (group_members (p_Groups p)) =
      {(a, b). (\<exists>g \<in> set (p_Groups p). g_Name g = a \<and> b \<in> set (g_Outbounds g)) \<and> b \<in> dom ?M}"
    unfolding member_edges_def by blast
  then show ?thesis by (auto simp: group_graph_def dom_group_members)
qed

text \<open>The part of \<open>group_ok\<close> and the cycle check that one round of the group loop decides.\<close>

definition group_round_ok :: "Plan \<Rightarrow> Group \<Rightarrow> bool" where
  "group_round_ok p g \<longleftrightarrow> group_ok p g \<and> \<not> reaches_cycle (group_members (p_Groups p)) (g_Name g)"

lemma Group_validate_ok:
  "Group_validate g = [] \<longleftrightarrow>
     name_ok (g_Name g) \<and> g_Type g \<in> {GroupSelect, GroupURLTest, GroupFallback, GroupLoadBalance} \<and>
     g_Outbounds g \<noteq> [] \<and> 0 \<le> g_Interval g \<and> g_Interval g \<le> 86400"
  by (simp add: Group_validate_def validateDisplayName_ok not_less)

lemma members_ok:
  "concat (map (\<lambda>ref. report (ref \<notin> set (map o_ID (p_Outbounds p)) \<and>
       map_of (group_members (p_Groups p)) ref = None \<and> \<not> isBuiltInTarget ref) (e ref)) refs) = []
   \<longleftrightarrow> set refs \<subseteq> target_names p"
proof -
  have "map_of (group_members (p_Groups p)) ref = None \<longleftrightarrow> ref \<notin> g_Name ` set (p_Groups p)" for ref
    using dom_group_members [of "p_Groups p"] by (metis domIff)
  then show ?thesis by (auto simp: target_names_def)
qed

lemma check_groups_ok:
  "check_groups p (group_members (p_Groups p)) (map o_ID (p_Outbounds p)) names gs = [] \<longleftrightarrow>
     (\<forall>g \<in> set gs. group_round_ok p g) \<and> distinct (map g_Name gs) \<and> set names \<inter> g_Name ` set gs = {}"
proof (induction gs arbitrary: names)
  case (Cons g gs)
  have "check_groups p (group_members (p_Groups p)) (map o_ID (p_Outbounds p)) names (g # gs) = [] \<longleftrightarrow>
      group_round_ok p g \<and> g_Name g \<notin> set names \<and>
      check_groups p (group_members (p_Groups p)) (map o_ID (p_Outbounds p)) (g_Name g # names) gs = []"
    by (simp only: check_groups.simps append_is_Nil_conv if_Nil Group_validate_ok validateTestURL_ok
        members_ok groupCycle_start group_round_ok_def group_ok_def list.distinct simp_thms de_Morgan_conj) blast
  then show ?case using Cons.IH by auto
qed simp

lemma acyclic_iff_no_reach:
  assumes "distinct (map g_Name (p_Groups p))"
  shows "(\<forall>g \<in> set (p_Groups p). \<not> reaches_cycle (group_members (p_Groups p)) (g_Name g))
    \<longleftrightarrow> acyclic (group_graph p)"
proof
  assume n: "\<forall>g \<in> set (p_Groups p). \<not> reaches_cycle (group_members (p_Groups p)) (g_Name g)"
  show "acyclic (group_graph p)"
  proof (rule acyclicI, intro allI notI)
    fix x
    assume c: "(x, x) \<in> (group_graph p)\<^sup>+"
    then have "x \<in> g_Name ` set (p_Groups p)" by (induction rule: converse_trancl_induct) (auto simp: group_graph_def)
    with n c show False by (auto simp: reaches_cycle_def member_edges_group_graph [OF assms])
  qed
qed (auto simp: reaches_cycle_def member_edges_group_graph [OF assms] acyclic_def)

lemma names_clash_ok:
  "concat (map (\<lambda>g. report (g_Name g \<in> set ids) (e g)) gs) = [] \<longleftrightarrow> set ids \<inter> g_Name ` set gs = {}"
  by auto

lemma username_ok:
  "ContainsAny u ('':@ '' @ [CHR 0x0D, CHR 0x0A]) \<longleftrightarrow>
    \<not> (\<forall>c \<in> {CHR '':'', CHR ''@'', CHR '' '', CHR 0x0D, CHR 0x0A}. c \<notin> set u)"
  by (auto simp: ContainsAny_iff)

lemma profile_alone_ok:
  "p_Outbounds p \<noteq> [] \<Longrightarrow>
   (\<not> (list_ex (\<lambda>x. o_Protocol x = ProtocolXrayProfile) (p_Outbounds p) \<and>
       (length (p_Outbounds p) > 1 \<or> length (p_Groups p) > 0))) \<longleftrightarrow>
   ((\<exists>x \<in> set (p_Outbounds p). o_Protocol x = ProtocolXrayProfile) \<longrightarrow>
      length (p_Outbounds p) = 1 \<and> p_Groups p = [])"
  by (cases "p_Outbounds p") (auto simp: list_ex_iff)

lemma validate_plan_ok: "Plan_Validate (Some p) = [] \<longleftrightarrow> plan_ok p"
proof (cases "p_Outbounds p = []")
  case True
  then show ?thesis by (simp add: Plan_Validate_def plan_ok_def Let_def)
next
  case False
  have rules: "concat (map (check_rule (map o_ID (p_Outbounds p)) (map g_Name (p_Groups p))) (p_Rules p)) = []
      \<longleftrightarrow> (\<forall>r \<in> set (p_Rules p). rule_ok p r)"
    by (simp add: check_rule_ok)
  have "Plan_Validate (Some p) = [] \<longleftrightarrow>
      TrimSpace (p_SessionID p) \<noteq> [] \<and>
      length (p_Outbounds p) \<le> MaxOutbounds \<and> length (p_Groups p) \<le> MaxGroups \<and> length (p_Rules p) \<le> MaxRules \<and>
      (\<forall>x \<in> set (p_Outbounds p). outbound_ok x) \<and> distinct (map o_ID (p_Outbounds p)) \<and>
      ((\<exists>x \<in> set (p_Outbounds p). o_Protocol x = ProtocolXrayProfile) \<longrightarrow>
        length (p_Outbounds p) = 1 \<and> p_Groups p = []) \<and>
      set (map o_ID (p_Outbounds p)) \<inter> g_Name ` set (p_Groups p) = {} \<and>
      (lp_Username (p_LocalProxy p) = [] \<longleftrightarrow> lp_Password (p_LocalProxy p) = []) \<and>
      (\<forall>c \<in> {CHR '':'', CHR ''@'', CHR '' '', CHR 0x0D, CHR 0x0A}. c \<notin> set (lp_Username (p_LocalProxy p))) \<and>
      (\<forall>g \<in> set (p_Groups p). group_round_ok p g) \<and> distinct (map g_Name (p_Groups p)) \<and>
      (\<forall>r \<in> set (p_Rules p). rule_ok p r) \<and>
      dns_ok (p_DNS p) \<and> tun_ok (p_Tun p) \<and> options_ok (p_Options p)"
    by (simp only: Plan_Validate_def Let_def option.case append_is_Nil_conv if_Nil list.distinct False
        check_outbounds_ok names_clash_ok username_ok check_groups_ok rules profile_alone_ok [OF False]
        DNS_validate_ok Tun_validate_ok Options_validate_ok not_less list.set Int_empty_left
        simp_thms conj_assoc)
  also have "\<dots> \<longleftrightarrow> plan_ok p"
    using acyclic_iff_no_reach [of p] False
    by (auto simp: plan_ok_def group_round_ok_def simp del: insert_iff)
  finally show ?thesis .
qed

text \<open>
  C1. \<open>Plan.Validate\<close> returns nil exactly for the well-formed plans: within the limits, every
  outbound, group, rule and setting valid, identifiers and group names unique and distinct from
  each other, every member and rule target resolved, and no group nested in itself.
\<close>

theorem Plan_Validate_iff: "Plan_Validate plan = [] \<longleftrightarrow> (\<exists>p. plan = Some p \<and> plan_ok p)"
  by (cases plan) (simp_all add: Plan_Validate_def [of None] validate_plan_ok)

text \<open>A plan with nested groups that is well-formed, and the same plan with the nesting closed.\<close>

definition sample_outbound :: Outbound where
  "sample_outbound = zero_Outbound\<lparr>o_ID := ''fi-1'', o_Name := ''Helsinki'', o_Protocol := ProtocolVLESS,
     o_Server := ''fi.example.net'', o_Port := 443\<rparr>"

definition sample_plan :: Plan where
  "sample_plan = zero_Plan\<lparr>p_SessionID := ''s1'', p_Outbounds := [sample_outbound],
     p_Groups := [zero_Group\<lparr>g_Name := ''Auto'', g_Type := GroupSelect, g_Outbounds := [''Nordic'', ''direct'']\<rparr>,
                  zero_Group\<lparr>g_Name := ''Nordic'', g_Type := GroupSelect, g_Outbounds := [''fi-1'']\<rparr>],
     p_Rules := [\<lparr>r_Type = RuleIPCIDR, r_Value = ''10.0.0.0/8'', r_Target = ''direct'', r_NoResolve = True\<rparr>,
                 \<lparr>r_Type = RuleMatchAll, r_Value = [], r_Target = ''Auto'', r_NoResolve = False\<rparr>]\<rparr>"

definition looping_plan :: Plan where
  "looping_plan = sample_plan\<lparr>p_Groups := [
     zero_Group\<lparr>g_Name := ''Auto'', g_Type := GroupSelect, g_Outbounds := [''Nordic'']\<rparr>,
     zero_Group\<lparr>g_Name := ''Nordic'', g_Type := GroupSelect, g_Outbounds := [''Auto'']\<rparr>]\<rparr>"

lemma sample_plan_validates: "Plan_Validate (Some sample_plan) = []"
  by code_simp

lemma looping_plan_rejected:
  "Plan_Validate (Some looping_plan) =
     [PlanE (GroupContainsItself ''Auto''), PlanE (GroupContainsItself ''Nordic'')]"
  by code_simp

end
