(* ===== verification/RestartPolicy.thy ===== *)
theory RestartPolicy
  imports SoraPrelude
begin

text \<open>
  The restart budget of \<open>engine/backoff.go\<close>: a limit on restarts in a sliding window.
  \<open>Allow\<close> reads the clock twice, once for the cut-off and once for the recorded attempt; both
  readings are arguments.  The jittered delay of the same file computes in floating point and is
  not modelled.
\<close>

section \<open>The budget\<close>

record RestartBudget =
  rb_limit :: int
  rb_window :: Duration
  rb_attempts :: "Time list"

definition NewRestartBudget :: "int \<Rightarrow> Duration \<Rightarrow> RestartBudget" where
  "NewRestartBudget limit window =
     \<lparr>rb_limit = limit, rb_window = (if window \<le> 0 then 10 * Minute else window), rb_attempts = []\<rparr>"

definition Allow :: "Time \<Rightarrow> Time \<Rightarrow> RestartBudget \<Rightarrow> bool \<times> RestartBudget" where
  "Allow now1 now2 b =
     (if rb_limit b \<le> 0 then (False, b)
      else
        (let cutoff = now1 - rb_window b;
             kept = filter (\<lambda>t. t > cutoff) (rb_attempts b) in
         if int (length kept) \<ge> rb_limit b then (False, b\<lparr>rb_attempts := kept\<rparr>)
         else (True, b\<lparr>rb_attempts := kept @ [now2]\<rparr>)))"

definition Used :: "RestartBudget \<Rightarrow> nat" where
  "Used b = length (rb_attempts b)"

definition Reset :: "RestartBudget \<Rightarrow> RestartBudget" where
  "Reset b = b\<lparr>rb_attempts := []\<rparr>"

text \<open>A sequence of calls; each call is the pair of its clock readings.  The grants are collected.\<close>

fun allow_run :: "RestartBudget \<Rightarrow> (Time \<times> Time) list \<Rightarrow> Time list \<times> RestartBudget" where
  "allow_run b [] = ([], b)"
| "allow_run b ((t1, t2) # calls) =
     (let (ok, b') = Allow t1 t2 b; (gs, b'') = allow_run b' calls
      in ((if ok then t2 # gs else gs), b''))"

text \<open>The clock does not go back, neither inside a call nor between calls.\<close>

fun clock_ok :: "Time \<Rightarrow> (Time \<times> Time) list \<Rightarrow> bool" where
  "clock_ok t [] = True"
| "clock_ok t ((t1, t2) # calls) = (t \<le> t1 \<and> t1 \<le> t2 \<and> clock_ok t2 calls)"

section \<open>A sliding window\<close>

text \<open>How many of the instants lie in the window that ends at \<open>t\<close>.\<close>

definition in_window :: "Duration \<Rightarrow> Time \<Rightarrow> Time list \<Rightarrow> nat" where
  "in_window w t ts = length (filter (\<lambda>g. t - w < g \<and> g \<le> t) ts)"

text \<open>
  The grants so far \<open>h\<close> and the recorded attempts agree on everything after the last cut-off,
  and no window holds more grants than the limit.
\<close>

definition budget_inv :: "int \<Rightarrow> Duration \<Rightarrow> Time \<Rightarrow> Time list \<Rightarrow> RestartBudget \<Rightarrow> bool" where
  "budget_inv limit w t h b \<longleftrightarrow>
     rb_limit b = limit \<and> rb_window b = w \<and> 0 < w \<and> 0 < limit \<and> (\<forall>g \<in> set h. g \<le> t) \<and>
     (\<forall>c \<ge> t - w. filter (\<lambda>g. g > c) (rb_attempts b) = filter (\<lambda>g. g > c) h) \<and>
     (\<forall>\<tau>. int (in_window w \<tau> h) \<le> limit)"

lemma in_window_snoc_early: "\<tau> < g \<Longrightarrow> in_window w \<tau> (h @ [g]) = in_window w \<tau> h"
  by (simp add: in_window_def)

lemma length_filter_mono: "(\<And>x. x \<in> set xs \<Longrightarrow> P x \<Longrightarrow> Q x) \<Longrightarrow> length (filter P xs) \<le> length (filter Q xs)"
  by (induction xs) auto

lemma Allow_grant_inv:
  assumes inv: "budget_inv limit w t h b" and t: "t \<le> t1" "t1 \<le> t2"
    and few: "int (length (filter (\<lambda>g. g > t1 - w) h)) < limit"
  shows "budget_inv limit w t2 (h @ [t2]) (b\<lparr>rb_attempts := filter (\<lambda>g. g > t1 - w) (rb_attempts b) @ [t2]\<rparr>)"
proof -
  have k: "filter (\<lambda>g. g > t1 - w) (rb_attempts b) = filter (\<lambda>g. g > t1 - w) h"
    using inv t by (simp add: budget_inv_def)
  have keep: "filter (\<lambda>g. g > c) (filter (\<lambda>g. g > t1 - w) h) = filter (\<lambda>g. g > c) h" if "t2 - w \<le> c" for c
    using that t by (auto simp: filter_filter intro: filter_cong)
  have "int (in_window w \<tau> (h @ [t2])) \<le> limit" for \<tau>
  proof (cases "\<tau> < t2")
    case True
    then show ?thesis using inv by (simp add: in_window_snoc_early budget_inv_def)
  next
    case False
    have "in_window w \<tau> (h @ [t2]) \<le> Suc (length (filter (\<lambda>g. g > \<tau> - w \<and> g \<le> \<tau>) h))"
      by (simp add: in_window_def)
    also have "length (filter (\<lambda>g. g > \<tau> - w \<and> g \<le> \<tau>) h) \<le> length (filter (\<lambda>g. g > t1 - w) h)"
      using False t by (intro length_filter_mono) auto
    finally show ?thesis using few by linarith
  qed
  then show ?thesis
    using inv t keep by (auto simp: budget_inv_def k)
qed

lemma Allow_refuse_inv:
  "budget_inv limit w t h b \<Longrightarrow> t \<le> t1 \<Longrightarrow> t1 \<le> t2 \<Longrightarrow>
   budget_inv limit w t2 h (b\<lparr>rb_attempts := filter (\<lambda>g. g > t1 - w) (rb_attempts b)\<rparr>)"
  by (force simp: budget_inv_def filter_filter intro: filter_cong)

text \<open>\<open>Allow\<close> grants exactly when the window before it holds fewer grants than the limit.\<close>

lemma Allow_step:
  assumes "budget_inv limit w t h b" "t \<le> t1" "t1 \<le> t2"
  shows "fst (Allow t1 t2 b) \<longleftrightarrow> int (length (filter (\<lambda>g. g > t1 - w) h)) < limit"
    and "budget_inv limit w t2 (if fst (Allow t1 t2 b) then h @ [t2] else h) (snd (Allow t1 t2 b))"
proof -
  have k: "filter (\<lambda>g. g > t1 - w) (rb_attempts b) = filter (\<lambda>g. g > t1 - w) h"
    using assms by (simp add: budget_inv_def)
  have l: "rb_limit b = limit" "0 < limit" "rb_window b = w" using assms(1) by (auto simp: budget_inv_def)
  show g: "fst (Allow t1 t2 b) \<longleftrightarrow> int (length (filter (\<lambda>g. g > t1 - w) h)) < limit"
    using l by (auto simp: Allow_def Let_def k)
  show "budget_inv limit w t2 (if fst (Allow t1 t2 b) then h @ [t2] else h) (snd (Allow t1 t2 b))"
    using Allow_grant_inv [OF assms] Allow_refuse_inv [OF assms] g l
    by (auto simp: Allow_def Let_def k)
qed

lemma allow_run_inv:
  "budget_inv limit w t h b \<Longrightarrow> clock_ok t (calls @ rest) \<Longrightarrow>
   \<exists>t'. budget_inv limit w t' (h @ fst (allow_run b calls)) (snd (allow_run b calls)) \<and> clock_ok t' rest"
proof (induction calls arbitrary: t h b)
  case (Cons c calls)
  obtain t1 t2 where c: "c = (t1, t2)" by (cases c)
  let ?h = "if fst (Allow t1 t2 b) then h @ [t2] else h"
  have "budget_inv limit w t2 ?h (snd (Allow t1 t2 b))"
    using Allow_step(2) Cons.prems c by simp
  from Cons.IH [OF this] Cons.prems(2) c
  obtain t' where "budget_inv limit w t' (?h @ fst (allow_run (snd (Allow t1 t2 b)) calls))
      (snd (allow_run (snd (Allow t1 t2 b)) calls))" "clock_ok t' rest" by auto
  then show ?case
    by (intro exI [of _ t']) (auto simp: c Let_def case_prod_beta split: if_splits)
qed (auto)

lemma NewRestartBudget_inv:
  "0 < limit \<Longrightarrow>
   budget_inv limit (rb_window (NewRestartBudget limit window)) t [] (NewRestartBudget limit window)"
  by (simp add: budget_inv_def NewRestartBudget_def duration_defs in_window_def)

lemma Allow_disabled: "rb_limit b \<le> 0 \<Longrightarrow> fst (allow_run b calls) = []"
  by (induction calls) (auto simp: Allow_def Let_def)

text \<open>
  C21. However often \<open>Allow\<close> is called on a new budget, with a clock that does not go back, every
  window of the configured length contains at most \<open>limit\<close> granted restarts, and none is granted
  when the limit is not positive.
\<close>

theorem restart_budget_bound:
  assumes "clock_ok t calls"
  shows "int (in_window (rb_window (NewRestartBudget limit window)) \<tau>
      (fst (allow_run (NewRestartBudget limit window) calls))) \<le> max 0 limit"
proof (cases "0 < limit")
  case True
  from allow_run_inv [OF NewRestartBudget_inv [OF True], of t calls "[]" window] assms True
  show ?thesis by (auto simp: budget_inv_def)
next
  case False
  then show ?thesis by (simp add: Allow_disabled NewRestartBudget_def in_window_def)
qed

theorem restart_budget_bound_witness:
  "clock_ok 0 [(0, 1), (5, 5), (6, 7), (20, 21)] \<and>
   fst (allow_run (NewRestartBudget 2 10) [(0, 1), (5, 5), (6, 7), (20, 21)]) = [1, 5, 21] \<and>
   int (in_window 10 10 [1, 5, 21]) \<le> 2"
proof -
  have c: "clock_ok 0 [(0, 1), (5, 5), (6, 7), (20, 21)]" by simp
  have r: "fst (allow_run (NewRestartBudget 2 10) [(0, 1), (5, 5), (6, 7), (20, 21)]) = [1, 5, 21]"
    by code_simp
  have w: "rb_window (NewRestartBudget 2 10) = 10" by code_simp
  show ?thesis
    using restart_budget_bound [OF c, where limit = 2 and window = 10 and \<tau> = 10] c r
    unfolding r w by simp
qed

text \<open>
  A call of \<open>Allow\<close> after any history of calls is granted exactly when fewer than \<open>limit\<close>
  restarts were granted inside the window before it: the budget neither leaks nor loses attempts.
\<close>

theorem restart_budget_exact:
  assumes "0 < limit" "clock_ok t (calls @ [(t1, t2)])"
  shows "fst (Allow t1 t2 (snd (allow_run (NewRestartBudget limit window) calls))) \<longleftrightarrow>
    int (length (filter (\<lambda>g. g > t1 - rb_window (NewRestartBudget limit window))
      (fst (allow_run (NewRestartBudget limit window) calls)))) < limit"
proof -
  let ?b = "NewRestartBudget limit window"
  obtain t' where "budget_inv limit (rb_window ?b) t' (fst (allow_run ?b calls)) (snd (allow_run ?b calls))"
      "t' \<le> t1" "t1 \<le> t2"
    using allow_run_inv [OF NewRestartBudget_inv [OF assms(1)] assms(2), of window] by auto
  then show ?thesis by (rule Allow_step(1))
qed

theorem restart_budget_exact_witness:
  "(0 :: int) < 2 \<and> clock_ok 0 ([(0, 1), (5, 5)] @ [(6, 7)]) \<and>
   \<not> fst (Allow 6 7 (snd (allow_run (NewRestartBudget 2 10) [(0, 1), (5, 5)])))"
proof -
  have c: "(0 :: int) < 2" "clock_ok 0 ([(0, 1), (5, 5)] @ [(6, 7)])" by simp_all
  have "int (length (filter (\<lambda>g. g > 6 - rb_window (NewRestartBudget 2 10))
      (fst (allow_run (NewRestartBudget 2 10) [(0, 1), (5, 5)])))) = 2" by code_simp
  then show ?thesis
    using restart_budget_exact [OF c, where window = 10] c by (simp del: allow_run.simps)
qed

text \<open>
  \<open>Used\<close> counts the recorded attempts, also those that have left the window since the last call
  of \<open>Allow\<close>: it never counts fewer than are in the window.
\<close>

lemma Used_stale: "Used (snd (allow_run (NewRestartBudget 3 10) [(0, 0), (1, 1)])) = 2 \<and> in_window 10 100 [0, 1] = 0"
  by code_simp

end
