(* ===== verification/TunAddressing.thy ===== *)
theory TunAddressing
  imports PlanSpec
begin

text \<open>
  Adapter addressing, \<open>engine/tun.go\<close>: the choice of the session's subnets and fake-IP pool.
  The interface addresses the operating system reports are an argument, \<open>None\<close> when reading them
  fails.  \<open>PrepareTun\<close> changes the plan in place, so it returns the plan also on an error.
\<close>

section \<open>The code\<close>

definition tunPools4 :: "string list" where
  "tunPools4 = [''192.0.2.1/30'', ''192.0.2.5/30'', ''192.0.2.9/30'']"

definition tunPools6 :: "string list" where
  "tunPools6 = [''2001:db8:5340::1/126'', ''2001:db8:5341::1/126'', ''2001:db8:5342::1/126'']"

datatype tun_err = TunNilPlan | TunReadAddrs | TunReadPrefix | TunFakePool | TunFakeOverlap
  | TunBadPool | TunPoolsUsed | TunSubnets | TunPrivate

fun chooseTunPrefix :: "string list \<Rightarrow> prefix list \<Rightarrow> tun_err + prefix" where
  "chooseTunPrefix [] used = Inl TunPoolsUsed"
| "chooseTunPrefix (candidate # cs) used =
     (case ParsePrefix candidate of
        None \<Rightarrow> Inl TunBadPool
      | Some prefix \<Rightarrow> if \<not> list_ex (Overlaps prefix) used then Inr prefix else chooseTunPrefix cs used)"

definition benchmark :: prefix where
  "benchmark = Prefix (V4 0xC6120000) 15"

definition fake_pool :: "Plan \<Rightarrow> prefix option" where
  "fake_pool p =
     (case ParsePrefix (if d_FakeIPRange (p_DNS p) = [] then ''198.18.0.0/16'' else d_FakeIPRange (p_DNS p)) of
        None \<Rightarrow> None
      | Some f \<Rightarrow>
          if \<not> Is4 (pfx_addr f) \<or> pfx_bits f < pfx_bits benchmark \<or> \<not> prefix_Contains benchmark (pfx_addr f)
          then None else Some f)"

text \<open>Assigning one adapter address if the plan has none.\<close>

definition choose4 :: "prefix list \<Rightarrow> Plan \<Rightarrow> Plan \<times> tun_err option" where
  "choose4 used p =
     (if t_IPv4 (p_Tun p) \<noteq> None then (p, None)
      else (case chooseTunPrefix tunPools4 used of
              Inl e \<Rightarrow> (p, Some e)
            | Inr x \<Rightarrow> (p\<lparr>p_Tun := (p_Tun p)\<lparr>t_IPv4 := Some x\<rparr>\<rparr>, None)))"

definition choose6 :: "prefix list \<Rightarrow> Plan \<Rightarrow> Plan \<times> tun_err option" where
  "choose6 used p =
     (if t_IPv6 (p_Tun p) \<noteq> None then (p, None)
      else (case chooseTunPrefix tunPools6 used of
              Inl e \<Rightarrow> (p, Some e)
            | Inr x \<Rightarrow> (p\<lparr>p_Tun := (p_Tun p)\<lparr>t_IPv6 := Some x\<rparr>\<rparr>, None)))"

definition bad_subnets :: "prefix \<Rightarrow> prefix \<Rightarrow> prefix \<Rightarrow> bool" where
  "bad_subnets fake a4 a6 \<longleftrightarrow>
     Overlaps a4 fake \<or> \<not> Is4 (pfx_addr a4) \<or> \<not> Is6 (pfx_addr a6) \<or> pfx_bits a4 \<noteq> 30 \<or> pfx_bits a6 \<noteq> 126"

definition outside_private :: "addr \<Rightarrow> bool" where
  "outside_private a \<longleftrightarrow> \<not> (\<not> IsGlobalUnicast a \<or> IsPrivate a)"

text \<open>The last part of \<open>PrepareTun\<close>: checks on the chosen addresses and the final fields.\<close>

definition finish_tun :: "prefix \<Rightarrow> Plan \<Rightarrow> Plan \<times> tun_err option" where
  "finish_tun fake p =
     (case (t_IPv4 (p_Tun p), t_IPv6 (p_Tun p)) of
        (Some a4, Some a6) \<Rightarrow>
          if bad_subnets fake a4 a6 then (p, Some TunSubnets)
          else if \<not> list_all outside_private [pfx_addr a4, pfx_addr a6] then (p, Some TunPrivate)
          else
            (p\<lparr>p_Tun := (p_Tun p)\<lparr>t_DeviceName :=
                 (if t_DeviceName (p_Tun p) = [] then TunDevice else t_DeviceName (p_Tun p))\<rparr>,
               p_DNS := (p_DNS p)\<lparr>d_FakeIPRange := prefix_String (Masked fake)\<rparr>\<rparr>, None)
      | _ \<Rightarrow> (p, Some TunSubnets))"

definition PrepareTun :: "string list option \<Rightarrow> Plan option \<Rightarrow> Plan option \<times> tun_err option" where
  "PrepareTun interface_addrs plan =
     (case plan of
        None \<Rightarrow> (None, Some TunNilPlan)
      | Some p \<Rightarrow>
          if \<not> t_Enabled (p_Tun p) then (Some p, None)
          else
            (case interface_addrs of
               None \<Rightarrow> (Some p, Some TunReadAddrs)
             | Some addrs \<Rightarrow>
                 (case those (map ParsePrefix addrs) of
                    None \<Rightarrow> (Some p, Some TunReadPrefix)
                  | Some ifaces \<Rightarrow>
                      (case fake_pool p of
                         None \<Rightarrow> (Some p, Some TunFakePool)
                       | Some fake \<Rightarrow>
                           if list_ex (Overlaps fake) ifaces then (Some p, Some TunFakeOverlap)
                           else
                             (let used = ifaces @ [fake] in
                              case choose4 used p of
                                (p1, Some e) \<Rightarrow> (Some p1, Some e)
                              | (p1, None) \<Rightarrow>
                                  (case choose6 used p1 of
                                     (p2, Some e) \<Rightarrow> (Some p2, Some e)
                                   | (p2, None) \<Rightarrow> map_prod Some id (finish_tun fake p2)))))))"

text \<open>\<open>MustParsePrefix\<close> panics on a text that does not parse: \<open>None\<close>.\<close>

definition pool_prefix :: "string list \<Rightarrow> prefix option" where
  "pool_prefix pools = (case pools of [] \<Rightarrow> None | s # _ \<Rightarrow> ParsePrefix s)"

definition Addresses :: "Tun \<Rightarrow> string list option" where
  "Addresses t =
     (case (if t_IPv4 t = None then pool_prefix tunPools4 else t_IPv4 t,
            if t_IPv6 t = None then pool_prefix tunPools6 else t_IPv6 t) of
        (Some a4, Some a6) \<Rightarrow> Some [prefix_String a4, prefix_String a6]
      | _ \<Rightarrow> None)"

definition Networks :: "Tun \<Rightarrow> prefix list option" where
  "Networks t =
     (if \<not> t_Enabled t then Some []
      else (case Addresses t of
              None \<Rightarrow> None
            | Some addresses \<Rightarrow> map_option (map Masked) (those (map ParsePrefix addresses))))"

section \<open>Correctness of the choice\<close>

lemma benchmark_literal: "ParsePrefix ''198.18.0.0/15'' = Some benchmark"
  by code_simp

lemma chooseTunPrefix_sound:
  "chooseTunPrefix cs used = Inr x \<Longrightarrow> x \<in> {y. Some y \<in> ParsePrefix ` set cs} \<and> (\<forall>u \<in> set used. \<not> Overlaps x u)"
  by (induction cs used rule: chooseTunPrefix.induct)
    (auto simp: list_ex_iff image_iff split: option.splits if_splits)

text \<open>Two sets of addresses with no address in common.\<close>

definition disjoint_nets :: "prefix \<Rightarrow> prefix \<Rightarrow> bool" where
  "disjoint_nets p q \<longleftrightarrow> (\<forall>a. \<not> (prefix_Contains p a \<and> prefix_Contains q a))"

lemma Overlaps_disjoint: "valid_prefix p \<Longrightarrow> valid_prefix q \<Longrightarrow> Overlaps p q \<longleftrightarrow> \<not> disjoint_nets p q"
  by (auto simp: Overlaps_common_addr disjoint_nets_def)

text \<open>What the session relies on after preparation.\<close>

definition tun_prepared :: "prefix list \<Rightarrow> Plan \<Rightarrow> Plan \<Rightarrow> bool" where
  "tun_prepared ifaces p p' \<longleftrightarrow>
     (\<exists>a4 a6 fake.
        t_IPv4 (p_Tun p') = Some a4 \<and> t_IPv6 (p_Tun p') = Some a6 \<and>
        Is4 (pfx_addr a4) \<and> pfx_bits a4 = 30 \<and> Is6 (pfx_addr a6) \<and> pfx_bits a6 = 126 \<and>
        outside_private (pfx_addr a4) \<and> outside_private (pfx_addr a6) \<and>
        (t_IPv4 (p_Tun p) = None \<longrightarrow> (\<forall>i \<in> set ifaces. disjoint_nets a4 i)) \<and>
        (t_IPv6 (p_Tun p) = None \<longrightarrow> (\<forall>i \<in> set ifaces. disjoint_nets a6 i)) \<and>
        ParsePrefix (d_FakeIPRange (p_DNS p')) = Some fake \<and>
        (\<forall>a. prefix_Contains fake a \<longrightarrow> prefix_Contains benchmark a) \<and>
        (\<forall>i \<in> set ifaces. disjoint_nets fake i) \<and>
        (valid_prefix a4 \<longrightarrow> disjoint_nets a4 fake) \<and>
        t_DeviceName (p_Tun p') \<noteq> [])"

lemma Masked_V4: "b \<le> 32 \<Longrightarrow> Masked (Prefix (V4 w) b) = Prefix (V4 (push_bit (32 - b) (drop_bit (32 - b) w))) b"
  by (simp add: Masked_def)

lemma Masked_Contains: "valid_prefix p \<Longrightarrow> prefix_Contains (Masked p) a \<longleftrightarrow> prefix_Contains p a"
  by (cases p; cases "pfx_addr p"; cases a) (auto simp: Masked_def valid_prefix_def drop_push_drop)

lemma Contains_mono_V4:
  assumes "m \<le> b" "drop_bit (32 - m) p = drop_bit (32 - m) (q :: 32 word)" "prefix_Contains (Prefix (V4 q) b) a"
  shows "prefix_Contains (Prefix (V4 p) m) a"
  using assms by (cases a) (auto intro: drop_bit_coarser)

lemma fake_pool_props:
  assumes "fake_pool p = Some f"
  obtains w b where "f = Prefix (V4 w) b" "15 \<le> b" "b \<le> 32" "valid_prefix f"
    "\<forall>a. prefix_Contains f a \<longrightarrow> prefix_Contains benchmark a"
proof -
  obtain s where s: "ParsePrefix s = Some f" "Is4 (pfx_addr f)" "15 \<le> pfx_bits f"
      "prefix_Contains benchmark (pfx_addr f)"
    using assms by (auto simp: fake_pool_def benchmark_def split: option.splits if_splits)
  obtain w where "pfx_addr f = V4 w" using s(2) by (cases "pfx_addr f") auto
  then obtain b where f: "f = Prefix (V4 w) b" by (cases f) auto
  have v: "valid_prefix f" using s(1) by (rule ParsePrefix_valid)
  show thesis
  proof
    show "\<forall>a. prefix_Contains f a \<longrightarrow> prefix_Contains benchmark a"
      using s(3,4) unfolding f benchmark_def by (auto intro: Contains_mono_V4 [of 15 b _ w])
  qed (use f v s in \<open>auto simp: valid_prefix_def\<close>)
qed

lemma finish_tun_ok:
  assumes "finish_tun fake p = (p', None)" "fake_pool q = Some fake"
  shows "\<exists>a4 a6. t_IPv4 (p_Tun p) = Some a4 \<and> t_IPv6 (p_Tun p) = Some a6 \<and> \<not> bad_subnets fake a4 a6 \<and>
    outside_private (pfx_addr a4) \<and> outside_private (pfx_addr a6) \<and>
    t_IPv4 (p_Tun p') = Some a4 \<and> t_IPv6 (p_Tun p') = Some a6 \<and> t_DeviceName (p_Tun p') \<noteq> [] \<and>
    ParsePrefix (d_FakeIPRange (p_DNS p')) = Some (Masked fake)"
proof -
  obtain w b where "fake = Prefix (V4 w) b" "b \<le> 32" using assms(2) by (rule fake_pool_props)
  then have "ParsePrefix (prefix_String (Masked fake)) = Some (Masked fake)"
    by (simp add: Masked_V4 ParsePrefix_V4_String)
  then show ?thesis
    using assms(1) by (auto simp: finish_tun_def TunDevice_def split: option.splits if_splits)
qed

lemma choose4_ok:
  assumes "choose4 used p = (p', None)"
  obtains a4 where "t_IPv4 (p_Tun p') = Some a4" "t_IPv6 (p_Tun p') = t_IPv6 (p_Tun p)"
    "t_IPv4 (p_Tun p) = None \<longrightarrow> valid_prefix a4 \<and> (\<forall>u \<in> set used. \<not> Overlaps a4 u)"
  using assms by (auto simp: choose4_def dest!: chooseTunPrefix_sound dest: ParsePrefix_valid [OF sym]
      split: if_splits sum.splits)

lemma choose6_ok:
  assumes "choose6 used p = (p', None)"
  obtains a6 where "t_IPv6 (p_Tun p') = Some a6" "t_IPv4 (p_Tun p') = t_IPv4 (p_Tun p)"
    "t_IPv6 (p_Tun p) = None \<longrightarrow> valid_prefix a6 \<and> (\<forall>u \<in> set used. \<not> Overlaps a6 u)"
  using assms by (auto simp: choose6_def dest!: chooseTunPrefix_sound dest: ParsePrefix_valid [OF sym]
      split: if_splits sum.splits)

lemma map_prod_Some_None: "map_prod Some id r = (Some p', None) \<longleftrightarrow> r = (p', None)"
  by (cases r) auto

lemma PrepareTun_parts:
  assumes "PrepareTun (Some addrs) (Some p) = (Some p', None)" "t_Enabled (p_Tun p)"
  obtains ifaces fake p1 p2 where "map ParsePrefix addrs = map Some ifaces" "fake_pool p = Some fake"
    "\<not> list_ex (Overlaps fake) ifaces" "choose4 (ifaces @ [fake]) p = (p1, None)"
    "choose6 (ifaces @ [fake]) p1 = (p2, None)" "finish_tun fake p2 = (p', None)"
  using assms by (auto simp: PrepareTun_def Let_def those_Some_iff map_prod_Some_None split: option.splits if_splits prod.splits)


definition sample_tun_plan :: Plan where
  "sample_tun_plan = sample_plan\<lparr>p_Tun := zero_Tun\<lparr>t_Enabled := True\<rparr>\<rparr>"

text \<open>A machine with an interface on the first IPv4 pool.\<close>

definition busy_addrs :: "string list" where
  "busy_addrs = [''127.0.0.1/8'', ''192.0.2.1/30'', ''::1/128'']"


section \<open>Restarts keep the choice\<close>

lemma Masked_idem: "b \<le> 32 \<Longrightarrow> Masked (Masked (Prefix (V4 w) b)) = Masked (Prefix (V4 w) b)"
  by (simp add: Masked_V4 drop_push_drop)

lemma Overlaps_Masked:
  assumes "b \<le> 32" "n \<le> 32"
  shows "Overlaps (Prefix (V4 a) n) (Masked (Prefix (V4 w) b)) \<longleftrightarrow> Overlaps (Prefix (V4 a) n) (Prefix (V4 w) b)"
proof -
  have "drop_bit (32 - min n b) (push_bit (32 - b) (drop_bit (32 - b) w)) = drop_bit (32 - min n b) w"
    by (rule drop_bit_coarser [OF drop_push_drop]) simp
  then show ?thesis using assms by (simp add: Masked_V4 Overlaps_V4)
qed

lemma finish_tun_again:
  assumes fin: "finish_tun fake p = (p', None)" and fake: "fake = Prefix (V4 w) b" "b \<le> 32"
  shows "finish_tun (Masked fake) p' = (p', None)"
proof -
  obtain a4 a6 where a: "t_IPv4 (p_Tun p) = Some a4" "t_IPv6 (p_Tun p) = Some a6" "\<not> bad_subnets fake a4 a6"
      "list_all outside_private [pfx_addr a4, pfx_addr a6]"
    and p': "p' = p\<lparr>p_Tun := (p_Tun p)\<lparr>t_DeviceName :=
                 (if t_DeviceName (p_Tun p) = [] then TunDevice else t_DeviceName (p_Tun p))\<rparr>,
               p_DNS := (p_DNS p)\<lparr>d_FakeIPRange := prefix_String (Masked fake)\<rparr>\<rparr>"
    using fin by (auto simp: finish_tun_def split: option.splits if_splits)
  obtain x where "a4 = Prefix (V4 x) 30"
    using a(3) by (cases a4; cases "pfx_addr a4") (auto simp: bad_subnets_def)
  then have "\<not> bad_subnets (Masked fake) a4 a6" using a(3) fake by (simp add: bad_subnets_def Overlaps_Masked)
  then show ?thesis
    using a fake by (simp add: p' finish_tun_def Masked_idem TunDevice_def)
qed

lemma fake_pool_again:
  assumes "fake_pool p = Some fake" "ParsePrefix (d_FakeIPRange (p_DNS p')) = Some (Masked fake)"
  shows "fake_pool p' = Some (Masked fake)"
proof -
  obtain w b where f: "fake = Prefix (V4 w) b" "15 \<le> b" "b \<le> 32" "valid_prefix fake"
      "\<forall>a. prefix_Contains fake a \<longrightarrow> prefix_Contains benchmark a"
    using assms(1) by (rule fake_pool_props)
  have "d_FakeIPRange (p_DNS p') \<noteq> []"
  proof
    assume "d_FakeIPRange (p_DNS p') = []"
    moreover have "ParsePrefix [] = None" by code_simp
    ultimately show False using assms(2) by simp
  qed
  moreover have "prefix_Contains benchmark (pfx_addr (Masked fake))"
    using f by (simp add: Masked_V4 drop_push_drop)
  ultimately show ?thesis using assms(2) f(2,3) by (simp add: fake_pool_def f(1) Masked_V4 benchmark_def)
qed

text \<open>
  A plan that \<open>PrepareTun\<close> has prepared is kept unchanged by every later \<open>PrepareTun\<close>,
  whatever the interfaces are by then: a restart keeps the adapter addresses, the device name and
  the pool, and fails only if an interface now overlaps the fake-IP pool.
\<close>

theorem PrepareTun_retains:
  assumes "PrepareTun (Some addrs) (Some p) = (Some p', None)" "t_Enabled (p_Tun p)"
    "map ParsePrefix addrs' = map Some ifaces'"
  shows "PrepareTun (Some addrs') (Some p') =
    (Some p', if list_ex (Overlaps (the (fake_pool p'))) ifaces' then Some TunFakeOverlap else None)"
proof -
  obtain ifs fake p1 p2 where f: "fake_pool p = Some fake" and c4: "choose4 (ifs @ [fake]) p = (p1, None)"
    and c6: "choose6 (ifs @ [fake]) p1 = (p2, None)" and fin: "finish_tun fake p2 = (p', None)"
    and "map ParsePrefix addrs = map Some ifs" "\<not> list_ex (Overlaps fake) ifs"
    using assms(1,2) by (rule PrepareTun_parts)
  obtain w b where fk: "fake = Prefix (V4 w) b" and "15 \<le> b" and b: "b \<le> 32" and "valid_prefix fake"
      "\<forall>a. prefix_Contains fake a \<longrightarrow> prefix_Contains benchmark a"
    using f by (rule fake_pool_props)
  have f': "fake_pool p' = Some (Masked fake)"
    using finish_tun_ok [OF fin f] by (intro fake_pool_again [OF f]) blast
  have s: "t_IPv4 (p_Tun p') \<noteq> None" "t_IPv6 (p_Tun p') \<noteq> None" using finish_tun_ok [OF fin f] by auto
  have "t_Enabled (p_Tun p1)" using c4 assms(2) by (auto simp: choose4_def split: if_splits sum.splits)
  then have "t_Enabled (p_Tun p2)" using c6 by (auto simp: choose6_def split: if_splits sum.splits)
  then have en: "t_Enabled (p_Tun p')" using fin by (auto simp: finish_tun_def split: option.splits if_splits)
  have "those (map ParsePrefix addrs') = Some ifaces'" using assms(3) by (simp add: those_Some_iff)
  with en s f' finish_tun_again [OF fin fk b] show ?thesis
    by (simp add: PrepareTun_def choose4_def choose6_def Let_def)
qed

theorem PrepareTun_retains_witness:
  "\<exists>p'. PrepareTun (Some busy_addrs) (Some sample_tun_plan) = (Some p', None) \<and>
     PrepareTun (Some [''192.0.2.5/30'']) (Some p') = (Some p', None)"
proof -
  let ?r = "PrepareTun (Some busy_addrs) (Some sample_tun_plan)"
  let ?i = "map (the \<circ> ParsePrefix) [''192.0.2.5/30'']"
  have "Option.is_none (snd ?r) \<and> \<not> Option.is_none (fst ?r)" by code_simp
  then have r: "?r = (Some (the (fst ?r)), None)" by (cases ?r) (auto simp: Option.is_none_def)
  have i: "map ParsePrefix [''192.0.2.5/30''] = map Some ?i" by code_simp
  have e: "t_Enabled (p_Tun sample_tun_plan)" by code_simp
  have "\<not> list_ex (Overlaps (the (fake_pool (the (fst ?r))))) ?i" by code_simp
  then show ?thesis using PrepareTun_retains [OF r e i] r by auto
qed

end
