(* ===== verification/EngineCatalog.thy ===== *)
theory EngineCatalog
  imports PlanSpec
begin

text \<open>
  Engine capabilities and engine selection: \<open>engine/catalog.go\<close> and the Linux entry that
  \<open>engine/catalog_linux.go\<close> adds at start-up.  The argument \<open>linux\<close> says whether the
  program was built for Linux.
\<close>

section \<open>The capability matrix\<close>

record Availability =
  a_Kind :: Kind
  a_Path :: string
  a_Version :: Version
  a_Usable :: bool
  a_Reason :: string
  a_BuildTags :: "string list"

abbreviation all_true :: "string list \<Rightarrow> bool go_map" where
  "all_true ks \<equiv> map (\<lambda>k. (k, True)) ks"

definition Catalog :: "bool \<Rightarrow> Capabilities go_map" where
  "Catalog linux =
     [(KindMihomo, \<lparr>c_Kind = KindMihomo, c_MinVersion = ''1.19.0'',
         c_Protocols = all_true [ProtocolVLESS, ProtocolVMess, ProtocolTrojan, ProtocolShadowsocks,
           ProtocolHysteria2, ProtocolTUIC, ProtocolWireGuard, ProtocolSOCKS5, ProtocolHTTP, ProtocolDirect],
         c_Features = all_true [FeatureTun, FeatureFakeIP, FeatureRuleSets, FeatureProxyProviders,
           FeatureURLTest, FeatureLatencyTest, FeatureHotApply, FeatureGeoData, FeatureFallbackGroup,
           FeatureLoadBalance, FeatureXHTTP, FeatureVLESSEncrypt, FeatureAmneziaWG, FeaturePrivateControl]\<rparr>),
      (KindSingBox, \<lparr>c_Kind = KindSingBox, c_MinVersion = ''1.12.0'',
         c_Protocols = all_true [ProtocolVLESS, ProtocolVMess, ProtocolTrojan, ProtocolShadowsocks,
           ProtocolHysteria2, ProtocolTUIC, ProtocolWireGuard, ProtocolSOCKS5, ProtocolHTTP,
           ProtocolAnyTLS, ProtocolDirect],
         c_Features = all_true [FeatureTun, FeatureFakeIP, FeatureRuleSets, FeatureURLTest,
           FeatureLatencyTest, FeatureGeoData, FeaturePerAppRouting, FeatureTLSFragment]\<rparr>),
      (KindXray, \<lparr>c_Kind = KindXray, c_MinVersion = ''26.3.27'',
         c_Protocols = all_true [ProtocolVLESS, ProtocolVMess, ProtocolTrojan, ProtocolShadowsocks,
           ProtocolHysteria2, ProtocolWireGuard, ProtocolSOCKS5, ProtocolHTTP, ProtocolDirect,
           ProtocolXrayProfile],
         c_Features = all_true ([FeatureURLTest, FeatureLoadBalance, FeatureLatencyTest, FeatureGeoData,
           FeatureTLSFragment, FeatureXHTTP, FeatureVLESSEncrypt, FeaturePrivateControl]
           @ (if linux then [FeatureTun] else []))\<rparr>)]"

definition zero_Capabilities :: Capabilities where
  "zero_Capabilities = \<lparr>c_Kind = [], c_MinVersion = [], c_Protocols = [], c_Features = []\<rparr>"

definition BuildCapabilities :: "bool \<Rightarrow> Kind \<Rightarrow> Version \<Rightarrow> string list \<Rightarrow> Capabilities" where
  "BuildCapabilities linux kind version tags =
     (let caps = (case map_of (Catalog linux) kind of Some c \<Rightarrow> c | None \<Rightarrow> zero_Capabilities) in
      if kind = KindSingBox \<and> HasPrefix (v_PreRelease version) ''lx.'' \<and>
         \<not> version_Less version \<lparr>v_Raw = [], v_Major = 1, v_Minor = 14, v_Patch = 3, v_PreRelease = []\<rparr>
      then caps\<lparr>c_Features :=
          AList.update FeatureAmneziaWG (''with_awg'' \<in> set tags)
            (AList.update FeatureVLESSEncrypt True
              (AList.update FeatureXHTTP (''with_xhttp'' \<in> set tags) (c_Features caps)))\<rparr>
      else caps)"

definition DefaultPreference :: "Kind list" where
  "DefaultPreference = [KindSingBox, KindXray, KindMihomo]"

definition PrivatePreference :: "Kind list" where
  "PrivatePreference = [KindSingBox, KindMihomo, KindXray]"

section \<open>What an engine cannot carry\<close>

definition stack_missing :: "Kind \<Rightarrow> Plan \<Rightarrow> bool" where
  "stack_missing kind p \<longleftrightarrow> t_Enabled (p_Tun p) \<and> t_Stack (p_Tun p) \<noteq> [] \<and>
     (kind = KindXray \<and> t_Stack (p_Tun p) \<noteq> ''gvisor'' \<or> kind = KindSingBox \<and> t_Stack (p_Tun p) = ''mips'')"

definition insecure_tls :: "Outbound \<Rightarrow> bool" where
  "insecure_tls x \<longleftrightarrow> tls_Insecure (o_TLS x) \<and> \<not> tls_Reality (o_TLS x) \<and>
     (tls_Enabled (o_TLS x) \<or> o_Protocol x = ProtocolTrojan \<or> o_Protocol x = ProtocolHysteria2)"

definition junk_amnezia :: "Outbound \<Rightarrow> bool" where
  "junk_amnezia x \<longleftrightarrow>
     (case o_Amnezia x of
        None \<Rightarrow> False
      | Some a \<Rightarrow> awg_J1 a \<noteq> [] \<or> awg_J2 a \<noteq> [] \<or> awg_J3 a \<noteq> [] \<or> awg_Itime a \<noteq> 0)"

definition Missing :: "Capabilities \<Rightarrow> Plan \<Rightarrow> string list" where
  "Missing c p = sort (
     (if stack_missing (c_Kind c) p then [''TUN stack '' @ t_Stack (p_Tun p)] else []) @
     (if c_Kind c = KindXray \<and> list_ex insecure_tls (p_Outbounds p)
      then [''TLS verification disabled (removed by Xray)''] else []) @
     (if c_Kind c = KindSingBox \<and> list_ex junk_amnezia (p_Outbounds p)
      then [''AmneziaWG J1/J2/J3/Itime parameters''] else []) @
     map (\<lambda>x. ''protocol '' @ x) (filter (\<lambda>x. \<not> SupportsProtocol c x) (Protocols p)) @
     map (\<lambda>x. ''feature '' @ x) (filter (\<lambda>x. \<not> Supports c x) (RequiredFeatures p)))"

section \<open>Selection\<close>

record Selection =
  sel_Kind :: Kind
  sel_Reason :: string
  sel_Rejected :: "string list"

datatype select_err = SelectNilPlan | SelectNoOutbounds | SelectNoEngine "string list"

definition zero_Selection :: Selection where
  "zero_Selection = \<lparr>sel_Kind = [], sel_Reason = [], sel_Rejected = []\<rparr>"

definition by_kind :: "Availability list \<Rightarrow> Availability go_map" where
  "by_kind available = foldl (\<lambda>m a. AList.update (a_Kind a) a m) [] available"

text \<open>Why the loop skips an engine, or \<open>None\<close> if it takes it.\<close>

definition rejection :: "bool \<Rightarrow> Plan \<Rightarrow> Availability go_map \<Rightarrow> Kind \<Rightarrow> string option" where
  "rejection linux p byKind kind =
     (case map_of byKind kind of
        None \<Rightarrow> Some (kind @ '': '' @ ''not installed'')
      | Some avail \<Rightarrow>
          if \<not> a_Usable avail then
            Some (kind @ '': '' @ (if a_Reason avail \<noteq> [] then a_Reason avail else ''not installed''))
          else if map_of (Catalog linux) kind = None then Some (kind @ '': no capability matrix'')
          else
            (let caps = BuildCapabilities linux kind (a_Version avail) (a_BuildTags avail) in
             if (case ParseVersion (c_MinVersion caps) of
                   Some lowest \<Rightarrow> version_Less (a_Version avail) lowest | None \<Rightarrow> False)
             then Some (kind @ '': version '' @ v_Raw (a_Version avail) @ '' is older than '' @ c_MinVersion caps)
             else
               (let missing = Missing caps p in
                if missing \<noteq> [] then Some (kind @ '': cannot carry '' @ Join missing '', '') else None)))"

fun select_loop :: "bool \<Rightarrow> Plan \<Rightarrow> Availability go_map \<Rightarrow> string list \<Rightarrow> Kind list
    \<Rightarrow> Selection \<times> select_err option" where
  "select_loop linux p byKind rejected [] =
     (zero_Selection\<lparr>sel_Rejected := rejected\<rparr>, Some (SelectNoEngine rejected))"
| "select_loop linux p byKind rejected (kind # rest) =
     (case rejection linux p byKind kind of
        Some why \<Rightarrow> select_loop linux p byKind (rejected @ [why]) rest
      | None \<Rightarrow>
          (\<lparr>sel_Kind = kind,
            sel_Reason = kind @ '' carries '' @ Itoa (int (length (p_Outbounds p))) @ '' outbounds and ''
              @ Itoa (int (length (p_Groups p))) @ '' groups'',
            sel_Rejected = rejected\<rparr>, None))"

definition SelectEngine :: "bool \<Rightarrow> Plan option \<Rightarrow> Availability list \<Rightarrow> Kind list
    \<Rightarrow> Selection \<times> select_err option" where
  "SelectEngine linux plan available preference =
     (case plan of
        None \<Rightarrow> (zero_Selection, Some SelectNilPlan)
      | Some p \<Rightarrow>
          if p_Outbounds p = [] then (zero_Selection, Some SelectNoOutbounds)
          else select_loop linux p (by_kind available) [] preference)"

section \<open>Capabilities carry a plan\<close>

text \<open>What it means for capabilities to carry a plan, without the list of complaints.\<close>

definition carries :: "Capabilities \<Rightarrow> Plan \<Rightarrow> bool" where
  "carries c p \<longleftrightarrow>
     (\<forall>x \<in> set (p_Outbounds p). SupportsProtocol c (o_Protocol x)) \<and>
     (\<forall>f \<in> set (RequiredFeatures p). Supports c f) \<and>
     \<not> stack_missing (c_Kind c) p \<and>
     (c_Kind c = KindXray \<longrightarrow> (\<forall>x \<in> set (p_Outbounds p). \<not> insecure_tls x)) \<and>
     (c_Kind c = KindSingBox \<longrightarrow> (\<forall>x \<in> set (p_Outbounds p). \<not> junk_amnezia x))"

lemma sort_eq_Nil: "sort xs = [] \<longleftrightarrow> xs = []"
  by (metis set_empty set_sort)

lemma Missing_carries: "Missing c p = [] \<longleftrightarrow> carries c p"
  unfolding Missing_def sort_eq_Nil append_is_Nil_conv if_Nil map_is_Nil_conv filter_eq_Nil_iff carries_def
  by (auto simp: Protocols_def list_ex_iff)

text \<open>The features a plan requires, by the settings that ask for them.\<close>

lemma RequiredFeatures_set:
  "f \<in> set (RequiredFeatures p) \<longleftrightarrow>
     f = FeatureTun \<and> t_Enabled (p_Tun p) \<or>
     f = FeatureFakeIP \<and> d_Mode (p_DNS p) = DNSFakeIP \<or>
     f = FeatureRuleSets \<and> (\<exists>r \<in> set (p_Rules p). r_Type r = RuleRuleSet) \<or>
     (\<exists>g \<in> set (p_Groups p). f \<in> set (group_features g)) \<or>
     (\<exists>x \<in> set (p_Outbounds p). f \<in> set (outbound_features x)) \<or>
     f = FeatureTLSFragment \<and> f_Enabled (op_Fragment (p_Options p)) \<or>
     f = FeaturePrivateControl \<and> p_PrivateControl p \<or>
     f = FeaturePerAppRouting \<and> (t_IncludeApps (p_Tun p) \<noteq> [] \<or> t_ExcludeApps (p_Tun p) \<noteq> [])"
proof -
  have i: "f \<in> set (if c then [x] else []) \<longleftrightarrow> f = x \<and> c" for c and x :: string
    by simp
  show ?thesis
    unfolding RequiredFeatures_def set_remdups set_append Un_iff set_concat set_map UN_iff bex_simps i
    by (simp only: conj_commute disj_assoc bex_simps)
qed

section \<open>Selection takes the first engine that fits\<close>

definition latest :: "Availability list \<Rightarrow> Kind \<Rightarrow> Availability option" where
  "latest available kind = find (\<lambda>a. a_Kind a = kind) (rev available)"

text \<open>An engine fits: installed and usable, known, new enough, and able to carry the plan.\<close>

definition engine_fits :: "bool \<Rightarrow> Plan \<Rightarrow> Availability list \<Rightarrow> Kind \<Rightarrow> bool" where
  "engine_fits linux p available kind \<longleftrightarrow>
     (\<exists>a. latest available kind = Some a \<and> a_Usable a \<and> kind \<in> dom (map_of (Catalog linux)) \<and>
        (let caps = BuildCapabilities linux kind (a_Version a) (a_BuildTags a) in
         (\<forall>lowest. ParseVersion (c_MinVersion caps) = Some lowest \<longrightarrow> \<not> version_Less (a_Version a) lowest) \<and>
         carries caps p))"

lemma map_of_by_kind: "map_of (by_kind available) kind = latest available kind"
proof -
  have "map_of (foldl (\<lambda>m a. AList.update (a_Kind a) a m) m0 xs) kind =
      (case find (\<lambda>a. a_Kind a = kind) (rev xs) of Some a \<Rightarrow> Some a | None \<Rightarrow> map_of m0 kind)" for m0 xs
    by (induction xs arbitrary: m0) (auto simp: update_conv' find_append split: option.splits)
  from this [of "[]" available] show ?thesis by (simp add: by_kind_def latest_def split: option.splits)
qed

lemma rejection_None: "rejection linux p (by_kind available) kind = None \<longleftrightarrow> engine_fits linux p available kind"
  by (auto simp: rejection_def engine_fits_def map_of_by_kind Let_def Missing_carries split: option.splits)

lemma select_loop_first:
  "select_loop linux p (by_kind available) rejected preference =
     (case find (engine_fits linux p available) preference of
        Some k \<Rightarrow>
          (\<lparr>sel_Kind = k,
            sel_Reason = k @ '' carries '' @ Itoa (int (length (p_Outbounds p))) @ '' outbounds and ''
              @ Itoa (int (length (p_Groups p))) @ '' groups'',
            sel_Rejected = rejected @ map (\<lambda>k. the (rejection linux p (by_kind available) k))
              (takeWhile (\<lambda>k. \<not> engine_fits linux p available k) preference)\<rparr>, None)
      | None \<Rightarrow>
          (let rs = rejected @ map (\<lambda>k. the (rejection linux p (by_kind available) k)) preference
           in (zero_Selection\<lparr>sel_Rejected := rs\<rparr>, Some (SelectNoEngine rs))))"
proof (induction preference arbitrary: rejected)
  case (Cons k ks)
  show ?case
    using Cons rejection_None [of linux p available k]
    by (cases "rejection linux p (by_kind available) k") (auto simp: Let_def split: option.splits)
qed (simp add: Let_def)

text \<open>
  C19. For a plan with outbounds, \<open>SelectEngine\<close> selects the first engine of the preference order
  that is installed, usable, new enough and carries the whole plan, after one rejection reason for
  each engine it skipped; it fails exactly when no engine of the order fits, and then names one
  reason per engine.
\<close>


theorem SelectEngine_first_fit:
  assumes "p_Outbounds p \<noteq> []"
  shows "map_prod sel_Kind (\<lambda>e. e \<noteq> None) (SelectEngine linux (Some p) available preference) =
      (case find (engine_fits linux p available) preference of Some k \<Rightarrow> (k, False) | None \<Rightarrow> ([], True)) \<and>
    length (sel_Rejected (fst (SelectEngine linux (Some p) available preference))) =
      length (takeWhile (\<lambda>k. \<not> engine_fits linux p available k) preference)"
proof -
  have "length (takeWhile (\<lambda>k. \<not> engine_fits linux p available k) preference) = length preference"
    if "find (engine_fits linux p available) preference = None"
    using that by (metis find_None_iff_all takeWhile_eq_all_conv)
  with assms show ?thesis
    by (auto simp: SelectEngine_def select_loop_first Let_def zero_Selection_def split: option.splits)
qed

text \<open>The shipped engines, with sing-box too old for the plan.\<close>

definition sample_available :: "Availability list" where
  "sample_available =
     [\<lparr>a_Kind = KindSingBox, a_Path = ''/opt/sing-box'', a_Version = \<lparr>v_Raw = ''1.11.0'', v_Major = 1, v_Minor = 11,
        v_Patch = 0, v_PreRelease = []\<rparr>, a_Usable = True, a_Reason = [], a_BuildTags = []\<rparr>,
      \<lparr>a_Kind = KindXray, a_Path = ''/opt/xray'', a_Version = \<lparr>v_Raw = ''26.3.27'', v_Major = 26, v_Minor = 3,
        v_Patch = 27, v_PreRelease = []\<rparr>, a_Usable = True, a_Reason = [], a_BuildTags = []\<rparr>]"

theorem SelectEngine_first_fit_witness:
  "p_Outbounds sample_plan \<noteq> [] \<and>
   map_prod sel_Kind (\<lambda>e. e \<noteq> None) (SelectEngine True (Some sample_plan) sample_available DefaultPreference) = (KindXray, False) \<and>
   find (engine_fits True sample_plan sample_available) DefaultPreference = Some KindXray"
proof -
  have ne: "p_Outbounds sample_plan \<noteq> []" by code_simp
  have e: "map_prod sel_Kind (\<lambda>e. e \<noteq> None) (SelectEngine True (Some sample_plan) sample_available DefaultPreference)
      = (KindXray, False)" by code_simp
  show ?thesis
    using SelectEngine_first_fit [OF ne, of True sample_available DefaultPreference] ne e
    by (auto split: option.splits)
qed

end
