(* ===== verification/EngineBypass.thy ===== *)
theory EngineBypass
  imports PlanSpec
begin

text \<open>
  The zapret wrapper, \<open>engine/bypass/bypass.go\<close>: bypass outbounds become loopback SOCKS5
  outbounds, one tpws process per distinct strategy.  The wrapped engine and the process
  supervision are operations of an environment with its own state \<open>'w\<close>, so the order of calls
  can be observed.  A Go map is walked in list order; a nil pointer dereference is \<open>None\<close>.
\<close>

section \<open>Arguments and keys\<close>

definition Has :: "Plan option \<Rightarrow> bool" where
  "Has plan \<longleftrightarrow> (case plan of None \<Rightarrow> False | Some p \<Rightarrow> list_ex (\<lambda>x. o_Protocol x = ProtocolBypass) (p_Outbounds p))"

definition Args :: "BypassStrategy \<Rightarrow> int \<Rightarrow> string list" where
  "Args s port =
     [''--socks'', ''--bind-addr=127.0.0.1'', ''--port='' @ Itoa port] @
     (if bp_SplitPos s \<noteq> [] then [''--split-pos='' @ Join (bp_SplitPos s) '',''] else []) @
     (if bp_Disorder s then [''--disorder''] else []) @
     (if bp_OOB s then [''--oob''] else []) @
     (if bp_TLSRecord s \<noteq> [] then [''--tlsrec='' @ bp_TLSRecord s] else []) @
     (if bp_HostCase s then [''--hostcase''] else []) @
     (if bp_DomainCase s then [''--domcase''] else []) @
     (if bp_MethodEOL s then [''--methodeol''] else [])"

definition strategy_key :: "BypassStrategy \<Rightarrow> string" where
  "strategy_key s = Join (Args s 0) '' ''"

section \<open>Rewriting\<close>

definition rewrite_outbound :: "int go_map \<Rightarrow> Outbound \<Rightarrow> Outbound option" where
  "rewrite_outbound ports x =
     (if o_Protocol x \<noteq> ProtocolBypass then Some x
      else
        (case o_Bypass x of
           None \<Rightarrow> None
         | Some s \<Rightarrow>
             (let port0 = (case map_of ports (strategy_key s) of Some n \<Rightarrow> n | None \<Rightarrow> 0);
                  port = (if port0 = 0 then 1 else port0)
              in Some (zero_Outbound\<lparr>o_ID := o_ID x, o_Name := o_Name x, o_Protocol := ProtocolSOCKS5,
                         o_Server := ''127.0.0.1'', o_Port := of_int port\<rparr>))))"

definition Rewrite :: "Plan \<Rightarrow> int go_map \<Rightarrow> Plan option" where
  "Rewrite p ports =
     map_option (\<lambda>xs. p\<lparr>p_Outbounds := xs\<rparr>) (those (map (rewrite_outbound ports) (p_Outbounds p)))"

section \<open>The wrapping engine\<close>

text \<open>One running tpws: its port and the handle of its process.\<close>

record 'h proxy =
  px_port :: int
  px_proc :: 'h

text \<open>
  What the wrapper calls: \<open>Validate\<close>, \<open>Apply\<close>, \<open>Stop\<close> and \<open>Close\<close> of the engine inside,
  starting a tpws that listens (\<open>start\<close>, which fails with an error) and stopping one.
\<close>

record ('w, 'e, 'h) bypass_env =
  be_validate :: "Plan \<Rightarrow> 'w \<Rightarrow> 'e option \<times> 'w"
  be_apply :: "Plan \<Rightarrow> 'w \<Rightarrow> 'e option \<times> 'w"
  be_stop :: "'w \<Rightarrow> 'e option \<times> 'w"
  be_close :: "'w \<Rightarrow> 'e option \<times> 'w"
  be_start :: "BypassStrategy \<Rightarrow> 'w \<Rightarrow> ('e + 'h proxy) \<times> 'w"
  be_stop_proxy :: "'h proxy \<Rightarrow> 'w \<Rightarrow> 'w"

text \<open>\<open>None\<close> is the panic of \<open>Rewrite\<close>.\<close>

definition bypass_Validate :: "('w, 'e, 'h) bypass_env \<Rightarrow> Plan \<Rightarrow> 'w \<Rightarrow> ('e option \<times> 'w) option" where
  "bypass_Validate env p w = map_option (\<lambda>q. be_validate env q w) (Rewrite p [])"

definition needed :: "Plan \<Rightarrow> BypassStrategy go_map" where
  "needed p =
     foldl (\<lambda>m x. case o_Bypass x of
              Some s \<Rightarrow> if o_Protocol x = ProtocolBypass then AList.update (strategy_key s) s m else m
            | None \<Rightarrow> m) [] (p_Outbounds p)"

fun stop_unneeded :: "('w, 'e, 'h) bypass_env \<Rightarrow> BypassStrategy go_map \<Rightarrow> 'h proxy go_map \<Rightarrow> 'w \<Rightarrow> 'h proxy go_map \<times> 'w" where
  "stop_unneeded env need [] w = ([], w)"
| "stop_unneeded env need ((k, px) # procs) w =
     (if map_of need k = None then stop_unneeded env need procs (be_stop_proxy env px w)
      else (let (procs', w') = stop_unneeded env need procs w in ((k, px) # procs', w')))"

fun start_needed :: "('w, 'e, 'h) bypass_env \<Rightarrow> BypassStrategy go_map \<Rightarrow> 'h proxy go_map \<Rightarrow> int go_map \<Rightarrow> 'w
    \<Rightarrow> 'e option \<times> 'h proxy go_map \<times> int go_map \<times> 'w" where
  "start_needed env [] procs ports w = (None, procs, ports, w)"
| "start_needed env ((k, s) # need) procs ports w =
     (case map_of procs k of
        Some px \<Rightarrow> start_needed env need procs (AList.update k (px_port px) ports) w
      | None \<Rightarrow>
          (case be_start env s w of
             (Inl e, w') \<Rightarrow> (Some e, procs, ports, w')
           | (Inr px, w') \<Rightarrow>
               start_needed env need (AList.update k px procs) (AList.update k (px_port px) ports) w'))"

definition bypass_Apply :: "('w, 'e, 'h) bypass_env \<Rightarrow> Plan \<Rightarrow> 'h proxy go_map \<Rightarrow> 'w
    \<Rightarrow> ('e option \<times> 'h proxy go_map \<times> 'w) option" where
  "bypass_Apply env p procs w =
     (let need = needed p;
          (procs1, w1) = stop_unneeded env need procs w
      in case start_needed env need procs1 [] w1 of
           (Some e, procs2, _, w2) \<Rightarrow> Some (Some e, procs2, w2)
         | (None, procs2, ports, w2) \<Rightarrow>
             map_option (\<lambda>q. case be_apply env q w2 of (e, w3) \<Rightarrow> (e, procs2, w3)) (Rewrite p ports))"

definition stopAll :: "('w, 'e, 'h) bypass_env \<Rightarrow> 'h proxy go_map \<Rightarrow> 'w \<Rightarrow> 'h proxy go_map \<times> 'w" where
  "stopAll env procs w = ([], foldl (\<lambda>w (k, px). be_stop_proxy env px w) w procs)"

definition bypass_Stop :: "('w, 'e, 'h) bypass_env \<Rightarrow> 'h proxy go_map \<Rightarrow> 'w \<Rightarrow> 'e option \<times> 'h proxy go_map \<times> 'w" where
  "bypass_Stop env procs w =
     (let (e, w1) = be_stop env w; (procs', w2) = stopAll env procs w1 in (e, procs', w2))"

definition bypass_Close :: "('w, 'e, 'h) bypass_env \<Rightarrow> 'h proxy go_map \<Rightarrow> 'w \<Rightarrow> 'e option \<times> 'h proxy go_map \<times> 'w" where
  "bypass_Close env procs w =
     (let (e, w1) = be_close env w; (procs', w2) = stopAll env procs w1 in (e, procs', w2))"

section \<open>Rewriting keeps plans valid\<close>

lemma rewrite_outbound_keeps:
  "rewrite_outbound ports x = Some y \<Longrightarrow>
   o_ID y = o_ID x \<and> o_Name y = o_Name x \<and> o_Protocol y \<noteq> ProtocolBypass \<and>
   (o_Protocol x \<noteq> ProtocolBypass \<longrightarrow> y = x) \<and>
   (o_Protocol x = ProtocolBypass \<longrightarrow> o_Protocol y = ProtocolSOCKS5 \<and> o_Server y = ''127.0.0.1'')"
  by (auto simp: rewrite_outbound_def Let_def split: if_splits option.splits)

lemma Rewrite_Some:
  "Rewrite p ports = Some q \<longleftrightarrow>
     (\<exists>ys. map (rewrite_outbound ports) (p_Outbounds p) = map Some ys \<and> q = p\<lparr>p_Outbounds := ys\<rparr>)"
  by (auto simp: Rewrite_def those_Some_iff)

lemma port_word_nonzero: "0 < n \<Longrightarrow> n < 65536 \<Longrightarrow> (of_int n :: 16 word) \<noteq> 0"
proof
  assume n: "0 < n" "n < 65536" and z: "(of_int n :: 16 word) = 0"
  have "uint (of_int n :: 16 word) = n" using n by (simp add: uint_word_of_int)
  with z n show False by simp
qed

lemma loopback_server_ok: "server_ok ''127.0.0.1''"
proof -
  have "ParseIP (strip_brackets ''127.0.0.1'') \<noteq> None" by code_simp
  then show ?thesis by (simp add: server_ok_def)
qed

definition ports_ok :: "int go_map \<Rightarrow> bool" where
  "ports_ok ports \<longleftrightarrow> (\<forall>(k, n) \<in> set ports. 0 \<le> n \<and> n < 65536)"

lemma rewrite_outbound_ok:
  assumes "outbound_ok x" "ports_ok ports"
  obtains y where "rewrite_outbound ports x = Some y" "outbound_ok y"
proof (cases "o_Protocol x = ProtocolBypass")
  case False
  then show ?thesis using that [of x] assms by (simp add: rewrite_outbound_def)
next
  case True
  then obtain s where s: "o_Bypass x = Some s" using assms(1) by (auto simp: outbound_ok_def)
  define n where "n = (case map_of ports (strategy_key s) of Some n \<Rightarrow> n | None \<Rightarrow> 0)"
  have "0 \<le> n \<and> n < 65536"
    using assms(2) by (auto simp: n_def ports_ok_def dest!: map_of_SomeD split: option.split)
  then have "(of_int (if n = 0 then 1 else n) :: 16 word) \<noteq> 0" by (intro port_word_nonzero) auto
  then have "outbound_ok (zero_Outbound\<lparr>o_ID := o_ID x, o_Name := o_Name x, o_Protocol := ProtocolSOCKS5,
      o_Server := ''127.0.0.1'', o_Port := of_int (if n = 0 then 1 else n)\<rparr>)"
    using assms(1) loopback_server_ok
    by (simp add: outbound_ok_def zero_Outbound_def zero_TLS_def zero_Transport_def serverless_def
        MaxHeaderCount_def)
  then show ?thesis using that True s unfolding rewrite_outbound_def Let_def n_def by simp
qed

lemma those_all_Some: "list_all (\<lambda>x. \<exists>y. f x = Some y \<and> P y) xs \<Longrightarrow> \<exists>ys. map f xs = map Some ys \<and> list_all P ys"
proof (induction xs)
  case (Cons x xs)
  then obtain y ys where "f x = Some y" "P y" "map f xs = map Some ys" "list_all P ys" by auto
  then show ?case by (intro exI [of _ "y # ys"]) simp
qed simp

text \<open>Everything of a plan but its outbounds sees only their identifiers.\<close>

lemma plan_ok_cong:
  assumes "plan_ok p" "map o_ID ys = map o_ID (p_Outbounds p)" "list_all outbound_ok ys"
    "\<forall>y \<in> set ys. o_Protocol y = ProtocolXrayProfile \<longrightarrow> y \<in> set (p_Outbounds p)"
  shows "plan_ok (p\<lparr>p_Outbounds := ys\<rparr>)"
proof -
  let ?q = "p\<lparr>p_Outbounds := ys\<rparr>"
  have l: "length ys = length (p_Outbounds p)" using assms(2) by (metis length_map)
  have ids: "o_ID ` set ys = o_ID ` set (p_Outbounds p)" using assms(2) by (metis set_map)
  have t: "target_names ?q = target_names p" by (simp add: target_names_def ids)
  have g: "group_ok ?q = group_ok p" by (rule ext) (simp add: group_ok_def t)
  have r: "rule_ok ?q = rule_ok p" by (rule ext) (simp add: rule_ok_def t)
  have gg: "group_graph ?q = group_graph p" by (simp add: group_graph_def)
  have x: "(\<exists>y \<in> set ys. o_Protocol y = ProtocolXrayProfile) \<longrightarrow> length ys = 1 \<and> p_Groups p = []"
    using assms(1,4) l unfolding plan_ok_def by metis
  show ?thesis
    unfolding plan_ok_def g r gg
    using assms(1) x assms(3) unfolding plan_ok_def by (simp add: assms(2) l list_all_iff)
      (metis l length_0_conv)
qed

text \<open>
  C22. Rewriting a valid plan never dereferences a nil strategy, and the rewritten plan is valid
  again: it has the same identifiers and names in the same order, no bypass outbound, and every
  other outbound unchanged.
\<close>

theorem Rewrite_valid:
  assumes "Plan_Validate (Some p) = []" "ports_ok ports"
  shows "\<exists>q. Rewrite p ports = Some q \<and> Plan_Validate (Some q) = [] \<and> \<not> Has (Some q) \<and>
    list_all2 (\<lambda>x y. o_ID y = o_ID x \<and> o_Name y = o_Name x \<and> (o_Protocol x = ProtocolBypass \<or> y = x))
      (p_Outbounds p) (p_Outbounds q)"
proof -
  have p: "plan_ok p" using assms(1) by (simp add: validate_plan_ok)
  have "list_all (\<lambda>x. \<exists>y. rewrite_outbound ports x = Some y \<and> outbound_ok y) (p_Outbounds p)"
  proof -
    have "\<exists>y. rewrite_outbound ports x = Some y \<and> outbound_ok y" if "x \<in> set (p_Outbounds p)" for x
    proof -
      have "outbound_ok x" using p that unfolding plan_ok_def by blast
      then show ?thesis using assms(2) by (rule rewrite_outbound_ok) blast
    qed
    then show ?thesis by (simp add: list_all_iff)
  qed
  then obtain ys where ys: "map (rewrite_outbound ports) (p_Outbounds p) = map Some ys" "list_all outbound_ok ys"
    using those_all_Some by blast
  have "list_all2 (=) (map (rewrite_outbound ports) (p_Outbounds p)) (map Some ys)"
    unfolding ys(1) by (simp add: list.rel_eq)
  then have r: "list_all2 (\<lambda>x y. rewrite_outbound ports x = Some y) (p_Outbounds p) ys"
    by (simp add: list.rel_map)
  have k: "list_all2 (\<lambda>x y. o_ID y = o_ID x \<and> o_Name y = o_Name x \<and> (o_Protocol x = ProtocolBypass \<or> y = x))
      (p_Outbounds p) ys"
    using r by (rule list_all2_mono) (use rewrite_outbound_keeps in blast)
  have ids: "map o_ID ys = map o_ID (p_Outbounds p)"
    using k by (induction rule: list_all2_induct) auto
  have nb: "\<forall>y \<in> set ys. o_Protocol y \<noteq> ProtocolBypass \<and> (o_Protocol y = ProtocolXrayProfile \<longrightarrow> y \<in> set (p_Outbounds p))"
  proof
    fix y assume "y \<in> set ys"
    then obtain x where "x \<in> set (p_Outbounds p)" "rewrite_outbound ports x = Some y"
      using r by (fastforce simp: list_all2_conv_all_nth in_set_conv_nth)
    then show "o_Protocol y \<noteq> ProtocolBypass \<and> (o_Protocol y = ProtocolXrayProfile \<longrightarrow> y \<in> set (p_Outbounds p))"
      using rewrite_outbound_keeps [of ports x y] by auto
  qed
  have "plan_ok (p\<lparr>p_Outbounds := ys\<rparr>)" by (rule plan_ok_cong [OF p ids ys(2)]) (use nb in blast)
  then show ?thesis
    using ys(1) k nb by (intro exI [of _ "p\<lparr>p_Outbounds := ys\<rparr>"])
      (auto simp: Rewrite_Some validate_plan_ok Has_def list_ex_iff)
qed

definition sample_strategy :: BypassStrategy where
  "sample_strategy = \<lparr>bp_SplitPos = [''1'', ''midsld''], bp_Disorder = True, bp_OOB = False, bp_TLSRecord = ''sniext+1'',
     bp_HostCase = False, bp_DomainCase = False, bp_MethodEOL = False\<rparr>"

definition sample_bypass_plan :: Plan where
  "sample_bypass_plan = sample_plan\<lparr>p_Outbounds := [sample_outbound,
     zero_Outbound\<lparr>o_ID := ''dpi'', o_Protocol := ProtocolBypass, o_Bypass := Some sample_strategy\<rparr>]\<rparr>"

theorem Rewrite_valid_witness:
  "\<exists>q. Rewrite sample_bypass_plan [] = Some q \<and> Plan_Validate (Some q) = [] \<and> \<not> Has (Some q)"
proof -
  have v: "Plan_Validate (Some sample_bypass_plan) = []" by code_simp
  have "ports_ok []" by (simp add: ports_ok_def)
  from Rewrite_valid [OF v this] show ?thesis by blast
qed

section \<open>One process per strategy\<close>

text \<open>Validated split positions contain neither the separator of positions nor that of arguments.\<close>

definition plain_pos :: "string \<Rightarrow> bool" where
  "plain_pos s \<longleftrightarrow> CHR '','' \<notin> set s \<and> CHR '' '' \<notin> set s"

lemma digits14_plain: "digits14 s \<Longrightarrow> plain_pos s"
  by (auto simp: digits14_def plain_pos_def list_all_iff is_digit_def)

lemma signed_digits_plain:
  "HasPrefix s [c] \<Longrightarrow> c \<noteq> CHR '','' \<Longrightarrow> c \<noteq> CHR '' '' \<Longrightarrow> digits14 (drop 1 s) \<Longrightarrow> plain_pos s"
  using digits14_plain [of "drop 1 s"] by (cases s) (auto simp: plain_pos_def HasPrefix_def)

lemma offset_plain:
  "t = [] \<or> (HasPrefix t ''+'' \<or> HasPrefix t ''-'') \<and> digits14 (drop 1 t) \<Longrightarrow> plain_pos t"
  using signed_digits_plain [of t "CHR ''+''"] signed_digits_plain [of t "CHR ''-''"]
  by (cases "t = []") (simp_all add: plain_pos_def, blast)

lemma bypassPosition_plain:
  assumes "bypassPosition s"
  shows "plain_pos s"
proof -
  from assms consider "digits14 s" | "HasPrefix s ''-''" "digits14 (drop 1 s)"
    | m where "m \<in> set split_markers" "HasPrefix s m"
        "drop (length m) s = [] \<or> (HasPrefix (drop (length m) s) ''+'' \<or> HasPrefix (drop (length m) s) ''-'')
           \<and> digits14 (drop 1 (drop (length m) s))"
    unfolding bypassPosition_def list_ex_iff Let_def by blast
  then show ?thesis
  proof cases
    case 1
    then show ?thesis by (rule digits14_plain)
  next
    case 2
    then show ?thesis by (intro signed_digits_plain [of s "CHR ''-''"]) simp_all
  next
    case 3
    have "plain_pos (drop (length m) s)" using 3(3) by (rule offset_plain)
    moreover have "plain_pos m" using 3(1) by (auto simp: split_markers_def plain_pos_def)
    ultimately show ?thesis using 3(2) by (auto simp: HasPrefix_iff plain_pos_def)
  qed
qed

definition plain_strategy :: "BypassStrategy \<Rightarrow> bool" where
  "plain_strategy s \<longleftrightarrow> list_all plain_pos (bp_SplitPos s) \<and> plain_pos (bp_TLSRecord s)"

lemma bypass_ok_plain: "bypass_ok s \<Longrightarrow> plain_strategy s"
  using bypassPosition_plain by (auto simp: bypass_ok_def plain_strategy_def list_all_iff plain_pos_def)

lemma Args_no_space: "plain_strategy s \<Longrightarrow> a \<in> set (Args s 0) \<Longrightarrow> CHR '' '' \<notin> set a"
proof -
  have j: "CHR '' '' \<notin> set (Join xs '','')" if "list_all plain_pos xs" for xs
    using that by (induction xs "'',''" rule: Join.induct) (auto simp: plain_pos_def)
  have i: "Itoa 0 = ''0''" by code_simp
  show "plain_strategy s \<Longrightarrow> a \<in> set (Args s 0) \<Longrightarrow> CHR '' '' \<notin> set a"
    using j by (auto simp: Args_def plain_strategy_def plain_pos_def i split: if_splits)
qed

lemma Split_Join_comma: "list_all plain_pos xs \<Longrightarrow> xs \<noteq> [] \<Longrightarrow> Split (Join xs '','') CHR '','' = xs"
  by (rule Split_Join) (auto simp: list_all_iff plain_pos_def)

lemma Join_comma_inj:
  assumes "list_all plain_pos xs" "list_all plain_pos ys" "xs \<noteq> []" "ys \<noteq> []" "Join xs '','' = Join ys '',''"
  shows "xs = ys"
  using Split_Join_comma [OF assms(1,3)] Split_Join_comma [OF assms(2,4)] assms(5) by argo

text \<open>The flags of a strategy, read back from its arguments.\<close>

lemma Args_flags:
  "bp_Disorder s \<longleftrightarrow> ''--disorder'' \<in> set (Args s n)" "bp_OOB s \<longleftrightarrow> ''--oob'' \<in> set (Args s n)"
  "bp_HostCase s \<longleftrightarrow> ''--hostcase'' \<in> set (Args s n)" "bp_DomainCase s \<longleftrightarrow> ''--domcase'' \<in> set (Args s n)"
  "bp_MethodEOL s \<longleftrightarrow> ''--methodeol'' \<in> set (Args s n)"
  by (auto simp: Args_def)

lemma Args_split_pos:
  "filter (\<lambda>a. HasPrefix a ''--split-pos='') (Args s n) =
     (if bp_SplitPos s \<noteq> [] then [''--split-pos='' @ Join (bp_SplitPos s) '',''] else [])"
  "filter (\<lambda>a. HasPrefix a ''--tlsrec='') (Args s n) =
     (if bp_TLSRecord s \<noteq> [] then [''--tlsrec='' @ bp_TLSRecord s] else [])"
  by (simp_all add: Args_def HasPrefix_def)

lemma strategy_key_inj:
  assumes "plain_strategy s" "plain_strategy t" "strategy_key s = strategy_key t"
  shows "s = t"
proof -
  have ne: "Args u 0 \<noteq> []" for u by (simp add: Args_def)
  have "Split (strategy_key u) CHR '' '' = Args u 0" if "plain_strategy u" for u
    unfolding strategy_key_def by (rule Split_Join [OF ne]) (use that Args_no_space in blast)
  then have a: "Args s 0 = Args t 0" using assms by metis
  have "(if bp_SplitPos s \<noteq> [] then [''--split-pos='' @ Join (bp_SplitPos s) '',''] else []) =
      (if bp_SplitPos t \<noteq> [] then [''--split-pos='' @ Join (bp_SplitPos t) '',''] else [])"
    unfolding Args_split_pos(1) [of _ 0, symmetric] a ..
  then have "bp_SplitPos s = bp_SplitPos t"
    using assms(1,2) Join_comma_inj [of "bp_SplitPos s" "bp_SplitPos t"]
    by (cases "bp_SplitPos s = []"; cases "bp_SplitPos t = []") (simp_all add: plain_strategy_def)
  moreover have "(if bp_TLSRecord s \<noteq> [] then [''--tlsrec='' @ bp_TLSRecord s] else []) =
      (if bp_TLSRecord t \<noteq> [] then [''--tlsrec='' @ bp_TLSRecord t] else [])"
    unfolding Args_split_pos(2) [of _ 0, symmetric] a ..
  then have "bp_TLSRecord s = bp_TLSRecord t"
    by (cases "bp_TLSRecord s = []"; cases "bp_TLSRecord t = []") simp_all
  ultimately show ?thesis
    using Args_flags [of s 0, unfolded a, folded Args_flags [of t 0]] by simp
qed

text \<open>
  Two valid strategies have the same key only if they are the same strategy, so outbounds share
  a tpws process exactly when their strategies agree.
\<close>

theorem strategy_key_iff:
  assumes "BypassStrategy_validate (Some s) i = []" "BypassStrategy_validate (Some t) j = []"
  shows "strategy_key s = strategy_key t \<longleftrightarrow> s = t"
  using assms strategy_key_inj [of s t] bypass_ok_plain by (auto simp: BypassStrategy_validate_ok)

theorem strategy_key_iff_witness:
  "BypassStrategy_validate (Some sample_strategy) ''a'' = [] \<and>
   BypassStrategy_validate (Some (sample_strategy\<lparr>bp_OOB := True\<rparr>)) ''b'' = [] \<and>
   strategy_key sample_strategy \<noteq> strategy_key (sample_strategy\<lparr>bp_OOB := True\<rparr>)"
proof -
  have v: "BypassStrategy_validate (Some sample_strategy) ''a'' = []"
    "BypassStrategy_validate (Some (sample_strategy\<lparr>bp_OOB := True\<rparr>)) ''b'' = []" by code_simp+
  have "sample_strategy \<noteq> sample_strategy\<lparr>bp_OOB := True\<rparr>" by (simp add: sample_strategy_def)
  then show ?thesis using strategy_key_iff [OF v] v by simp
qed

section \<open>Applying a plan\<close>

lemma map_of_stop_unneeded:
  "map_of (fst (stop_unneeded env need procs w)) k = (if map_of need k = None then None else map_of procs k)"
  by (induction env need procs w rule: stop_unneeded.induct) (auto simp: case_prod_beta Let_def)

definition ports_match :: "int go_map \<Rightarrow> 'h proxy go_map \<Rightarrow> bool" where
  "ports_match ports procs \<longleftrightarrow> (\<forall>k n. map_of ports k = Some n \<longrightarrow> map_option px_port (map_of procs k) = Some n)"

lemma ports_match_update:
  "ports_match ports procs \<Longrightarrow> map_of procs k = Some px \<Longrightarrow> ports_match (AList.update k (px_port px) ports) procs"
  by (simp add: ports_match_def update_conv')

lemma ports_match_extend:
  "ports_match ports procs \<Longrightarrow> map_of procs k = None \<Longrightarrow>
   ports_match (AList.update k (px_port px) ports) (AList.update k px procs)"
  by (auto simp: ports_match_def update_conv')

lemma start_needed_ok:
  "start_needed env need procs ports w = (None, procs', ports', w') \<Longrightarrow> ports_match ports procs \<Longrightarrow>
   map_of procs \<subseteq>\<^sub>m map_of procs' \<and> dom (map_of procs') = dom (map_of procs) \<union> fst ` set need \<and>
   dom (map_of ports') = dom (map_of ports) \<union> fst ` set need \<and> ports_match ports' procs'"
proof (induction need arbitrary: procs ports w)
  case (Cons ks need)
  obtain k s where ks: "ks = (k, s)" by (cases ks)
  show ?case
  proof (cases "map_of procs k")
    case (Some px)
    then have "start_needed env need procs (AList.update k (px_port px) ports) w = (None, procs', ports', w')"
      using Cons.prems(1) ks by simp
    from Cons.IH [OF this ports_match_update [OF Cons.prems(2) Some]] Some show ?thesis
      by (auto simp: ks update_conv')
  next
    case None
    then obtain px w1 where "start_needed env need (AList.update k px procs) (AList.update k (px_port px) ports) w1
        = (None, procs', ports', w')"
      using Cons.prems(1) ks by (auto split: prod.splits sum.splits)
    from Cons.IH [OF this ports_match_extend [OF Cons.prems(2) None]]
    have IH: "(map_of procs)(k \<mapsto> px) \<subseteq>\<^sub>m map_of procs'" "dom (map_of procs') = insert k (dom (map_of procs)) \<union> fst ` set need"
        "dom (map_of ports') = insert k (dom (map_of ports)) \<union> fst ` set need" "ports_match ports' procs'"
      unfolding update_conv' dom_fun_upd by (auto simp: fun_upd_def)
    have "map_of procs \<subseteq>\<^sub>m (map_of procs)(k \<mapsto> px)" using None by (auto simp: map_le_def)
    then have "map_of procs \<subseteq>\<^sub>m map_of procs'" using IH(1) by (rule map_le_trans)
    with IH show ?thesis by (auto simp: ks)
  qed
qed simp


text \<open>An environment that starts processes on consecutive ports and records what happens.\<close>

definition trace_env :: "(int \<times> string list, unit, int) bypass_env" where
  "trace_env = \<lparr>be_validate = (\<lambda>p w. (None, w)),
     be_apply = (\<lambda>p (n, tr). (None, (n, tr @ [''apply'']))),
     be_stop = (\<lambda>(n, tr). (None, (n, tr @ [''stop'']))), be_close = (\<lambda>(n, tr). (None, (n, tr @ [''close'']))),
     be_start = (\<lambda>s (n, tr). (Inr \<lparr>px_port = n, px_proc = n\<rparr>, (n + 1, tr @ [''start'']))),
     be_stop_proxy = (\<lambda>px (n, tr). (n, tr @ [''stop tpws'']))\<rparr>"


text \<open>Stopping and closing leave no process behind, after the engine itself has stopped.\<close>

lemma bypass_Stop_empty:
  "fst (snd (bypass_Stop env procs w)) = [] \<and> fst (bypass_Stop env procs w) = fst (be_stop env w)"
  "fst (snd (bypass_Close env procs w)) = [] \<and> fst (bypass_Close env procs w) = fst (be_close env w)"
  by (simp_all add: bypass_Stop_def bypass_Close_def stopAll_def case_prod_beta Let_def)

end
