(* ===== verification/ErrCatalog.thy ===== *)
theory ErrCatalog
  imports GoStrings "HOL-Library.AList"
begin

text \<open>
  Catalog errors: \<open>errs/errs.go\<close> and \<open>errs/catalog.go\<close>.  Codes and keys are the strings of
  the public contract.  The type of causes is a parameter \<open>'c\<close> here; \<open>ErrClassify\<close>
  instantiates it with the errors the core meets.
\<close>

section \<open>Codes, keys and the catalog\<close>

type_synonym Code = string
type_synonym Key = string

abbreviation CodeVersionMismatch :: Code where "CodeVersionMismatch \<equiv> ''version_mismatch''"
abbreviation CodeInvalidArgument :: Code where "CodeInvalidArgument \<equiv> ''invalid_argument''"
abbreviation CodeUnauthenticated :: Code where "CodeUnauthenticated \<equiv> ''unauthenticated''"
abbreviation CodePermissionDenied :: Code where "CodePermissionDenied \<equiv> ''permission_denied''"
abbreviation CodeNotFound :: Code where "CodeNotFound \<equiv> ''not_found''"
abbreviation CodeFailedPrecondition :: Code where "CodeFailedPrecondition \<equiv> ''failed_precondition''"
abbreviation CodeResourceExhausted :: Code where "CodeResourceExhausted \<equiv> ''resource_exhausted''"
abbreviation CodeDeadlineExceeded :: Code where "CodeDeadlineExceeded \<equiv> ''deadline_exceeded''"
abbreviation CodeCancelled :: Code where "CodeCancelled \<equiv> ''cancelled''"
abbreviation CodeTimeout :: Code where "CodeTimeout \<equiv> ''timeout''"
abbreviation CodeUnavailable :: Code where "CodeUnavailable \<equiv> ''unavailable''"
abbreviation CodeTLS :: Code where "CodeTLS \<equiv> ''tls''"
abbreviation CodeUnsupported :: Code where "CodeUnsupported \<equiv> ''unsupported''"
abbreviation CodeInternal :: Code where "CodeInternal \<equiv> ''internal''"

abbreviation KeyAPIVersionMismatch :: Key where "KeyAPIVersionMismatch \<equiv> ''core.api.version_mismatch''"
abbreviation KeyUnauthenticated :: Key where "KeyUnauthenticated \<equiv> ''core.auth.unauthenticated''"
abbreviation KeyPermissionDenied :: Key where "KeyPermissionDenied \<equiv> ''core.auth.permission_denied''"
abbreviation KeyInvalidRequest :: Key where "KeyInvalidRequest \<equiv> ''core.request.invalid''"
abbreviation KeyRequestTooLarge :: Key where "KeyRequestTooLarge \<equiv> ''core.request.too_large''"
abbreviation KeyUnknownSession :: Key where "KeyUnknownSession \<equiv> ''core.session.unknown''"
abbreviation KeySessionRequired :: Key where "KeySessionRequired \<equiv> ''core.session.required''"
abbreviation KeySessionBusy :: Key where "KeySessionBusy \<equiv> ''core.session.busy''"
abbreviation KeyInternal :: Key where "KeyInternal \<equiv> ''core.internal.unexpected''"
abbreviation KeyCancelled :: Key where "KeyCancelled \<equiv> ''core.request.cancelled''"
abbreviation KeyDeadlineExceeded :: Key where "KeyDeadlineExceeded \<equiv> ''core.request.deadline_exceeded''"
abbreviation KeyPlanEmpty :: Key where "KeyPlanEmpty \<equiv> ''core.plan.empty''"
abbreviation KeyPlanTooLarge :: Key where "KeyPlanTooLarge \<equiv> ''core.plan.too_large''"
abbreviation KeyPlanOutbounds :: Key where "KeyPlanOutbounds \<equiv> ''core.plan.outbounds_invalid''"
abbreviation KeyPlanDuplicateID :: Key where "KeyPlanDuplicateID \<equiv> ''core.plan.duplicate_id''"
abbreviation KeyPlanUnknownTarget :: Key where "KeyPlanUnknownTarget \<equiv> ''core.plan.unknown_target''"
abbreviation KeyPlanRuleInvalid :: Key where "KeyPlanRuleInvalid \<equiv> ''core.plan.rule_invalid''"
abbreviation KeyPlanTunnel :: Key where "KeyPlanTunnel \<equiv> ''core.plan.tunnel_unsupported''"
abbreviation KeyPlanDNSInvalid :: Key where "KeyPlanDNSInvalid \<equiv> ''core.plan.dns_invalid''"
abbreviation KeyPlanBypassInvalid :: Key where "KeyPlanBypassInvalid \<equiv> ''core.plan.bypass_invalid''"
abbreviation KeyPlanGroupsInvalid :: Key where "KeyPlanGroupsInvalid \<equiv> ''core.plan.groups_invalid''"
abbreviation KeyPlanLocalProxy :: Key where "KeyPlanLocalProxy \<equiv> ''core.plan.local_proxy_invalid''"
abbreviation KeyPlanEngineUnsupported :: Key where "KeyPlanEngineUnsupported \<equiv> ''core.plan.engine_unsupported''"
abbreviation KeyLogsUnavailable :: Key where "KeyLogsUnavailable \<equiv> ''core.logs.unavailable''"
abbreviation KeyLogFilterInvalid :: Key where "KeyLogFilterInvalid \<equiv> ''core.logs.filter_invalid''"
abbreviation KeyLogExportFailed :: Key where "KeyLogExportFailed \<equiv> ''core.logs.export_failed''"
abbreviation KeyConnectionsUnavailable :: Key where "KeyConnectionsUnavailable \<equiv> ''core.connections.unavailable''"
abbreviation KeySubscriptionDuplicate :: Key where "KeySubscriptionDuplicate \<equiv> ''core.subscription.duplicate''"
abbreviation KeySubscriptionNotFound :: Key where "KeySubscriptionNotFound \<equiv> ''core.subscription.not_found''"
abbreviation KeySubscriptionLimit :: Key where "KeySubscriptionLimit \<equiv> ''core.subscription.limit''"
abbreviation KeySubscriptionInterval :: Key where "KeySubscriptionInterval \<equiv> ''core.subscription.interval_invalid''"
abbreviation KeyEngineBinaryMissing :: Key where "KeyEngineBinaryMissing \<equiv> ''core.engine.binary_missing''"
abbreviation KeyEngineStartFailed :: Key where "KeyEngineStartFailed \<equiv> ''core.engine.start_failed''"
abbreviation KeyEngineStopped :: Key where "KeyEngineStopped \<equiv> ''core.engine.stopped''"
abbreviation KeyEngineRestartSpent :: Key where "KeyEngineRestartSpent \<equiv> ''core.engine.restart_budget_spent''"
abbreviation KeySubscriptionEmpty :: Key where "KeySubscriptionEmpty \<equiv> ''core.subscription.empty''"
abbreviation KeySubscriptionTooLarge :: Key where "KeySubscriptionTooLarge \<equiv> ''core.subscription.too_large''"
abbreviation KeySubscriptionFetch :: Key where "KeySubscriptionFetch \<equiv> ''core.subscription.fetch_failed''"
abbreviation KeySubscriptionStatus :: Key where "KeySubscriptionStatus \<equiv> ''core.subscription.status''"
abbreviation KeySubscriptionRedirect :: Key where "KeySubscriptionRedirect \<equiv> ''core.subscription.redirect_rejected''"
abbreviation KeySubscriptionScheme :: Key where "KeySubscriptionScheme \<equiv> ''core.subscription.scheme_unsupported''"
abbreviation KeySubscriptionFormat :: Key where "KeySubscriptionFormat \<equiv> ''core.subscription.format_unknown''"
abbreviation KeySubscriptionNoServers :: Key where "KeySubscriptionNoServers \<equiv> ''core.subscription.no_servers''"
abbreviation KeySecretReferenceInvalid :: Key where "KeySecretReferenceInvalid \<equiv> ''core.secret.reference_invalid''"
abbreviation KeySecretNotFound :: Key where "KeySecretNotFound \<equiv> ''core.secret.not_found''"
abbreviation KeySecretTooLarge :: Key where "KeySecretTooLarge \<equiv> ''core.secret.too_large''"
abbreviation KeySecretStoreCorrupt :: Key where "KeySecretStoreCorrupt \<equiv> ''core.secret.store_corrupt''"
abbreviation KeySecretStoreUnavailable :: Key where "KeySecretStoreUnavailable \<equiv> ''core.secret.store_unavailable''"
abbreviation KeyGuardProxyFailed :: Key where "KeyGuardProxyFailed \<equiv> ''core.guard.proxy_failed''"
abbreviation KeyGuardFirewallFail :: Key where "KeyGuardFirewallFail \<equiv> ''core.guard.firewall_failed''"
abbreviation KeyGuardRestoreFailed :: Key where "KeyGuardRestoreFailed \<equiv> ''core.guard.restore_failed''"
abbreviation KeyProbeInvalidEndpoint :: Key where "KeyProbeInvalidEndpoint \<equiv> ''core.probe.invalid_endpoint''"
abbreviation KeyProbeNoEndpoints :: Key where "KeyProbeNoEndpoints \<equiv> ''core.probe.no_endpoints''"
abbreviation KeyProbeTooMany :: Key where "KeyProbeTooMany \<equiv> ''core.probe.too_many''"
abbreviation KeyDiagnosticsFailed :: Key where "KeyDiagnosticsFailed \<equiv> ''core.diagnostics.failed''"
abbreviation KeyDiagnosticsTooLarge :: Key where "KeyDiagnosticsTooLarge \<equiv> ''core.diagnostics.too_large''"
abbreviation KeyNotFound :: Key where "KeyNotFound \<equiv> ''core.generic.not_found''"
abbreviation KeyNetworkFailed :: Key where "KeyNetworkFailed \<equiv> ''core.network.failed''"
abbreviation KeyNetworkTimeout :: Key where "KeyNetworkTimeout \<equiv> ''core.network.timeout''"
abbreviation KeyConnectionRefused :: Key where "KeyConnectionRefused \<equiv> ''core.network.connection_refused''"
abbreviation KeyTLSCertificate :: Key where "KeyTLSCertificate \<equiv> ''core.tls.certificate''"

record Entry =
  en_Code :: Code
  en_Retryable :: bool
  en_Summary :: string

abbreviation entry :: "Key \<Rightarrow> Code \<Rightarrow> bool \<Rightarrow> string \<Rightarrow> Key \<times> Entry" where
  "entry k c r s \<equiv> (k, \<lparr>en_Code = c, en_Retryable = r, en_Summary = s\<rparr>)"

definition catalog :: "Entry go_map" where
  "catalog =
    [entry KeyAPIVersionMismatch CodeVersionMismatch False ''the interface and the core speak different contract versions'',
     entry KeyUnauthenticated CodeUnauthenticated False ''control-plane authentication failed or the token is stale'',
     entry KeyPermissionDenied CodePermissionDenied False ''the caller is authenticated but not allowed to do this'',
     entry KeyInvalidRequest CodeInvalidArgument False ''the request is malformed or holds a value the core will not accept'',
     entry KeyRequestTooLarge CodeResourceExhausted False ''the request exceeds a documented contract limit'',
     entry KeyUnknownSession CodeNotFound False ''the session id is unknown to the core'',
     entry KeySessionRequired CodeFailedPrecondition False ''the operation needs an active session'',
     entry KeySessionBusy CodeFailedPrecondition True ''another connect or disconnect is already running'',
     entry KeyInternal CodeInternal False ''an internal invariant was false, which is a defect'',
     entry KeyCancelled CodeCancelled False ''the caller cancelled the request'',
     entry KeyDeadlineExceeded CodeDeadlineExceeded True ''the request ran out of its deadline'',
     entry KeyPlanEmpty CodeInvalidArgument False ''the plan has no outbounds'',
     entry KeyPlanTooLarge CodeResourceExhausted False ''the plan is larger than the contract allows'',
     entry KeyPlanOutbounds CodeInvalidArgument False ''an outbound is missing fields or holds impossible values'',
     entry KeyPlanDuplicateID CodeInvalidArgument False ''two outbounds share one id'',
     entry KeyPlanUnknownTarget CodeInvalidArgument False ''a rule points at an outbound or group that does not exist'',
     entry KeyPlanRuleInvalid CodeInvalidArgument False ''a rule has an unknown type or an unsafe value'',
     entry KeyPlanTunnel CodeInvalidArgument False ''the requested tunnel mode is not supported'',
     entry KeyPlanDNSInvalid CodeInvalidArgument False ''a resolver address or transport is not usable'',
     entry KeyPlanBypassInvalid CodeInvalidArgument False ''a bypass entry is not a domain, address or CIDR'',
     entry KeyPlanGroupsInvalid CodeInvalidArgument False ''a group is empty, cyclic or measures latency without a url'',
     entry KeyPlanLocalProxy CodeInvalidArgument False ''the local proxy needs a login the system proxy cannot carry, or half a login'',
     entry KeyPlanEngineUnsupported CodeFailedPrecondition False ''installed engines in the requested order cannot carry this plan'',
     entry KeyLogsUnavailable CodeUnsupported False ''this core keeps no log record'',
     entry KeyLogFilterInvalid CodeInvalidArgument False ''the log filter has an invalid expression or range'',
     entry KeyLogExportFailed CodeResourceExhausted False ''the export is larger than one answer carries; narrow the filter'',
     entry KeyConnectionsUnavailable CodeUnsupported False ''no session is running, or its engine cannot list connections'',
     entry KeySubscriptionDuplicate CodeInvalidArgument False ''a subscription with this link is already saved'',
     entry KeySubscriptionNotFound CodeNotFound False ''no subscription with this id'',
     entry KeySubscriptionLimit CodeResourceExhausted False ''the core already keeps the largest number of subscriptions'',
     entry KeySubscriptionInterval CodeInvalidArgument False ''the update interval is shorter than an hour or longer than 30 days'',
     entry KeyEngineBinaryMissing CodeNotFound False ''the engine binary is not installed for this platform'',
     entry KeyEngineStartFailed CodeUnavailable True ''the engine process did not start'',
     entry KeyEngineStopped CodeUnavailable True ''the engine process exited'',
     entry KeyEngineRestartSpent CodeUnavailable True ''the engine kept dying and the restart budget is spent'',
     entry KeySubscriptionEmpty CodeInvalidArgument False ''the subscription body is empty'',
     entry KeySubscriptionTooLarge CodeResourceExhausted False ''the subscription body is larger than the import limit'',
     entry KeySubscriptionFetch CodeUnavailable True ''the subscription host could not be reached'',
     entry KeySubscriptionStatus CodeUnavailable False ''the subscription host answered with an error status'',
     entry KeySubscriptionRedirect CodeInvalidArgument False ''the subscription host redirected somewhere not allowed'',
     entry KeySubscriptionScheme CodeUnsupported False ''the subscription reference is not an http or https url'',
     entry KeySubscriptionFormat CodeUnsupported False ''no parser claims this payload'',
     entry KeySubscriptionNoServers CodeInvalidArgument False ''the payload parsed but produced no usable server'',
     entry KeySecretReferenceInvalid CodeInvalidArgument False ''the secret reference is not a well formed opaque id'',
     entry KeySecretNotFound CodeNotFound False ''no secret is stored under that reference'',
     entry KeySecretTooLarge CodeResourceExhausted False ''the secret is larger than the store allows'',
     entry KeySecretStoreCorrupt CodeInternal False ''the secret store failed its integrity check'',
     entry KeySecretStoreUnavailable CodeInternal True ''the secret store cannot be read or written right now'',
     entry KeyGuardProxyFailed CodeInternal True ''the system proxy could not be configured'',
     entry KeyGuardFirewallFail CodeInternal True ''the kill switch rules could not be installed'',
     entry KeyGuardRestoreFailed CodeInternal True ''system settings could not be restored to their previous state'',
     entry KeyProbeInvalidEndpoint CodeInvalidArgument False ''an endpoint has no host or an impossible port'',
     entry KeyProbeNoEndpoints CodeInvalidArgument False ''the probe request carries no endpoints'',
     entry KeyProbeTooMany CodeResourceExhausted False ''the probe request carries more endpoints than allowed'',
     entry KeyDiagnosticsFailed CodeInternal False ''diagnostics could not be collected'',
     entry KeyDiagnosticsTooLarge CodeResourceExhausted False ''the diagnostics archive is larger than allowed'',
     entry KeyNotFound CodeNotFound False ''the requested object does not exist'',
     entry KeyNetworkFailed CodeUnavailable True ''the network connection failed'',
     entry KeyNetworkTimeout CodeTimeout True ''the network did not answer in time'',
     entry KeyConnectionRefused CodeUnavailable True ''the server refused the connection'',
     entry KeyTLSCertificate CodeTLS False ''the peer certificate was untrusted, expired or for another name'']"

definition Lookup :: "Key \<Rightarrow> Entry option" where
  "Lookup k = map_of catalog k"

definition Keys :: "Key list" where
  "Keys = sort (map fst catalog)"

definition DefaultKey :: "Code \<Rightarrow> Key" where
  "DefaultKey code =
     (case find (\<lambda>k. map_option en_Code (map_of catalog k) = Some code) Keys of
        Some k \<Rightarrow> k | None \<Rightarrow> KeyInternal)"

section \<open>Error values\<close>

record 'c Error =
  er_code :: Code
  er_key :: Key
  er_detail :: string
  er_cause :: "'c option"
  er_retryable :: bool
  er_retryAfter :: Duration

abbreviation is_newline :: "char \<Rightarrow> bool" where
  "is_newline c \<equiv> c = CHR 0x0A \<or> c = CHR 0x0D"

text \<open>\<open>strings.FieldsFunc\<close>: the maximal runs of characters outside the predicate.\<close>

function FieldsFunc :: "(char \<Rightarrow> bool) \<Rightarrow> string \<Rightarrow> string list" where
  "FieldsFunc f [] = []"
| "FieldsFunc f (c # cs) =
     (if f c then FieldsFunc f cs
      else (c # takeWhile (\<lambda>x. \<not> f x) cs) # FieldsFunc f (dropWhile (\<lambda>x. \<not> f x) cs))"
  by pat_completeness auto
termination
  by (relation "measure (\<lambda>(f, s). length s)") (auto simp: less_Suc_eq_le length_dropWhile_le)

definition oneLine :: "string \<Rightarrow> string" where
  "oneLine s =
     (if \<not> ContainsAny s [CHR 0x0D, CHR 0x0A] then TrimSpace s
      else Join (FieldsFunc is_newline s) '' '')"

text \<open>\<open>New\<close>; \<open>render\<close> is the \<open>Error\<close> method of the cause.\<close>

definition err_New :: "('c \<Rightarrow> string) \<Rightarrow> Code \<Rightarrow> Key \<Rightarrow> 'c option \<Rightarrow> 'c Error" where
  "err_New render code key cause =
     \<lparr>er_code = code, er_key = key,
      er_detail = (case cause of Some c \<Rightarrow> oneLine (render c) | None \<Rightarrow> []),
      er_cause = cause,
      er_retryable = (case Lookup key of Some e \<Rightarrow> en_Retryable e | None \<Rightarrow> False),
      er_retryAfter = 0\<rparr>"

definition err_Newf :: "Code \<Rightarrow> Key \<Rightarrow> string \<Rightarrow> 'c Error" where
  "err_Newf code key text =
     \<lparr>er_code = code, er_key = key, er_detail = oneLine text, er_cause = None, er_retryable = False,
      er_retryAfter = 0\<rparr>"

text \<open>Methods on a \<open>*Error\<close>, which may be nil.\<close>

definition WithRetry :: "Duration \<Rightarrow> 'c Error option \<Rightarrow> 'c Error option" where
  "WithRetry d e = map_option (\<lambda>e. e\<lparr>er_retryable := True, er_retryAfter := d\<rparr>) e"

definition WithDetail :: "string \<Rightarrow> 'c Error option \<Rightarrow> 'c Error option" where
  "WithDetail detail e = map_option (\<lambda>e. e\<lparr>er_detail := detail\<rparr>) e"

definition WithoutCause :: "'c Error option \<Rightarrow> 'c Error option" where
  "WithoutCause e = map_option (\<lambda>e. e\<lparr>er_cause := None\<rparr>) e"

definition Error_Code :: "'c Error option \<Rightarrow> Code" where
  "Error_Code e = (case e of None \<Rightarrow> [] | Some e \<Rightarrow> er_code e)"

definition Error_Key :: "'c Error option \<Rightarrow> Key" where
  "Error_Key e = (case e of None \<Rightarrow> [] | Some e \<Rightarrow> er_key e)"

definition Error_Detail :: "'c Error option \<Rightarrow> string" where
  "Error_Detail e = (case e of None \<Rightarrow> [] | Some e \<Rightarrow> er_detail e)"

definition Error_Retryable :: "'c Error option \<Rightarrow> bool" where
  "Error_Retryable e = (case e of None \<Rightarrow> False | Some e \<Rightarrow> er_retryable e)"

definition Error_RetryAfter :: "'c Error option \<Rightarrow> Duration" where
  "Error_RetryAfter e = (case e of None \<Rightarrow> 0 | Some e \<Rightarrow> er_retryAfter e)"

definition Error_Cause :: "'c Error option \<Rightarrow> 'c option" where
  "Error_Cause e = (case e of None \<Rightarrow> None | Some e \<Rightarrow> er_cause e)"

definition Error_text :: "'c Error option \<Rightarrow> string" where
  "Error_text e =
     (case e of
        None \<Rightarrow> ''<nil>''
      | Some e \<Rightarrow> er_code e @ '' '' @ er_key e @ (if er_detail e \<noteq> [] then '': '' @ er_detail e else []))"

definition err_Wrap :: "('c \<Rightarrow> string) \<Rightarrow> 'c option \<Rightarrow> Code \<Rightarrow> Key \<Rightarrow> 'c Error option" where
  "err_Wrap render cause code key =
     (case cause of None \<Rightarrow> None | Some c \<Rightarrow> Some (err_New render code key (Some c)))"

section \<open>Laws\<close>

definition all_codes :: "Code list" where
  "all_codes = [CodeVersionMismatch, CodeInvalidArgument, CodeUnauthenticated, CodePermissionDenied, CodeNotFound,
     CodeFailedPrecondition, CodeResourceExhausted, CodeDeadlineExceeded, CodeCancelled, CodeTimeout,
     CodeUnavailable, CodeTLS, CodeUnsupported, CodeInternal]"

lemma catalog_distinct: "distinct (map fst catalog)"
  by code_simp

lemma set_Keys: "set Keys = dom (map_of catalog)"
  by (simp add: Keys_def dom_map_of_conv_image_fst)

lemma DefaultKey_cases:
  "(\<exists>e. map_of catalog (DefaultKey code) = Some e \<and> en_Code e = code) \<or> DefaultKey code = KeyInternal"
  by (auto simp: DefaultKey_def split: option.splits dest!: find_SomeD)

text \<open>Every error class has a key of its own, so the fallback is never needed for a known code.\<close>

lemma every_code_has_key: "list_all (\<lambda>c. list_ex (\<lambda>(k, e). en_Code e = c) catalog) all_codes"
  by code_simp

text \<open>
  For each of the fourteen error classes \<open>DefaultKey\<close> returns a catalog key of that class.
\<close>

theorem DefaultKey_total: "list_all (\<lambda>c. map_option en_Code (Lookup (DefaultKey c)) = Some c) all_codes"
proof -
  have "\<exists>e. map_of catalog (DefaultKey c) = Some e \<and> en_Code e = c" if "c \<in> set all_codes" for c
  proof -
    have "list_ex (\<lambda>(k, e). en_Code e = c) catalog"
      using bspec [OF every_code_has_key [unfolded list_all_iff] that] .
    then obtain x where x: "x \<in> set catalog" "case x of (k, e) \<Rightarrow> en_Code e = c"
      unfolding list_ex_iff by (rule bexE)
    obtain k e where "x = (k, e)" by (rule prod.exhaust)
    with x have "(k, e) \<in> set catalog" and c: "en_Code e = c" by simp_all
    then have k: "map_of catalog k = Some e" by (intro map_of_is_SomeI catalog_distinct)
    then have "k \<in> set Keys" unfolding set_Keys by (rule domI)
    then have "find (\<lambda>k. map_option en_Code (map_of catalog k) = Some c) Keys \<noteq> None"
      unfolding find_None_iff_all using k c by force
    then obtain k' where f: "find (\<lambda>k. map_option en_Code (map_of catalog k) = Some c) Keys = Some k'" by blast
    then have "map_option en_Code (map_of catalog k') = Some c" by (blast dest: find_SomeD)
    with f show ?thesis by (auto simp: DefaultKey_def)
  qed
  then show ?thesis by (auto simp: list_all_iff Lookup_def)
qed

lemma Join_chars: "c \<in> set (Join xs sep) \<Longrightarrow> c \<in> set sep \<or> (\<exists>x \<in> set xs. c \<in> set x)"
  by (induction xs sep rule: Join.induct) auto

lemma FieldsFunc_chars: "x \<in> set (FieldsFunc f s) \<Longrightarrow> c \<in> set x \<Longrightarrow> \<not> f c"
  by (induction f s rule: FieldsFunc.induct) (auto split: if_splits dest: set_takeWhileD)

lemma strip_front_subset: "set (strip_front es s) \<subseteq> set s"
proof (induction es s rule: strip_front.induct)
  case (1 es s)
  then show ?case by (subst strip_front.simps) (fastforce split: option.splits dest: in_set_dropD)
qed

lemma TrimSpace_subset: "set (TrimSpace s) \<subseteq> set s"
  unfolding TrimSpace_def set_rev
  by (rule subset_trans [OF strip_front_subset]) (simp only: set_rev strip_front_subset)

text \<open>
  The detail of an error made by \<open>New\<close>, \<open>Newf\<close> or \<open>Wrap\<close> never contains a line break,
  whatever the text of the cause, so a detail cannot forge a second journal record.
\<close>

theorem error_detail_one_line:
  "CHR 0x0A \<notin> set (er_detail (err_New render code key cause)) \<and> CHR 0x0D \<notin> set (er_detail (err_New render code key cause)) \<and>
   CHR 0x0A \<notin> set (er_detail (err_Newf code key text)) \<and> CHR 0x0D \<notin> set (er_detail (err_Newf code key text))"
proof -
  have "CHR 0x0A \<notin> set (oneLine s) \<and> CHR 0x0D \<notin> set (oneLine s)" for s
    using TrimSpace_subset [of s]
    by (auto simp: oneLine_def ContainsAny_iff dest!: Join_chars dest: FieldsFunc_chars)
  then show ?thesis by (simp add: err_New_def err_Newf_def split: option.split)
qed

text \<open>The retry behaviour of \<open>New\<close> is the catalog's; \<open>Newf\<close> never asks for a retry.\<close>

lemma err_New_retryable: "Lookup key = Some e \<Longrightarrow> er_retryable (err_New render code key cause) = en_Retryable e"
  by (simp add: err_New_def)

end
