(* ===== verification/EngineRegistry.thy ===== *)
theory EngineRegistry
  imports EngineCatalog EngineBypass ErrCatalog "HOL-Library.Multiset"
begin

text \<open>
  The engine registry, \<open>engine/registry/registry.go\<close>: discovery results, the preference order
  with a service pin, the choice of the engine for a plan with the TUN bridge for Xray, and
  measuring servers.  What the probers find on disk is an argument of \<open>Discover\<close>; an engine that is
  built is described by a \<open>build\<close> record; \<open>goos\<close> is \<open>runtime.GOOS\<close>.
\<close>

section \<open>Discovery and order\<close>

record Binary =
  b_Kind :: Kind
  b_Path :: string
  b_Version :: Version
  b_Goos :: string
  b_Goarch :: string
  b_BuildTags :: "string list"

definition zero_Version :: Version where
  "zero_Version = \<lparr>v_Raw = [], v_Major = 0, v_Minor = 0, v_Patch = 0, v_PreRelease = []\<rparr>"

definition zero_Binary :: Binary where
  "zero_Binary = \<lparr>b_Kind = [], b_Path = [], b_Version = zero_Version, b_Goos = [], b_Goarch = [], b_BuildTags = []\<rparr>"

definition drivers :: "Kind list" where
  "drivers = [KindSingBox, KindMihomo, KindXray]"

record Registry =
  rg_binaries :: "Binary go_map"
  rg_availability :: "Availability list"
  rg_preference :: "Kind list"
  rg_tpws :: string
  rg_last :: Selection

text \<open>One prober result per kind, \<open>None\<close> for an error; \<open>tpws\<close> is empty when it is not installed.\<close>

definition not_installed :: "Kind \<Rightarrow> Availability" where
  "not_installed kind =
     \<lparr>a_Kind = kind, a_Path = [], a_Version = zero_Version, a_Usable = False, a_Reason = ''not installed'', a_BuildTags = []\<rparr>"

definition binary_Availability :: "Kind \<Rightarrow> Binary \<Rightarrow> Availability" where
  "binary_Availability kind b =
     \<lparr>a_Kind = kind, a_Path = b_Path b, a_Version = b_Version b, a_Usable = True, a_Reason = [], a_BuildTags = b_BuildTags b\<rparr>"

definition discover_kind :: "(Kind \<Rightarrow> Binary option) \<Rightarrow> Registry \<Rightarrow> Kind \<Rightarrow> Registry" where
  "discover_kind probe r kind =
     (case probe kind of
        None \<Rightarrow> r\<lparr>rg_availability := rg_availability r @ [not_installed kind]\<rparr>
      | Some b \<Rightarrow>
          r\<lparr>rg_binaries := AList.update kind b (rg_binaries r),
            rg_availability := rg_availability r @ [binary_Availability kind b]\<rparr>)"

definition Discover :: "(Kind \<Rightarrow> Binary option) \<Rightarrow> string \<Rightarrow> Registry" where
  "Discover probe tpws =
     foldl (discover_kind probe)
       \<lparr>rg_binaries = [], rg_availability = [], rg_preference = DefaultPreference, rg_tpws = tpws,
        rg_last = zero_Selection\<rparr> DefaultPreference"

definition Binaries :: "Registry \<Rightarrow> Binary list" where
  "Binaries r = List.map_filter (\<lambda>kind. map_of (rg_binaries r) kind) DefaultPreference"

definition Usable :: "Registry \<Rightarrow> bool" where
  "Usable r \<longleftrightarrow> rg_binaries r \<noteq> []"

definition BypassAvailable :: "string \<Rightarrow> Registry \<Rightarrow> bool" where
  "BypassAvailable goos r \<longleftrightarrow> goos = ''linux'' \<and> rg_tpws r \<noteq> [] \<and> Usable r"

datatype reg_err = RegNilPlan | RegUnknownEngine Kind | RegErr "unit Error"

definition Pin :: "Kind \<Rightarrow> Registry \<Rightarrow> reg_err option \<times> Registry" where
  "Pin kind r =
     (if kind = [] then (None, r)
      else if kind \<notin> set drivers then (Some (RegUnknownEngine kind), r)
      else (None, r\<lparr>rg_preference := [kind]\<rparr>))"

definition order :: "Registry \<Rightarrow> Kind list \<Rightarrow> reg_err + Kind list" where
  "order r requested =
     (if length (rg_preference r) = 1 \<or> requested = [] then Inr (rg_preference r)
      else (case find (\<lambda>kind. kind \<notin> set drivers) requested of
              Some kind \<Rightarrow> Inl (RegUnknownEngine kind)
            | None \<Rightarrow> Inr requested))"

section \<open>Selecting for a plan\<close>

text \<open>Xray cannot bring up this adapter itself: mihomo carries the packets.\<close>

definition needs_bridge :: "string \<Rightarrow> Plan \<Rightarrow> Kind \<Rightarrow> bool" where
  "needs_bridge goos p kind \<longleftrightarrow>
     kind = KindXray \<and> t_Enabled (p_Tun p) \<and>
     (goos \<noteq> ''linux'' \<or> t_Stack (p_Tun p) \<in> set [''system'', ''mixed'', ''mips''])"

definition bridge_candidate :: "Plan \<Rightarrow> Plan" where
  "bridge_candidate p =
     p\<lparr>p_Tun := zero_Tun,
       p_DNS := (if d_Mode (p_DNS p) = DNSFakeIP then (p_DNS p)\<lparr>d_Mode := ''rule''\<rparr> else p_DNS p)\<rparr>"

definition packet_error :: "Registry \<Rightarrow> unit Error option" where
  "packet_error r =
     (case map_of (rg_binaries r) KindMihomo of
        None \<Rightarrow> Some (err_Newf CodeFailedPrecondition KeyEngineBinaryMissing
                  ''registry: Xray's selected TUN stack needs mihomo in the engines directory'')
      | Some b \<Rightarrow>
          if version_Less (b_Version b) (zero_Version\<lparr>v_Major := 1, v_Minor := 19, v_Patch := 32\<rparr>)
          then Some (err_Newf CodeFailedPrecondition KeyPlanEngineUnsupported
                 ''registry: Xray's selected TUN stack needs mihomo 1.19.32 or newer'')
          else None)"

text \<open>
  The loop of \<open>selectPlan\<close>; \<open>alone\<close> says that the order has one engine, \<open>sel\<close> and \<open>key\<close> are
  its variables.
\<close>

fun select_plan_loop :: "string \<Rightarrow> Registry \<Rightarrow> Plan \<Rightarrow> bool \<Rightarrow> Selection \<Rightarrow> Key \<Rightarrow> Kind list
    \<Rightarrow> Selection \<times> bool \<times> unit Error option" where
  "select_plan_loop goos r p alone sel key [] =
     (sel, False, Some (err_Newf CodeFailedPrecondition key
        (''registry: no engine can carry this plan ('' @ Join (sel_Rejected sel) ''; '' @ '')'')))"
| "select_plan_loop goos r p alone sel key (kind # rest) =
     (let bridge = needs_bridge goos p kind;
          candidate = (if bridge then bridge_candidate p else p);
          key' = (if map_of (rg_binaries r) kind \<noteq> None then KeyPlanEngineUnsupported else key)
      in case SelectEngine (goos = ''linux'') (Some candidate) (rg_availability r) [kind] of
           (picked, Some _) \<Rightarrow>
             select_plan_loop goos r p alone (sel\<lparr>sel_Rejected := sel_Rejected sel @ sel_Rejected picked\<rparr>) key' rest
         | (picked, None) \<Rightarrow>
             (case (if bridge then packet_error r else None) of
                Some e \<Rightarrow>
                  (let sel' = sel\<lparr>sel_Rejected := sel_Rejected sel @ [Error_text (Some e)]\<rparr>
                   in if alone then (sel', False, Some e)
                      else select_plan_loop goos r p alone sel' key' rest)
              | None \<Rightarrow> (sel\<lparr>sel_Kind := sel_Kind picked, sel_Reason := sel_Reason picked\<rparr>, bridge, None)))"

definition selectPlan :: "string \<Rightarrow> Registry \<Rightarrow> Plan \<Rightarrow> Kind list \<Rightarrow> Selection \<times> bool \<times> unit Error option" where
  "selectPlan goos r p ord =
     select_plan_loop goos r p (length ord = 1) zero_Selection KeyEngineBinaryMissing ord"

text \<open>What \<open>Factory\<close> builds: an engine, behind mihomo for its packets, inside the bypass wrapper.\<close>

record build =
  bd_Kind :: Kind
  bd_Binary :: Binary
  bd_Bridge :: "Binary option"
  bd_Bypass :: bool

definition binary_of :: "Registry \<Rightarrow> Kind \<Rightarrow> Binary" where
  "binary_of r kind = (case map_of (rg_binaries r) kind of Some b \<Rightarrow> b | None \<Rightarrow> zero_Binary)"

definition factory_order :: "Registry \<Rightarrow> Plan \<Rightarrow> reg_err + Kind list" where
  "factory_order r p =
     (case order r (p_Engines p) of
        Inl e \<Rightarrow> Inl e
      | Inr ord \<Rightarrow> Inr (if p_Engines p = [] \<and> p_PrivateControl p then PrivatePreference else ord))"

text \<open>\<open>None\<close> is the nil dereference of a bypass outbound without a strategy.\<close>

definition Factory :: "string \<Rightarrow> Registry \<Rightarrow> Plan option \<Rightarrow> (Registry \<times> (reg_err + build)) option" where
  "Factory goos r plan =
     (case plan of
        None \<Rightarrow> Some (r, Inl RegNilPlan)
      | Some p \<Rightarrow>
          (case factory_order r p of
             Inl e \<Rightarrow> Some (r, Inl e)
           | Inr ord \<Rightarrow>
               if Has (Some p) \<and> rg_tpws r = [] then
                 Some (r, Inl (RegErr (err_Newf CodeFailedPrecondition KeyEngineBinaryMissing
                   ''registry: bypass outbounds need zapret's tpws in the engines directory'')))
               else
                 map_option (\<lambda>select_plan.
                     case selectPlan goos r select_plan ord of
                       (sel, bridge, err) \<Rightarrow>
                         (r\<lparr>rg_last := sel\<rparr>,
                          case err of
                            Some e \<Rightarrow> Inl (RegErr e)
                          | None \<Rightarrow>
                              Inr \<lparr>bd_Kind = sel_Kind sel, bd_Binary = binary_of r (sel_Kind sel),
                                   bd_Bridge = (if bridge then Some (binary_of r KindMihomo) else None),
                                   bd_Bypass = Has (Some p)\<rparr>))
                   (Rewrite p [])))"

section \<open>The first suitable engine\<close>

definition suits :: "string \<Rightarrow> Registry \<Rightarrow> Plan \<Rightarrow> Kind \<Rightarrow> bool" where
  "suits goos r p kind \<longleftrightarrow>
     p_Outbounds p \<noteq> [] \<and>
     engine_fits (goos = ''linux'') (if needs_bridge goos p kind then bridge_candidate p else p) (rg_availability r) kind \<and>
     (needs_bridge goos p kind \<longrightarrow> packet_error r = None)"

lemma SelectEngine_single:
  "snd (SelectEngine linux (Some p) available [kind]) = None \<longleftrightarrow> p_Outbounds p \<noteq> [] \<and> engine_fits linux p available kind"
  "snd (SelectEngine linux (Some p) available [kind]) = None \<Longrightarrow> sel_Kind (fst (SelectEngine linux (Some p) available [kind])) = kind"
  using rejection_None [of linux p available kind]
  by (cases "rejection linux p (by_kind available) kind"; auto simp: SelectEngine_def split: if_splits)+

lemma bridge_candidate_Outbounds [simp]: "p_Outbounds (bridge_candidate p) = p_Outbounds p"
  by (simp add: bridge_candidate_def)

lemma select_plan_loop_first:
  "case find (suits goos r p) ord of
     Some k \<Rightarrow> alone \<longrightarrow> ord = [k]
   | None \<Rightarrow> True \<Longrightarrow>
   case select_plan_loop goos r p alone sel key ord of
     (s, bridge, err) \<Rightarrow>
       (case find (suits goos r p) ord of
          Some k \<Rightarrow> err = None \<and> sel_Kind s = k \<and> bridge = needs_bridge goos p k
        | None \<Rightarrow> err \<noteq> None)"
proof (induction ord arbitrary: sel key)
  case (Cons kind ord)
  define cand where "cand = (if needs_bridge goos p kind then bridge_candidate p else p)"
  define res where "res = SelectEngine (goos = ''linux'') (Some cand) (rg_availability r) [kind]"
  have fit: "snd res = None \<longleftrightarrow> p_Outbounds p \<noteq> [] \<and> engine_fits (goos = ''linux'') cand (rg_availability r) kind"
    unfolding res_def SelectEngine_single(1) by (simp add: cand_def)
  have k: "sel_Kind (fst res) = kind" if "snd res = None"
    using SelectEngine_single(2) that unfolding res_def by blast
  show ?case
  proof (cases "suits goos r p kind")
    case True
    then have "snd res = None" using fit by (simp add: suits_def cand_def)
    moreover have "(if needs_bridge goos p kind then packet_error r else None) = None"
      using True by (simp add: suits_def)
    ultimately show ?thesis
      using True k by (cases res) (simp add: Let_def flip: cand_def res_def)
  next
    case False
    then have f: "find (suits goos r p) (kind # ord) = find (suits goos r p) ord" by simp
    have "case find (suits goos r p) ord of Some k \<Rightarrow> alone \<longrightarrow> ord = [k] | None \<Rightarrow> True"
      using Cons.prems unfolding f by (auto split: option.splits)
    note IH = Cons.IH [OF this]
    have na: "find (suits goos r p) ord = None" if "alone"
      using Cons.prems that unfolding f by (auto split: option.splits)
    show ?thesis
    proof (cases "snd res")
      case None
      then have "(if needs_bridge goos p kind then packet_error r else None) \<noteq> None"
        using False fit by (auto simp: suits_def cand_def)
      then obtain e where "(if needs_bridge goos p kind then packet_error r else None) = Some e" by blast
      then show ?thesis
        using None IH na unfolding f
        by (cases res; cases alone) (simp_all add: Let_def flip: cand_def res_def)
    next
      case (Some e)
      then show ?thesis using IH unfolding f by (cases res) (simp add: Let_def flip: cand_def res_def)
    qed
  qed
qed simp

lemma selectPlan_first:
  "case selectPlan goos r p ord of
     (s, bridge, err) \<Rightarrow>
       (case find (suits goos r p) ord of
          Some k \<Rightarrow> err = None \<and> sel_Kind s = k \<and> bridge = needs_bridge goos p k
        | None \<Rightarrow> err \<noteq> None)"
proof -
  have "length ord = 1 \<Longrightarrow> find (suits goos r p) ord = Some k \<Longrightarrow> ord = [k]" for k
    by (cases ord) (auto split: if_splits)
  then show ?thesis
    unfolding selectPlan_def by (intro select_plan_loop_first) (simp split: option.split)
qed


definition sample_binary :: "Kind \<Rightarrow> int \<Rightarrow> int \<Rightarrow> int \<Rightarrow> Binary" where
  "sample_binary k a b c = zero_Binary\<lparr>b_Kind := k, b_Version := zero_Version\<lparr>v_Major := a, v_Minor := b, v_Patch := c\<rparr>\<rparr>"

text \<open>A machine with mihomo and Xray, and a plan only Xray carries over a system adapter.\<close>

definition sample_registry :: Registry where
  "sample_registry = Discover (\<lambda>k. if k = KindMihomo then Some (sample_binary KindMihomo 1 19 32)
     else if k = KindXray then Some (sample_binary KindXray 26 3 27) else None) []"

definition sample_profile_plan :: Plan where
  "sample_profile_plan = zero_Plan\<lparr>p_SessionID := ''s'', p_Outbounds := [zero_Outbound\<lparr>o_ID := ''x'',
     o_Protocol := ProtocolXrayProfile, o_Server := ''a.example'', o_Port := 443\<rparr>],
     p_Tun := zero_Tun\<lparr>t_Enabled := True, t_Stack := ''system''\<rparr>\<rparr>"


section \<open>Pinning and discovery\<close>

lemma discover_fold:
  "map_of (rg_binaries (foldl (discover_kind probe) r kinds)) =
     (\<lambda>k. if k \<in> set kinds \<and> probe k \<noteq> None then probe k else map_of (rg_binaries r) k) \<and>
   rg_availability (foldl (discover_kind probe) r kinds) =
     rg_availability r @ map (\<lambda>k. case probe k of None \<Rightarrow> not_installed k | Some b \<Rightarrow> binary_Availability k b) kinds"
  by (induction kinds arbitrary: r) (auto simp: discover_kind_def update_conv' fun_eq_iff split: option.split)

text \<open>
  After discovery an engine is listed as usable exactly when its prober found a binary, and
  that binary is the one kept for it.
\<close>

theorem Discover_usable:
  assumes "kind \<in> set DefaultPreference"
  shows "map_of (rg_binaries (Discover probe tpws)) kind = probe kind \<and>
    (\<exists>a. latest (rg_availability (Discover probe tpws)) kind = Some a \<and> (a_Usable a \<longleftrightarrow> probe kind \<noteq> None))"
proof -
  let ?f = "\<lambda>k. case probe k of None \<Rightarrow> not_installed k | Some b \<Rightarrow> binary_Availability k b"
  have k: "a_Kind (?f k) = k" "a_Usable (?f k) \<longleftrightarrow> probe k \<noteq> None" for k
    by (simp_all add: not_installed_def binary_Availability_def split: option.split)
  have "find (\<lambda>a. a_Kind a = kind) (map ?f ks) = (if kind \<in> set ks then Some (?f kind) else None)" for ks
    by (induction ks) (auto simp: k(1))
  then show ?thesis
    using assms k(2) [of kind] by (simp add: Discover_def discover_fold latest_def rev_map)
qed

theorem Discover_usable_witness:
  "map_of (rg_binaries (Discover (\<lambda>k. if k = KindXray then Some (sample_binary KindXray 26 3 27) else None) [])) KindXray = Some (sample_binary KindXray 26 3 27)"
proof -
  have "KindXray \<in> set DefaultPreference" by code_simp
  from Discover_usable [OF this, of "\<lambda>k. if k = KindXray then Some (sample_binary KindXray 26 3 27) else None" "[]"]
  show ?thesis by simp
qed

text \<open>
  A pinned engine is the whole order for every plan that names its engines, whatever it asks for.
\<close>

theorem pin_overrides_request:
  assumes "fst (Pin kind r) = None" "kind \<noteq> []" "p_Engines p \<noteq> [] \<or> \<not> p_PrivateControl p"
  shows "factory_order (snd (Pin kind r)) p = Inr [kind]"
  using assms by (auto simp: Pin_def factory_order_def order_def split: if_splits)

theorem pin_overrides_request_witness:
  "fst (Pin KindMihomo sample_registry) = None \<and>
   factory_order (snd (Pin KindMihomo sample_registry)) (sample_plan\<lparr>p_Engines := [KindXray]\<rparr>) = Inr [KindMihomo]"
proof -
  have h: "fst (Pin KindMihomo sample_registry) = None" "KindMihomo \<noteq> []"
    "p_Engines (sample_plan\<lparr>p_Engines := [KindXray]\<rparr>) \<noteq> [] \<or> \<not> p_PrivateControl (sample_plan\<lparr>p_Engines := [KindXray]\<rparr>)"
    by code_simp+
  show ?thesis using pin_overrides_request [OF h] h(1) by blast
qed

text \<open>
  A plan that asks for a private controller and names no engines is given the private order
  even when the service is pinned to one engine: the pin does not hold for it.
\<close>

theorem private_control_ignores_pin:
  assumes "p_Engines p = []" "p_PrivateControl p"
  shows "factory_order (snd (Pin kind r)) p = Inr PrivatePreference"
  using assms by (auto simp: factory_order_def order_def)

theorem private_control_ignores_pin_witness:
  "factory_order (snd (Pin KindXray sample_registry)) (sample_plan\<lparr>p_PrivateControl := True\<rparr>)
     = Inr [KindSingBox, KindMihomo, KindXray]"
proof -
  have h: "p_Engines (sample_plan\<lparr>p_PrivateControl := True\<rparr>) = []" "p_PrivateControl (sample_plan\<lparr>p_PrivateControl := True\<rparr>)"
    by code_simp+
  show ?thesis
    using private_control_ignores_pin [OF h, of KindXray sample_registry] by (simp add: PrivatePreference_def)
qed

section \<open>Measuring\<close>

record 'e Measurement =
  me_OutboundID :: string
  me_Engine :: Kind
  me_Latency :: Duration
  me_Err :: "'e option"

text \<open>\<open>m[k] = append(m[k], x)\<close>.\<close>

definition append_at :: "string \<Rightarrow> 'v \<Rightarrow> 'v list go_map \<Rightarrow> 'v list go_map" where
  "append_at k x m = AList.update k ((case map_of m k of Some xs \<Rightarrow> xs | None \<Rightarrow> []) @ [x]) m"

text \<open>Which outbounds each engine measures, and those no engine carries.\<close>

definition measure_step :: "bool \<Rightarrow> Availability list \<Rightarrow> Kind list
    \<Rightarrow> Outbound list go_map \<times> Outbound list \<Rightarrow> Outbound \<Rightarrow> Outbound list go_map \<times> Outbound list" where
  "measure_step linux available ord acc x =
     (case acc of
        (by_k, orphans) \<Rightarrow>
          (case SelectEngine linux (Some (zero_Plan\<lparr>p_Outbounds := [x]\<rparr>)) available ord of
             (sel, Some _) \<Rightarrow> (by_k, orphans @ [x])
           | (sel, None) \<Rightarrow> (append_at (sel_Kind sel) x by_k, orphans)))"

definition measure_split :: "bool \<Rightarrow> Registry \<Rightarrow> Kind list \<Rightarrow> Outbound list \<Rightarrow> Outbound list go_map \<times> Outbound list" where
  "measure_split linux r ord xs = foldl (measure_step linux (rg_availability r) ord) ([], []) xs"

text \<open>
  \<open>Measure\<close> without the channels: \<open>run kind grp\<close> is what the engine's own measuring delivers
  before it returns and the error it returns; \<open>no_engine\<close> is \<open>ErrNoEngine\<close>.
\<close>

definition failures :: "Kind \<Rightarrow> 'e \<Rightarrow> Outbound list \<Rightarrow> 'e Measurement list" where
  "failures kind e = map (\<lambda>x. \<lparr>me_OutboundID = o_ID x, me_Engine = kind, me_Latency = 0, me_Err = Some e\<rparr>)"

definition group_measurements :: "(Kind \<Rightarrow> Outbound list \<Rightarrow> 'e Measurement list \<times> 'e option) \<Rightarrow> Kind
    \<Rightarrow> Outbound list \<Rightarrow> 'e Measurement list" where
  "group_measurements run kind grp =
     (case run kind grp of (ms, None) \<Rightarrow> ms | (ms, Some e) \<Rightarrow> ms @ failures kind e grp)"

definition Measure :: "'e \<Rightarrow> (Kind \<Rightarrow> Outbound list \<Rightarrow> 'e Measurement list \<times> 'e option) \<Rightarrow> bool \<Rightarrow> Registry
    \<Rightarrow> Kind list \<Rightarrow> Outbound list \<Rightarrow> reg_err + 'e Measurement list" where
  "Measure no_engine run linux r requested xs =
     (case order r requested of
        Inl e \<Rightarrow> Inl e
      | Inr ord \<Rightarrow>
          (case measure_split linux r ord xs of
             (grps, orphans) \<Rightarrow>
               Inr (failures [] no_engine orphans @
                    concat (map (\<lambda>(kind, grp). group_measurements run kind grp) grps))))"

text \<open>The temporary plan of \<open>measureThroughController\<close> and its names.\<close>

definition probe_name :: "nat \<Rightarrow> string" where
  "probe_name i = ''probe-'' @ Itoa (int (i + 1))"

definition probe_ids :: "Outbound list \<Rightarrow> string go_map" where
  "probe_ids xs = foldl (\<lambda>m (i, x). AList.update (probe_name i) (o_ID x) m) [] (enumerate 0 xs)"

definition measure_plan :: "string \<Rightarrow> Outbound list \<Rightarrow> Plan" where
  "measure_plan url xs =
     zero_Plan\<lparr>p_SessionID := ''measure'',
       p_Rules := [\<lparr>r_Type = RuleMatchAll, r_Value = [], r_Target = ''direct'', r_NoResolve = False\<rparr>],
       p_Options := zero_Options\<lparr>op_LogLevel := ''error'', op_TestURL := url\<rparr>,
       p_Outbounds := map (\<lambda>(i, x). x\<lparr>o_Name := probe_name i\<rparr>) (enumerate 0 xs)\<rparr>"

text \<open>
  The temporary engine of a controller measurement: whether it can be built, its \<open>Apply\<close>, and one
  timing through its controller.
\<close>

record 'e controller =
  ct_build_err :: "'e option"
  ct_Apply :: "Plan \<Rightarrow> 'e option"
  ct_Delay :: "string \<Rightarrow> string \<Rightarrow> Duration \<Rightarrow> Duration \<times> 'e option"

definition measureThroughController :: "'e controller \<Rightarrow> string \<Rightarrow> Duration \<Rightarrow> Kind \<Rightarrow> Outbound list
    \<Rightarrow> 'e Measurement list \<times> 'e option" where
  "measureThroughController ctl url timeout kind xs =
     (let timeout' = (if timeout \<le> 0 then 5 * Second else timeout) in
      case ct_build_err ctl of
        Some e \<Rightarrow> ([], Some e)
      | None \<Rightarrow>
          (case ct_Apply ctl (measure_plan url xs) of
             Some e \<Rightarrow> ([], Some e)
           | None \<Rightarrow>
               (map (\<lambda>(name, id). case ct_Delay ctl name url timeout' of
                        (d, err) \<Rightarrow> \<lparr>me_OutboundID = id, me_Engine = kind, me_Latency = d, me_Err = err\<rparr>)
                  (probe_ids xs), None)))"

lemma mset_append_at:
  "distinct (map fst m) \<Longrightarrow> mset (concat (map snd (append_at k x m))) = add_mset x (mset (concat (map snd m)))"
  unfolding append_at_def
  by (induction m) (auto simp: map_of_eq_None_iff dest: weak_map_of_SomeI split: option.splits)

lemma distinct_append_at: "distinct (map fst m) \<Longrightarrow> distinct (map fst (append_at k x m))"
  by (simp add: append_at_def distinct_update)

lemma measure_split_partition:
  "mset (concat (map snd (fst (measure_split linux r ord xs)))) + mset (snd (measure_split linux r ord xs)) = mset xs"
proof -
  let ?f = "measure_step linux (rg_availability r) ord"
  have "mset (concat (map snd (fst (foldl ?f acc xs)))) + mset (snd (foldl ?f acc xs))
      = mset (concat (map snd (fst acc))) + mset (snd acc) + mset xs \<and> distinct (map fst (fst (foldl ?f acc xs)))"
    if "distinct (map fst (fst acc))" for acc
    using that
  proof (induction xs arbitrary: acc)
    case (Cons x xs)
    have "distinct (map fst (fst (?f acc x)))"
      using Cons.prems by (auto simp: measure_step_def distinct_append_at split: prod.splits option.splits)
    moreover have "mset (concat (map snd (fst (?f acc x)))) + mset (snd (?f acc x))
        = mset (concat (map snd (fst acc))) + mset (snd acc) + {#x#}"
      using Cons.prems by (auto simp: measure_step_def mset_append_at split: prod.splits option.splits)
    ultimately show ?case using Cons.IH [of "?f acc x"] by simp
  qed simp
  from this [of "([], [])"] show ?thesis by (simp add: measure_split_def)
qed


section \<open>Xray's own measuring\<close>

text \<open>
  The measuring of \<open>engine/xray/engine.go\<close>.  The operations on the machine, ports, the temporary
  process and one timing, change a world and are fields of \<open>measure_env\<close>; \<open>RenderProbe\<close> is the
  configuration of the process.
\<close>

record ('w, 'e) measure_env =
  mv_FreePort :: "'w \<Rightarrow> ('e + int) \<times> 'w"
  mv_RenderProbe :: "Outbound list \<Rightarrow> int list \<Rightarrow> 'e + string"
  mv_Start :: "string \<Rightarrow> 'w \<Rightarrow> 'e option \<times> 'w"
  mv_waitListening :: "int \<Rightarrow> 'w \<Rightarrow> 'e option \<times> 'w"
  mv_timeThrough :: "int \<Rightarrow> string \<Rightarrow> Duration \<Rightarrow> 'w \<Rightarrow> (Duration \<times> 'e option) \<times> 'w"
  mv_Stop :: "'w \<Rightarrow> 'w"

definition TestURLProduction :: string where
  "TestURLProduction = ''https://www.gstatic.com/generate_204''"

definition probeBatch :: nat where
  "probeBatch = 128"

fun free_ports :: "('w, 'e) measure_env \<Rightarrow> nat \<Rightarrow> 'w \<Rightarrow> ('e + int list) \<times> 'w" where
  "free_ports env 0 w = (Inr [], w)"
| "free_ports env (Suc n) w =
     (case mv_FreePort env w of
        (Inl e, w') \<Rightarrow> (Inl e, w')
      | (Inr p, w') \<Rightarrow>
          (case free_ports env n w' of
             (Inl e, w'') \<Rightarrow> (Inl e, w'')
           | (Inr ps, w'') \<Rightarrow> (Inr (p # ps), w'')))"

fun time_batch :: "('w, 'e) measure_env \<Rightarrow> string \<Rightarrow> Duration \<Rightarrow> (Outbound \<times> int) list \<Rightarrow> 'w \<Rightarrow> 'e Measurement list \<times> 'w" where
  "time_batch env url timeout [] w = ([], w)"
| "time_batch env url timeout ((x, port) # xs) w =
     (case mv_timeThrough env port url timeout w of
        ((d, err), w') \<Rightarrow>
          (case time_batch env url timeout xs w' of
             (ms, w'') \<Rightarrow> (\<lparr>me_OutboundID = o_ID x, me_Engine = KindXray, me_Latency = d, me_Err = err\<rparr> # ms, w'')))"

definition measureBatch :: "('w, 'e) measure_env \<Rightarrow> string \<Rightarrow> Duration \<Rightarrow> Outbound list \<Rightarrow> 'w
    \<Rightarrow> ('e Measurement list \<times> 'e option) \<times> 'w" where
  "measureBatch env url timeout batch w =
     (case free_ports env (length batch) w of
        (Inl e, w1) \<Rightarrow> (([], Some e), w1)
      | (Inr ports, w1) \<Rightarrow>
          (case mv_RenderProbe env batch ports of
             Inl e \<Rightarrow> (([], Some e), w1)
           | Inr raw \<Rightarrow>
               (case mv_Start env raw w1 of
                  (Some e, w2) \<Rightarrow> (([], Some e), w2)
                | (None, w2) \<Rightarrow>
                    (case mv_waitListening env (last ports) w2 of
                       (Some e, w3) \<Rightarrow> (([], Some e), mv_Stop env w3)
                     | (None, w3) \<Rightarrow>
                         (case time_batch env url timeout (zip batch ports) w3 of
                            (ms, w4) \<Rightarrow> ((ms, None), mv_Stop env w4))))))"

function measure_batches :: "('w, 'e) measure_env \<Rightarrow> string \<Rightarrow> Duration \<Rightarrow> Outbound list \<Rightarrow> 'w
    \<Rightarrow> 'e Measurement list \<times> 'e option" where
  "measure_batches env url timeout xs w =
     (if xs = [] then ([], None)
      else case measureBatch env url timeout (take probeBatch xs) w of
             ((ms, Some e), w') \<Rightarrow> (ms, Some e)
           | ((ms, None), w') \<Rightarrow>
               (case measure_batches env url timeout (drop probeBatch xs) w' of (ms', err) \<Rightarrow> (ms @ ms', err)))"
  by pat_completeness auto
termination
  by (relation "measure (\<lambda>(env, url, timeout, xs, w). length xs)") (auto simp: probeBatch_def)

declare measure_batches.simps [simp del]

definition xray_Measure :: "('w, 'e) measure_env \<Rightarrow> string \<Rightarrow> Duration \<Rightarrow> Outbound list \<Rightarrow> 'w \<Rightarrow> 'e Measurement list \<times> 'e option" where
  "xray_Measure env url timeout xs w =
     measure_batches env (if url = [] then TestURLProduction else url)
       (if timeout \<le> 0 then 5 * Second else timeout) xs w"

text \<open>The measuring function each driver of the registry has; \<open>ctl kind\<close> is the engine a controller
  measurement starts.\<close>

definition driver_measure :: "(Kind \<Rightarrow> 'e controller) \<Rightarrow> ('w, 'e) measure_env \<Rightarrow> 'w \<Rightarrow> string \<Rightarrow> Duration
    \<Rightarrow> Kind \<Rightarrow> Outbound list \<Rightarrow> 'e Measurement list \<times> 'e option" where
  "driver_measure ctl env w url timeout kind xs =
     (if kind = KindXray then xray_Measure env url timeout xs w
      else measureThroughController (ctl kind) url timeout kind xs)"

section \<open>One result per server\<close>

lemma failures_ids [simp]: "map me_OutboundID (failures kind e xs) = map o_ID xs"
  by (simp add: failures_def comp_def)

text \<open>
  What \<open>Registry.Measure\<close> relies on: a measuring function that succeeds delivers one result per
  outbound, and one that fails has delivered at most that.
\<close>

lemma between_add:
  assumes "A \<subseteq># B" "B \<subseteq># A + A" "C \<subseteq># D" "D \<subseteq># C + C"
  shows "A + C \<subseteq># B + D \<and> B + D \<subseteq># (A + C) + (A + C)"
  using subset_mset.add_mono [OF assms(1, 3)] subset_mset.add_mono [OF assms(2, 4)] by (simp add: ac_simps)

locale measuring =
  fixes run :: "Kind \<Rightarrow> Outbound list \<Rightarrow> 'e Measurement list \<times> 'e option"
  assumes delivered: "run kind xs = (ms, None) \<Longrightarrow> mset (map me_OutboundID ms) = mset (map o_ID xs)"
    and failed: "run kind xs = (ms, Some e) \<Longrightarrow> mset (map me_OutboundID ms) \<subseteq># mset (map o_ID xs)"
begin

lemma group_results:
  "mset (map o_ID grp) \<subseteq># mset (map me_OutboundID (group_measurements run kind grp)) \<and>
   mset (map me_OutboundID (group_measurements run kind grp)) \<subseteq># mset (map o_ID grp) + mset (map o_ID grp)"
proof (cases "run kind grp")
  case (Pair ms err)
  then show ?thesis
  proof (cases err)
    case None
    then show ?thesis using delivered Pair by (simp add: group_measurements_def)
  next
    case (Some e)
    then show ?thesis
      using failed Pair by (simp add: group_measurements_def del: mset_map)
  qed
qed

lemma groups_results:
  "mset (map o_ID (concat (map snd grps)))
     \<subseteq># mset (map me_OutboundID (concat (map (\<lambda>(kind, grp). group_measurements run kind grp) grps))) \<and>
   mset (map me_OutboundID (concat (map (\<lambda>(kind, grp). group_measurements run kind grp) grps)))
     \<subseteq># mset (map o_ID (concat (map snd grps))) + mset (map o_ID (concat (map snd grps)))"
proof (induction grps)
  case (Cons g grps)
  obtain kind grp where g: "g = (kind, grp)" by (cases g)
  show ?case
    using between_add [of "mset (map o_ID grp)"] Cons.IH group_results [of grp kind]
    unfolding g list.map concat.simps map_append mset_append split_conv snd_conv by blast
qed simp

lemma Measure_results:
  assumes "Measure no_engine run linux r requested xs = Inr ms"
  shows "mset (map o_ID xs) \<subseteq># mset (map me_OutboundID ms)"
    and "mset (map me_OutboundID ms) \<subseteq># mset (map o_ID xs) + mset (map o_ID xs)"
proof -
  obtain ord where o: "order r requested = Inr ord"
    using assms by (auto simp: Measure_def split: sum.splits)
  obtain grps orphans where g: "measure_split linux r ord xs = (grps, orphans)" by fastforce
  have xs: "mset (map o_ID xs) = mset (map o_ID (concat (map snd grps))) + mset (map o_ID orphans)"
    using measure_split_partition [of linux r ord xs] g by (metis fst_conv image_mset_union mset_map snd_conv)
  have ms: "mset (map me_OutboundID ms) = mset (map o_ID orphans) +
      mset (map me_OutboundID (concat (map (\<lambda>(kind, grp). group_measurements run kind grp) grps)))"
    using assms o g by (auto simp: Measure_def simp del: mset_map)
  show "mset (map o_ID xs) \<subseteq># mset (map me_OutboundID ms)"
    and "mset (map me_OutboundID ms) \<subseteq># mset (map o_ID xs) + mset (map o_ID xs)"
    unfolding xs ms add.commute [of "mset (map o_ID orphans)"]
    using between_add [OF conjunct1 [OF groups_results [of grps]] conjunct2 [OF groups_results [of grps]],
        of "mset (map o_ID orphans)" "mset (map o_ID orphans)"]
    by simp_all
qed

end

text \<open>The names of a controller measurement are distinct, so it times every outbound once.\<close>

lemma probe_name_inj:
  assumes "probe_name i = probe_name j"
  shows "i = j"
proof -
  have "nat_digits (Suc i) = nat_digits (Suc j)"
    using assms by (simp add: probe_name_def Itoa_def del: nat_digits.simps flip: of_nat_Suc)
  then show ?thesis by (metis digits_value_nat_digits nat.inject)
qed

lemma update_new: "k \<notin> fst ` set m \<Longrightarrow> AList.update k v m = m @ [(k, v)]"
  by (induction m) auto

lemma probe_ids_enum: "probe_ids xs = map (\<lambda>(i, x). (probe_name i, o_ID x)) (enumerate 0 xs)"
proof -
  have "foldl (\<lambda>m (i, x). AList.update (probe_name i) (o_ID x) m) m (enumerate n xs)
      = m @ map (\<lambda>(i, x). (probe_name i, o_ID x)) (enumerate n xs)"
    if "\<forall>i \<ge> n. probe_name i \<notin> fst ` set m" for m n
    using that
  proof (induction xs arbitrary: m n)
    case (Cons x xs)
    have "AList.update (probe_name n) (o_ID x) m = m @ [(probe_name n, o_ID x)]"
      using Cons.prems by (simp add: update_new)
    moreover have "\<forall>i \<ge> Suc n. probe_name i \<notin> fst ` set (m @ [(probe_name n, o_ID x)])"
      using Cons.prems by (auto dest: probe_name_inj)
    ultimately show ?case using Cons.IH by simp
  qed simp
  from this [of 0 "[]"] show ?thesis by (simp add: probe_ids_def)
qed

lemma probe_ids_snd: "map snd (probe_ids xs) = map o_ID xs"
proof -
  have "map (\<lambda>x. o_ID (snd x)) (enumerate n xs) = map o_ID xs" for n
    by (induction xs arbitrary: n) simp_all
  then show ?thesis by (simp add: probe_ids_enum comp_def split_def)
qed

lemma controller_ids:
  "measureThroughController ctl url timeout kind xs = (ms, None) \<Longrightarrow> map me_OutboundID ms = map o_ID xs"
  "measureThroughController ctl url timeout kind xs = (ms, Some e) \<Longrightarrow> ms = []"
  using probe_ids_snd [of xs]
  by (auto simp: measureThroughController_def Let_def comp_def split_def split: option.splits)

lemma time_batch_ids:
  "time_batch env url timeout (zip xs ports) w = (ms, w') \<Longrightarrow> length ports = length xs \<Longrightarrow> map me_OutboundID ms = map o_ID xs"
  by (induction xs arbitrary: ports w ms) (auto simp: length_Suc_conv split: prod.splits)

lemma free_ports_length: "free_ports env n w = (Inr ports, w') \<Longrightarrow> length ports = n"
  by (induction n arbitrary: ports w w') (auto split: prod.splits sum.splits)

lemma measureBatch_ids:
  "measureBatch env url timeout xs w = ((ms, err), w') \<Longrightarrow> if err = None then map me_OutboundID ms = map o_ID xs else ms = []"
  by (auto simp: measureBatch_def split: prod.splits sum.splits option.splits dest!: free_ports_length time_batch_ids)

lemma measure_batches_ids:
  "measure_batches env url timeout xs w = (ms, err) \<Longrightarrow>
   \<exists>n. map me_OutboundID ms = map o_ID (take n xs) \<and> (err = None \<longrightarrow> take n xs = xs)"
proof (induction env url timeout xs w arbitrary: ms rule: measure_batches.induct)
  case (1 env url timeout xs w)
  show ?case
  proof (cases "xs = []")
    case False
    obtain ms1 err1 w' where b: "measureBatch env url timeout (take probeBatch xs) w = ((ms1, err1), w')"
      by (metis prod.collapse)
    show ?thesis
    proof (cases err1)
      case None
      obtain ms2 where rest: "measure_batches env url timeout (drop probeBatch xs) w' = (ms2, err)" and ms: "ms = ms1 @ ms2"
        using 1(2) b None False measure_batches.simps [of env url timeout xs w] by (auto split: prod.splits)
      obtain n where n: "map me_OutboundID ms2 = map o_ID (take n (drop probeBatch xs))"
          "err = None \<longrightarrow> take n (drop probeBatch xs) = drop probeBatch xs"
        using 1(1) [OF False b [symmetric] refl None rest] by blast
      have "map me_OutboundID ms = map o_ID (take (probeBatch + n) xs)"
        using measureBatch_ids [OF b] None ms n(1) by (simp add: take_add)
      moreover have "err = None \<longrightarrow> take (probeBatch + n) xs = xs" using n(2) by (simp add: take_add)
      ultimately show ?thesis by blast
    next
      case (Some e)
      then have "ms = []" "err = Some e"
        using 1(2) b False measureBatch_ids [OF b] measure_batches.simps [of env url timeout xs w] by simp_all
      then show ?thesis by (intro exI [of _ 0]) simp
    qed
  qed (use 1(2) in \<open>simp add: measure_batches.simps\<close>)
qed

interpretation registry_measuring: measuring "driver_measure ctl env w url timeout"
  for ctl :: "Kind \<Rightarrow> 'e controller" and env :: "('w, 'e) measure_env" and w url timeout
proof unfold_locales
  fix kind xs and ms :: "'e Measurement list"
  assume "driver_measure ctl env w url timeout kind xs = (ms, None)"
  then have "map me_OutboundID ms = map o_ID xs"
    using controller_ids(1) measure_batches_ids by (fastforce simp: driver_measure_def xray_Measure_def split: if_splits)
  then show "mset (map me_OutboundID ms) = mset (map o_ID xs)" by simp
next
  fix kind xs and ms :: "'e Measurement list" and e
  assume "driver_measure ctl env w url timeout kind xs = (ms, Some e)"
  then have "\<exists>n. map me_OutboundID ms = map o_ID (take n xs)"
  proof (cases "kind = KindXray")
    case False
    then have "ms = []" using \<open>driver_measure ctl env w url timeout kind xs = (ms, Some e)\<close> controller_ids(2)
      by (simp add: driver_measure_def)
    then show ?thesis by (intro exI [of _ 0]) simp
  qed (auto simp: driver_measure_def xray_Measure_def dest: measure_batches_ids)
  then obtain n where "map me_OutboundID ms = map o_ID (take n xs)" by blast
  moreover have "mset (map o_ID (take n xs)) \<subseteq># mset (map o_ID xs)"
    by (metis append_take_drop_id map_append mset_append mset_subset_eq_add_left)
  ultimately show "mset (map me_OutboundID ms) \<subseteq># mset (map o_ID xs)" by simp
qed

text \<open>
  C20. The stream of \<open>Registry.Measure\<close> has a result for every outbound it was given, counted with
  multiplicity, none for anything else, and never more than two for one outbound.
\<close>

theorem Measure_every_server:
  assumes "Measure no_engine (driver_measure ctl env w url timeout) linux r requested xs = Inr ms"
  shows "mset (map o_ID xs) \<subseteq># mset (map me_OutboundID ms) \<and>
    mset (map me_OutboundID ms) \<subseteq># mset (map o_ID xs) + mset (map o_ID xs)"
  using registry_measuring.Measure_results [OF assms] by blast

text \<open>A machine on which every start of Xray after the first fails; the world counts the starts.\<close>

definition flaky_env :: "(nat, string) measure_env" where
  "flaky_env =
     \<lparr>mv_FreePort = \<lambda>w. (Inr 40000, w),
      mv_RenderProbe = \<lambda>batch ports. Inr [],
      mv_Start = \<lambda>raw w. (if w = 0 then None else Some ''xray: exit status 23'', Suc w),
      mv_waitListening = \<lambda>port w. (None, w),
      mv_timeThrough = \<lambda>port url timeout w. ((Second, None), w),
      mv_Stop = \<lambda>w. w\<rparr>"

definition dead_controller :: "Kind \<Rightarrow> string controller" where
  "dead_controller kind =
     \<lparr>ct_build_err = Some ''not built'', ct_Apply = \<lambda>p. None, ct_Delay = \<lambda>name url timeout. (0, None)\<rparr>"

theorem Measure_every_server_witness:
  "\<exists>ms. Measure ''no engine'' (driver_measure dead_controller flaky_env 1 [] 0) True sample_registry [KindXray]
      [sample_outbound, sample_outbound\<lparr>o_ID := ''b''\<rparr>] = Inr ms \<and>
    {#o_ID sample_outbound, ''b''#} \<subseteq># mset (map me_OutboundID ms)"
proof -
  let ?m = "Measure ''no engine'' (driver_measure dead_controller flaky_env 1 [] 0) True sample_registry [KindXray]
      [sample_outbound, sample_outbound\<lparr>o_ID := ''b''\<rparr>]"
  have "Inr (projr ?m) = ?m" by code_simp
  from Measure_every_server [OF this [symmetric]] this show ?thesis
    by (intro exI [of _ "projr ?m"]) (simp only: list.map mset.simps Outbound.simps, simp)
qed

text \<open>
  When a later batch of Xray's measuring cannot start, the servers of the first batch are
  reported twice: once with their timing and once with the error of the failed batch.
\<close>

theorem late_batch_reports_twice:
  assumes "probeBatch < length xs" "url \<noteq> []" "0 < timeout"
    and "measureBatch env url timeout (take probeBatch xs) w = ((ms, None), w')"
    and "measureBatch env url timeout (take probeBatch (drop probeBatch xs)) w' = (([], Some e), w'')"
  shows "map me_OutboundID (group_measurements (driver_measure ctl env w url timeout) KindXray xs)
    = map o_ID (take probeBatch xs) @ map o_ID xs"
proof -
  have "measure_batches env url timeout (drop probeBatch xs) w' = ([], Some e)"
    using assms by (subst measure_batches.simps) simp
  then have "measure_batches env url timeout xs w = (ms, Some e)"
    using assms by (subst measure_batches.simps) auto
  then show ?thesis
    using measureBatch_ids [OF assms(4)] assms(2, 3)
    by (simp add: group_measurements_def driver_measure_def xray_Measure_def)
qed

theorem late_batch_reports_twice_witness:
  "length (group_measurements (driver_measure dead_controller flaky_env 0 ''u'' 1) KindXray (replicate 129 sample_outbound)) = 257"
proof -
  let ?xs = "replicate 129 sample_outbound"
  have b: "probeBatch < length ?xs" "''u'' \<noteq> []" "(0::int) < 1" by (simp_all add: probeBatch_def)
  let ?m = "measureBatch flaky_env ''u'' 1 (take probeBatch ?xs) 0"
  have m: "?m = ((fst (fst ?m), None), 1)" by code_simp
  have n: "measureBatch flaky_env ''u'' 1 (take probeBatch (drop probeBatch ?xs)) 1 = (([], Some ''xray: exit status 23''), 2)"
    by code_simp
  show ?thesis
    using late_batch_reports_twice [OF b m n, of dead_controller, THEN arg_cong [where f = length]]
    by (simp add: probeBatch_def)
qed

end
