(* ===== verification/ErrClassify.thy ===== *)
theory ErrClassify
  imports ErrCatalog GoNetip
begin

text \<open>
  Classification of errors, \<open>errs/classify.go\<close> and the readers of \<open>errs/errs.go\<close>.  A Go error is
  a tree: \<open>goerr\<close> has one constructor per error type the classification looks for, \<open>WrapE\<close> for any
  other type with its own text that unwraps to an error, and \<open>TextE\<close> for one without a cause.
  \<open>errors.Is\<close> and \<open>errors.As\<close> search the tree in pre-order.  An \<open>OpError\<close> without a cause, which
  cannot be printed in Go, is printed here by its head.
\<close>

section \<open>Errors\<close>

datatype errno =
  ECONNREFUSED | ECONNRESET | EHOSTUNREACH | ENETUNREACH | ENETDOWN | ETIMEDOUT | EPIPE | EHOSTDOWN |
  EAGAIN | ENOENT | EACCES | EPERM | Errno nat

datatype cert_reason =
  Expired | NameMismatch | CANotAuthorizedForThisName | NotAuthorizedToSign | IncompatibleUsage | OtherReason nat

datatype goerr =
    CatalogE Code Key string "goerr option" bool Duration
  | CanceledE
  | DeadlineE
  | URLE string string goerr
  | PathE string string goerr
  | LinkE string string string goerr
  | SyscallE string goerr
  | OpE string string "string option" "string option" "goerr option"
  | DNSE string string string bool "goerr option"
  | NetE string bool bool
  | CertVerificationE goerr
  | UnknownAuthorityE string
  | HostnameE string
  | CertInvalidE cert_reason string
  | InsecureAlgorithmE string
  | RecordHeaderE string
  | AlertE nat string
  | ErrnoE errno string
  | UnexpectedEOFE
  | NotExistE
  | PermissionE
  | NetClosedE
  | JoinE "goerr list"
  | WrapE string goerr
  | TextE string

text \<open>\<open>strconv.Quote\<close>; bytes outside ASCII are kept as they are.\<close>

definition quote_char :: "char \<Rightarrow> string" where
  "quote_char c =
     (if c = CHR 0x22 \<or> c = CHR 0x5C then [CHR 0x5C, c]
      else if c = CHR 0x0A then [CHR 0x5C, CHR ''n'']
      else if c = CHR 0x0D then [CHR 0x5C, CHR ''r'']
      else if c = CHR 0x09 then [CHR 0x5C, CHR ''t'']
      else if c = CHR 0x07 then [CHR 0x5C, CHR ''a'']
      else if c = CHR 0x08 then [CHR 0x5C, CHR ''b'']
      else if c = CHR 0x0C then [CHR 0x5C, CHR ''f'']
      else if c = CHR 0x0B then [CHR 0x5C, CHR ''v'']
      else if (of_char c :: nat) < 32 \<or> c = CHR 0x7F then
        [CHR 0x5C, CHR ''x'', hex_char (of_char c div 16), hex_char (of_char c mod 16)]
      else [c])"

definition Quote :: "string \<Rightarrow> string" where
  "Quote s = [CHR 0x22] @ concat (map quote_char s) @ [CHR 0x22]"

text \<open>The \<open>Error\<close> methods.\<close>

fun err_text :: "goerr \<Rightarrow> string" where
  "err_text (CatalogE code key detail c r a) = code @ '' '' @ key @ (if detail \<noteq> [] then '': '' @ detail else [])"
| "err_text CanceledE = ''context canceled''"
| "err_text DeadlineE = ''context deadline exceeded''"
| "err_text (URLE op u e) = op @ '' '' @ Quote u @ '': '' @ err_text e"
| "err_text (PathE op p e) = op @ '' '' @ p @ '': '' @ err_text e"
| "err_text (LinkE op p q e) = op @ '' '' @ p @ '' '' @ q @ '': '' @ err_text e"
| "err_text (SyscallE call e) = call @ '': '' @ err_text e"
| "err_text (OpE op net src addr e) =
     op @ (if net \<noteq> [] then '' '' @ net else []) @
     (case src of Some s \<Rightarrow> '' '' @ s | None \<Rightarrow> []) @
     (case addr of Some a \<Rightarrow> (if src = None then '' '' else ''->'') @ a | None \<Rightarrow> []) @
     '': '' @ (case e of Some x \<Rightarrow> err_text x | None \<Rightarrow> [])"
| "err_text (DNSE msg host server t e) = ''lookup '' @ host @ (if server \<noteq> [] then '' on '' @ server else []) @ '': '' @ msg"
| "err_text (NetE msg t d) = msg"
| "err_text (CertVerificationE e) = ''tls: failed to verify certificate: '' @ err_text e"
| "err_text (UnknownAuthorityE msg) = msg"
| "err_text (HostnameE msg) = msg"
| "err_text (CertInvalidE r msg) = msg"
| "err_text (InsecureAlgorithmE msg) = msg"
| "err_text (RecordHeaderE msg) = msg"
| "err_text (AlertE n msg) = msg"
| "err_text (ErrnoE n msg) = msg"
| "err_text UnexpectedEOFE = ''unexpected EOF''"
| "err_text NotExistE = ''file does not exist''"
| "err_text PermissionE = ''permission denied''"
| "err_text NetClosedE = ''use of closed network connection''"
| "err_text (JoinE es) = Join (map err_text es) [CHR 0x0A]"
| "err_text (WrapE msg e) = msg"
| "err_text (TextE msg) = msg"

text \<open>The \<open>Unwrap\<close> methods.\<close>

fun causes :: "goerr \<Rightarrow> goerr list" where
  "causes (CatalogE code key detail c r a) = (case c of Some e \<Rightarrow> [e] | None \<Rightarrow> [])"
| "causes (URLE op u e) = [e]"
| "causes (PathE op p e) = [e]"
| "causes (LinkE op p q e) = [e]"
| "causes (SyscallE call e) = [e]"
| "causes (OpE op net src addr c) = (case c of Some e \<Rightarrow> [e] | None \<Rightarrow> [])"
| "causes (DNSE msg host server t c) = (case c of Some e \<Rightarrow> [e] | None \<Rightarrow> [])"
| "causes (CertVerificationE e) = [e]"
| "causes (JoinE es) = es"
| "causes (WrapE msg e) = [e]"
| "causes e = []"

lemma causes_smaller: "x \<in> set (causes e) \<Longrightarrow> size x < size e"
  by (cases e) (auto simp: less_Suc_eq_le dest: size_list_estimation' [where f = size] split: option.splits)

function chain :: "goerr \<Rightarrow> goerr list" where
  "chain e = e # concat (map chain (causes e))"
  by pat_completeness auto
termination
  by (relation "measure size") (auto dest: causes_smaller)

declare chain.simps [simp del]

lemma chain_size: "x \<in> set (chain e) \<Longrightarrow> size x \<le> size e"
proof (induction e rule: chain.induct)
  case (1 e)
  then have "x = e \<or> (\<exists>c \<in> set (causes e). x \<in> set (chain c))"
    by (subst (asm) (2) chain.simps) auto
  then show ?case using 1(1) causes_smaller by (meson order.strict_implies_order order.trans order_refl)
qed

section \<open>Searching the tree\<close>

fun first_some :: "('a \<Rightarrow> 'b option) \<Rightarrow> 'a list \<Rightarrow> 'b option" where
  "first_some f [] = None"
| "first_some f (x # xs) = (case f x of Some y \<Rightarrow> Some y | None \<Rightarrow> first_some f xs)"

definition err_As :: "(goerr \<Rightarrow> 'a option) \<Rightarrow> goerr \<Rightarrow> 'a option" where
  "err_As f e = first_some f (chain e)"

definition err_Is :: "(goerr \<Rightarrow> bool) \<Rightarrow> goerr \<Rightarrow> bool" where
  "err_Is p e = list_ex p (chain e)"

definition as_catalog :: "goerr \<Rightarrow> goerr Error option" where
  "as_catalog e =
     (case e of
        CatalogE code key detail c r a \<Rightarrow>
          Some \<lparr>er_code = code, er_key = key, er_detail = detail, er_cause = c, er_retryable = r, er_retryAfter = a\<rparr>
      | _ \<Rightarrow> None)"

definition as_url :: "goerr \<Rightarrow> (string \<times> goerr) option" where
  "as_url e = (case e of URLE op u x \<Rightarrow> Some (op, x) | _ \<Rightarrow> None)"

definition as_path :: "goerr \<Rightarrow> (string \<times> goerr) option" where
  "as_path e = (case e of PathE op p x \<Rightarrow> Some (op, x) | _ \<Rightarrow> None)"

definition as_op :: "goerr \<Rightarrow> (string \<times> goerr option) option" where
  "as_op e = (case e of OpE op net src addr x \<Rightarrow> Some (op, x) | _ \<Rightarrow> None)"

definition as_dns :: "goerr \<Rightarrow> string option" where
  "as_dns e = (case e of DNSE msg host server t x \<Rightarrow> Some msg | _ \<Rightarrow> None)"

definition as_verification :: "goerr \<Rightarrow> goerr option" where
  "as_verification e = (case e of CertVerificationE x \<Rightarrow> Some x | _ \<Rightarrow> None)"

text \<open>An error with a \<open>Timeout\<close> method that says yes, and the types that are a \<open>net.Error\<close>.\<close>

fun says_timeout :: "goerr \<Rightarrow> bool" where
  "says_timeout DeadlineE = True"
| "says_timeout (URLE op u e) = says_timeout e"
| "says_timeout (PathE op p e) = says_timeout e"
| "says_timeout (SyscallE call e) = says_timeout e"
| "says_timeout (OpE op net src addr c) = (case c of Some e \<Rightarrow> says_timeout e | None \<Rightarrow> False)"
| "says_timeout (DNSE msg host server t c) = t"
| "says_timeout (NetE msg t d) = t"
| "says_timeout (ErrnoE n msg) = (n = EAGAIN \<or> n = ETIMEDOUT)"
| "says_timeout e = False"

definition as_net :: "goerr \<Rightarrow> bool option" where
  "as_net e =
     (case e of
        DeadlineE \<Rightarrow> Some (says_timeout e)
      | URLE _ _ _ \<Rightarrow> Some (says_timeout e)
      | OpE _ _ _ _ _ \<Rightarrow> Some (says_timeout e)
      | DNSE _ _ _ _ _ \<Rightarrow> Some (says_timeout e)
      | NetE _ _ _ \<Rightarrow> Some (says_timeout e)
      | ErrnoE _ _ \<Rightarrow> Some (says_timeout e)
      | NetClosedE \<Rightarrow> Some False
      | _ \<Rightarrow> None)"

definition is_deadline :: "goerr \<Rightarrow> bool" where
  "is_deadline e = (case e of DeadlineE \<Rightarrow> True | NetE msg t d \<Rightarrow> d | _ \<Rightarrow> False)"

definition is_errno :: "errno list \<Rightarrow> goerr \<Rightarrow> bool" where
  "is_errno ns e = (case e of ErrnoE n msg \<Rightarrow> n \<in> set ns | _ \<Rightarrow> False)"

definition is_not_exist :: "goerr \<Rightarrow> bool" where
  "is_not_exist e \<longleftrightarrow> e = NotExistE \<or> is_errno [ENOENT] e"

definition is_permission :: "goerr \<Rightarrow> bool" where
  "is_permission e \<longleftrightarrow> e = PermissionE \<or> is_errno [EACCES, EPERM] e"

definition os_IsNotExist :: "goerr \<Rightarrow> bool" where
  "os_IsNotExist e =
     is_not_exist (case e of PathE op p x \<Rightarrow> x | LinkE op p q x \<Rightarrow> x | SyscallE call x \<Rightarrow> x | _ \<Rightarrow> e)"

section \<open>Classification\<close>

definition netDetail :: "goerr \<Rightarrow> goerr" where
  "netDetail e =
     (case err_As as_op e of
        Some (op, None) \<Rightarrow> TextE op
      | Some (op, Some x) \<Rightarrow> WrapE (op @ '': '' @ err_text x) x
      | None \<Rightarrow>
          (case err_As as_dns e of
             Some msg \<Rightarrow> if msg = [] then TextE ''lookup'' else TextE (''lookup: '' @ msg)
           | None \<Rightarrow> e))"

fun invalidReason :: "cert_reason \<Rightarrow> string" where
  "invalidReason Expired = ''it expired''"
| "invalidReason NameMismatch = ''it is issued for another name''"
| "invalidReason CANotAuthorizedForThisName = ''its issuer does not allow this name''"
| "invalidReason NotAuthorizedToSign = ''its issuer is not allowed to sign it''"
| "invalidReason IncompatibleUsage = ''its usage does not cover this handshake''"
| "invalidReason (OtherReason n) = ''the chain was rejected''"

definition cert_fail :: "string \<Rightarrow> goerr Error" where
  "cert_fail detail =
     \<lparr>er_code = CodeTLS, er_key = KeyTLSCertificate, er_detail = detail, er_cause = None, er_retryable = False,
      er_retryAfter = 0\<rparr>"

definition cert_detail :: "goerr \<Rightarrow> string option" where
  "cert_detail e =
     (if err_Is (\<lambda>x. case x of UnknownAuthorityE m \<Rightarrow> True | _ \<Rightarrow> False) e
        then Some ''the certificate is signed by an unknown authority''
      else if err_Is (\<lambda>x. case x of HostnameE m \<Rightarrow> True | _ \<Rightarrow> False) e
        then Some ''the certificate is valid for another name''
      else case err_As (\<lambda>x. case x of CertInvalidE r m \<Rightarrow> Some r | _ \<Rightarrow> None) e of
        Some r \<Rightarrow> Some (''the certificate is not usable: '' @ invalidReason r)
      | None \<Rightarrow>
          if err_Is (\<lambda>x. case x of InsecureAlgorithmE m \<Rightarrow> True | _ \<Rightarrow> False) e
            then Some ''the certificate uses an insecure algorithm''
          else if err_Is (\<lambda>x. case x of RecordHeaderE m \<Rightarrow> True | _ \<Rightarrow> False) e
            then Some ''the peer did not answer with a TLS handshake''
          else case err_As (\<lambda>x. case x of AlertE n m \<Rightarrow> Some n | _ \<Rightarrow> None) e of
            Some n \<Rightarrow> Some (''the peer aborted the handshake with alert '' @ Itoa (int n))
          | None \<Rightarrow> None)"

lemma first_some_member: "first_some f xs = Some y \<Longrightarrow> \<exists>x \<in> set xs. f x = Some y"
  by (induction xs) (auto split: option.splits)

lemma as_verification_smaller: "err_As as_verification e = Some x \<Longrightarrow> size x < size e"
  by (auto simp: err_As_def as_verification_def split: goerr.splits dest!: first_some_member chain_size)

function fromCertificateError :: "goerr \<Rightarrow> goerr Error option" where
  "fromCertificateError e =
     (case err_As as_verification e of
        Some x \<Rightarrow> fromCertificateError x
      | None \<Rightarrow> map_option cert_fail (cert_detail e))"
  by pat_completeness auto
termination
  by (relation "measure size") (auto dest: as_verification_smaller)

declare fromCertificateError.simps [simp del]

definition isRefused :: "goerr \<Rightarrow> bool" where
  "isRefused e = err_Is (is_errno [ECONNREFUSED]) e"

definition isNetworkFailure :: "goerr \<Rightarrow> bool" where
  "isNetworkFailure e \<longleftrightarrow>
     err_Is (is_errno [ECONNRESET]) e \<or> err_Is (is_errno [EHOSTUNREACH]) e \<or> err_Is (is_errno [ENETUNREACH]) e \<or>
     err_Is (is_errno [ENETDOWN]) e \<or> err_Is (is_errno [ETIMEDOUT]) e \<or> err_Is (is_errno [EPIPE]) e \<or>
     err_Is (is_errno [EHOSTDOWN]) e \<or> err_Is (\<lambda>x. x = NetClosedE) e"

text \<open>\<open>fromURLError\<close> and \<open>fromPathError\<close>: the operation and the classified cause, nothing else.\<close>

definition from_inner :: "string \<Rightarrow> goerr Error \<Rightarrow> goerr Error" where
  "from_inner op inner =
     \<lparr>er_code = er_code inner, er_key = er_key inner,
      er_detail = op @ (if er_detail inner \<noteq> [] then '': '' @ er_detail inner else []),
      er_cause = None, er_retryable = er_retryable inner, er_retryAfter = 0\<rparr>"

definition classify_leaf :: "goerr \<Rightarrow> goerr Error" where
  "classify_leaf e =
     (if isRefused e then err_New err_text CodeUnavailable KeyConnectionRefused (Some (netDetail e))
      else if isNetworkFailure e then err_New err_text CodeUnavailable KeyNetworkFailed (Some (netDetail e))
      else if err_Is (\<lambda>x. x = UnexpectedEOFE) e then err_New err_text CodeUnavailable KeyNetworkFailed (Some (netDetail e))
      else if err_Is is_not_exist e \<or> os_IsNotExist e then err_New err_text CodeNotFound KeyNotFound (Some e)
      else if err_Is is_permission e then err_New err_text CodePermissionDenied KeyPermissionDenied (Some e)
      else err_New err_text CodeInternal KeyInternal (Some e))"

lemma as_url_smaller: "err_As as_url e = Some (op, x) \<Longrightarrow> size x < size e"
  by (auto simp: err_As_def as_url_def split: goerr.splits dest!: first_some_member chain_size)

lemma as_path_smaller: "err_As as_path e = Some (op, x) \<Longrightarrow> size x < size e"
  by (auto simp: err_As_def as_path_def split: goerr.splits dest!: first_some_member chain_size)

function err_From :: "goerr \<Rightarrow> goerr Error" where
  "err_From e =
     (case err_As as_catalog e of
        Some c \<Rightarrow> c
      | None \<Rightarrow>
          if err_Is (\<lambda>x. x = CanceledE) e then err_New err_text CodeCancelled KeyCancelled (Some e)
          else if err_Is is_deadline e then err_New err_text CodeDeadlineExceeded KeyDeadlineExceeded (Some e)
          else case err_As as_url e of
            Some (op, x) \<Rightarrow> from_inner op (err_From x)
          | None \<Rightarrow>
              (case err_As as_path e of
                 Some (op, x) \<Rightarrow> from_inner op (err_From x)
               | None \<Rightarrow>
                   (case fromCertificateError e of
                      Some c \<Rightarrow> c
                    | None \<Rightarrow>
                        if err_As as_net e = Some True
                        then err_New err_text CodeTimeout KeyNetworkTimeout (Some (netDetail e))
                        else classify_leaf e)))"
  by pat_completeness auto
termination
  by (relation "measure size") (auto dest: as_url_smaller as_path_smaller)

declare err_From.simps [simp del]

text \<open>The readers; \<open>None\<close> is the nil error.\<close>

definition From :: "goerr option \<Rightarrow> goerr Error option" where
  "From e = map_option err_From e"

definition CodeOf :: "goerr option \<Rightarrow> Code" where
  "CodeOf e =
     (case e of
        None \<Rightarrow> []
      | Some x \<Rightarrow> (case err_As as_catalog x of Some c \<Rightarrow> er_code c | None \<Rightarrow> Error_Code (From (Some x))))"

definition KeyOf :: "goerr option \<Rightarrow> Key" where
  "KeyOf e =
     (case e of
        None \<Rightarrow> []
      | Some x \<Rightarrow> (case err_As as_catalog x of Some c \<Rightarrow> er_key c | None \<Rightarrow> Error_Key (From (Some x))))"

definition Retryable :: "goerr option \<Rightarrow> bool" where
  "Retryable e =
     (case e of None \<Rightarrow> False | Some x \<Rightarrow> (case err_As as_catalog x of Some c \<Rightarrow> er_retryable c | None \<Rightarrow> False))"

definition RetryAfter :: "goerr option \<Rightarrow> Duration" where
  "RetryAfter e =
     (case e of None \<Rightarrow> 0 | Some x \<Rightarrow> (case err_As as_catalog x of Some c \<Rightarrow> er_retryAfter c | None \<Rightarrow> 0))"

definition Detail :: "goerr option \<Rightarrow> string" where
  "Detail e =
     (case e of
        None \<Rightarrow> []
      | Some x \<Rightarrow> (case err_As as_catalog x of Some c \<Rightarrow> er_detail c | None \<Rightarrow> err_text x))"

text \<open>A catalog error as a value of the error tree.\<close>

definition catalog_err :: "goerr Error \<Rightarrow> goerr" where
  "catalog_err c = CatalogE (er_code c) (er_key c) (er_detail c) (er_cause c) (er_retryable c) (er_retryAfter c)"

definition Wrap :: "goerr \<Rightarrow> Code \<Rightarrow> Key \<Rightarrow> goerr" where
  "Wrap e code key = catalog_err (err_New err_text code key (Some e))"

definition Newf :: "Code \<Rightarrow> Key \<Rightarrow> string \<Rightarrow> goerr" where
  "Newf code key text = catalog_err (err_Newf code key text)"

section \<open>The class of a classified error\<close>

lemma chain_self: "e \<in> set (chain e)"
  by (subst chain.simps) simp

lemma chain_causes: "x \<in> set (chain e) \<Longrightarrow> c \<in> set (causes x) \<Longrightarrow> c \<in> set (chain e)"
proof (induction e rule: chain.induct)
  case (1 e)
  consider "x = e" | d where "d \<in> set (causes e)" "x \<in> set (chain d)"
    using 1(2) by (subst (asm) (2) chain.simps) auto
  then show ?case
  proof cases
    case 1
    then show ?thesis using \<open>c \<in> set (causes x)\<close> chain_self by (subst chain.simps) auto
  next
    case 2
    then have "c \<in> set (chain d)" using 1(1) \<open>c \<in> set (causes x)\<close> by blast
    then show ?thesis using 2(1) by (subst chain.simps) auto
  qed
qed

lemma chain_trans: "x \<in> set (chain e) \<Longrightarrow> y \<in> set (chain x) \<Longrightarrow> y \<in> set (chain e)"
proof (induction x rule: chain.induct)
  case (1 x)
  consider "y = x" | d where "d \<in> set (causes x)" "y \<in> set (chain d)"
    using 1(3) by (subst (asm) (2) chain.simps) auto
  then show ?case using 1 chain_causes by cases blast+
qed

lemma first_some_None: "first_some f xs = None \<longleftrightarrow> (\<forall>x \<in> set xs. f x = None)"
  by (induction xs) (auto split: option.splits)

lemma as_url_inner: "err_As as_url e = Some (op, x) \<Longrightarrow> x \<in> set (chain e)"
  by (auto simp: err_As_def as_url_def split: goerr.splits dest!: first_some_member intro: chain_causes)

lemma as_path_inner: "err_As as_path e = Some (op, x) \<Longrightarrow> x \<in> set (chain e)"
  by (auto simp: err_As_def as_path_def split: goerr.splits dest!: first_some_member intro: chain_causes)

text \<open>An error of the outside: no catalog error, no cancellation and no deadline in its tree.\<close>

definition foreign :: "goerr \<Rightarrow> bool" where
  "foreign e \<longleftrightarrow> err_As as_catalog e = None \<and> \<not> err_Is (\<lambda>x. x = CanceledE) e \<and> \<not> err_Is is_deadline e"

lemma no_catalog_inner: "x \<in> set (chain e) \<Longrightarrow> err_As as_catalog e = None \<Longrightarrow> err_As as_catalog x = None"
  by (auto simp: err_As_def first_some_None dest: chain_trans)

lemma foreign_inner: "x \<in> set (chain e) \<Longrightarrow> foreign e \<Longrightarrow> foreign x"
  by (auto simp: foreign_def no_catalog_inner err_Is_def list_ex_iff dest: chain_trans)

definition key_of_code :: "goerr Error \<Rightarrow> bool" where
  "key_of_code r \<longleftrightarrow> map_option en_Code (Lookup (er_key r)) = Some (er_code r)"

lemma key_of_code_New: "key_of_code (err_New err_text code key c) \<longleftrightarrow> map_option en_Code (Lookup key) = Some code"
  by (simp add: key_of_code_def err_New_def)

lemma key_codes:
  "map_option en_Code (Lookup KeyCancelled) = Some CodeCancelled"
  "map_option en_Code (Lookup KeyDeadlineExceeded) = Some CodeDeadlineExceeded"
  "map_option en_Code (Lookup KeyTLSCertificate) = Some CodeTLS"
  "map_option en_Code (Lookup KeyNetworkTimeout) = Some CodeTimeout"
  "map_option en_Code (Lookup KeyConnectionRefused) = Some CodeUnavailable"
  "map_option en_Code (Lookup KeyNetworkFailed) = Some CodeUnavailable"
  "map_option en_Code (Lookup KeyNotFound) = Some CodeNotFound"
  "map_option en_Code (Lookup KeyPermissionDenied) = Some CodePermissionDenied"
  "map_option en_Code (Lookup KeyInternal) = Some CodeInternal"
  by code_simp+

lemma classify_leaf_class: "key_of_code (classify_leaf e)"
  by (simp add: classify_leaf_def key_of_code_New key_codes)

lemma key_of_code_cert: "key_of_code (cert_fail detail)"
  unfolding key_of_code_def cert_fail_def Error.simps by (rule key_codes)

lemma fromCertificateError_class: "fromCertificateError e = Some r \<Longrightarrow> key_of_code r"
  by (induction e rule: fromCertificateError.induct)
    (subst (asm) (2) fromCertificateError.simps,
     auto simp: key_of_code_cert split: option.splits)

text \<open>
  C24. The key \<open>From\<close> gives an error of the outside is a catalog key of exactly the code it gives
  it, so a client that translates by key and one that acts on the code agree.
\<close>

theorem From_class:
  assumes "err_As as_catalog e = None"
  shows "map_option en_Code (Lookup (er_key (err_From e))) = Some (er_code (err_From e))"
proof -
  have inner: "key_of_code (from_inner op r) = key_of_code r" for op r
    by (simp add: key_of_code_def from_inner_def)
  have "key_of_code (err_From e)" using assms
  proof (induction e rule: measure_induct_rule [where f = size])
    case (less e)
    have url: "key_of_code (err_From x)" if "err_As as_url e = Some (op, x)" for op x
      using less.IH [OF as_url_smaller [OF that]] no_catalog_inner [OF as_url_inner [OF that] less.prems] by blast
    have path: "key_of_code (err_From x)" if "err_As as_path e = Some (op, x)" for op x
      using less.IH [OF as_path_smaller [OF that]] no_catalog_inner [OF as_path_inner [OF that] less.prems] by blast
    show ?case
      using less.prems url path fromCertificateError_class
      by (subst err_From.simps)
        (auto simp: inner key_of_code_New key_codes classify_leaf_class simp del: map_option_eq_Some split: option.splits)
  qed
  then show ?thesis by (simp add: key_of_code_def)
qed

section \<open>What a classified error hides\<close>

text \<open>The same error with other URLs and other paths in it.\<close>

fun relabel :: "(string \<Rightarrow> string) \<Rightarrow> (string \<Rightarrow> string) \<Rightarrow> goerr \<Rightarrow> goerr" where
  "relabel f g (CatalogE code key detail c r a) = CatalogE code key detail (map_option (relabel f g) c) r a"
| "relabel f g (URLE op u e) = URLE op (f u) (relabel f g e)"
| "relabel f g (PathE op p e) = PathE op (g p) (relabel f g e)"
| "relabel f g (LinkE op p q e) = LinkE op p q (relabel f g e)"
| "relabel f g (SyscallE call e) = SyscallE call (relabel f g e)"
| "relabel f g (OpE op net src addr c) = OpE op net src addr (map_option (relabel f g) c)"
| "relabel f g (DNSE msg host server t c) = DNSE msg host server t (map_option (relabel f g) c)"
| "relabel f g (CertVerificationE e) = CertVerificationE (relabel f g e)"
| "relabel f g (JoinE es) = JoinE (map (relabel f g) es)"
| "relabel f g (WrapE msg e) = WrapE msg (relabel f g e)"
| "relabel f g e = e"

lemma causes_relabel: "causes (relabel f g e) = map (relabel f g) (causes e)"
  by (cases e) (auto split: option.split)

lemma chain_relabel: "chain (relabel f g e) = map (relabel f g) (chain e)"
proof (induction e rule: chain.induct)
  case (1 e)
  have "map (\<lambda>x. chain (relabel f g x)) (causes e) = map (\<lambda>x. map (relabel f g) (chain x)) (causes e)"
    using 1 by (rule map_cong [OF refl])
  then have "concat (map chain (causes (relabel f g e))) = map (relabel f g) (concat (map chain (causes e)))"
    by (simp only: causes_relabel map_concat map_map comp_def)
  then show ?case by (simp only: chain.simps [of e] chain.simps [of "relabel f g e"] list.map)
qed

lemma map_option_idI: "(\<And>x. Some x = c \<Longrightarrow> h x = x) \<Longrightarrow> map_option h c = c"
  by (cases c) auto

lemma relabel_id:
  "(\<forall>x \<in> set (chain e). as_url x = None \<and> as_path x = None) \<Longrightarrow> relabel f g e = e"
proof (induction e rule: chain.induct)
  case (1 e)
  have c: "relabel f g c = c" if "c \<in> set (causes e)" for c
  proof (rule 1(1) [OF that])
    show "\<forall>x \<in> set (chain c). as_url x = None \<and> as_path x = None"
      using 1(2) chain_trans chain_causes [OF chain_self that] by blast
  qed
  have "as_url e = None \<and> as_path e = None" using 1(2) chain_self by blast
  then show ?case
    using c by (cases e) (auto simp: as_url_def as_path_def map_idI map_option_idI split: option.splits)
qed

lemma is_relabel:
  "as_catalog (relabel f g e) = None \<longleftrightarrow> as_catalog e = None"
  "relabel f g e = CanceledE \<longleftrightarrow> e = CanceledE"
  "CanceledE = relabel f g e \<longleftrightarrow> e = CanceledE"
  "is_deadline (relabel f g e) = is_deadline e"
  "as_url (relabel f g e) = map_option (map_prod id (relabel f g)) (as_url e)"
  "as_path (relabel f g e) = map_option (map_prod id (relabel f g)) (as_path e)"
  by (cases e; simp add: as_catalog_def is_deadline_def as_url_def as_path_def)+

lemma first_some_map:
  "(\<And>x. h (k x) = map_option m (h' x)) \<Longrightarrow> first_some h (map k xs) = map_option m (first_some h' xs)"
  by (induction xs) (auto split: option.split)

lemma foreign_relabel: "foreign (relabel f g e) = foreign e"
  by (simp add: foreign_def err_As_def err_Is_def chain_relabel first_some_None list_ex_iff is_relabel image_iff del: imageI)

lemma err_As_relabel:
  "err_As as_url (relabel f g e) = map_option (map_prod id (relabel f g)) (err_As as_url e)"
  "err_As as_path (relabel f g e) = map_option (map_prod id (relabel f g)) (err_As as_path e)"
  unfolding err_As_def chain_relabel by (rule first_some_map, rule is_relabel)+

lemma err_From_foreign:
  assumes "foreign e"
  shows "err_As as_url e = Some (op, x) \<Longrightarrow> err_From e = from_inner op (err_From x)"
    and "err_As as_url e = None \<Longrightarrow> err_As as_path e = Some (op, x) \<Longrightarrow> err_From e = from_inner op (err_From x)"
  using assms by (subst err_From.simps; simp add: foreign_def)+



theorem From_class_witness:
  "map_option en_Code (Lookup (er_key (err_From (PathE ''open'' ''/x'' NotExistE)))) = Some CodeNotFound"
proof -
  have "err_As as_catalog (PathE ''open'' ''/x'' NotExistE) = None" by code_simp
  moreover have "er_code (err_From (PathE ''open'' ''/x'' NotExistE)) = CodeNotFound" by code_simp
  ultimately show ?thesis using From_class by metis
qed

section \<open>What a classified error does not hide\<close>

lemma strip_front_id:
  assumes "\<And>x. x \<in> set encs \<Longrightarrow> x \<noteq> [] \<Longrightarrow> hd x \<noteq> c"
  shows "strip_front encs (c # s) = c # s"
proof -
  have "\<not> (x \<noteq> [] \<and> HasPrefix (c # s) x)" if "x \<in> set encs" for x
    using assms [OF that] by (cases x) (auto simp: HasPrefix_def)
  then have "find (\<lambda>x. x \<noteq> [] \<and> HasPrefix (c # s) x) encs = None" by (simp only: find_None_iff) blast
  then show ?thesis by (subst strip_front.simps) simp
qed

lemma TrimSpace_id:
  assumes "c \<notin> set (map hd space_encodings)" "d \<notin> set (map last space_encodings)"
  shows "TrimSpace (c # s @ [d]) = c # s @ [d]"
proof -
  have "strip_front space_encodings (c # s @ [d]) = c # s @ [d]"
    using assms(1) by (intro strip_front_id) auto
  moreover have "strip_front (map rev space_encodings) (d # rev s @ [c]) = d # rev s @ [c]"
    using assms(2) by (intro strip_front_id) (auto simp: hd_rev)
  ultimately show ?thesis by (simp add: TrimSpace_def)
qed

lemma hex_char_no_newline: "n < 16 \<Longrightarrow> CHR 0x0A \<noteq> hex_char n \<and> CHR 0x0D \<noteq> hex_char n"
proof -
  have "list_all (\<lambda>n. CHR 0x0A \<noteq> hex_char n \<and> CHR 0x0D \<noteq> hex_char n) [0..<16]" by code_simp
  then show "n < 16 \<Longrightarrow> CHR 0x0A \<noteq> hex_char n \<and> CHR 0x0D \<noteq> hex_char n" unfolding list_all_iff by simp
qed

lemma Quote_one_line: "CHR 0x0A \<notin> set (Quote u)" "CHR 0x0D \<notin> set (Quote u)"
proof -
  have "of_char c div 16 < (16 :: nat)" for c :: char
    by (cases c) (auto simp: of_char_def split: if_splits)
  then have "CHR 0x0A \<notin> set (quote_char c)" "CHR 0x0D \<notin> set (quote_char c)" for c
    by (simp_all add: quote_char_def hex_char_no_newline)
  then show "CHR 0x0A \<notin> set (Quote u)" "CHR 0x0D \<notin> set (Quote u)" by (auto simp: Quote_def)
qed

lemma oneLine_id:
  assumes "c \<notin> set (map hd space_encodings)" "d \<notin> set (map last space_encodings)"
    "CHR 0x0A \<notin> set (c # s @ [d])" "CHR 0x0D \<notin> set (c # s @ [d])"
  shows "oneLine (c # s @ [d]) = c # s @ [d]"
proof -
  have "\<not> ContainsAny (c # s @ [d]) [CHR 0x0D, CHR 0x0A]"
    using assms(3, 4) unfolding ContainsAny_def list_ex_iff by auto
  then show ?thesis unfolding oneLine_def using TrimSpace_id [OF assms(1, 2)] by simp
qed

lemma oneLine_nonempty:
  assumes "c \<notin> set (map hd space_encodings)" "d \<notin> set (map last space_encodings)" "\<not> is_newline c"
  shows "oneLine (c # s @ [d]) \<noteq> []"
proof (cases "ContainsAny (c # s @ [d]) [CHR 0x0D, CHR 0x0A]")
  case True
  have "Join ((c # xs) # ys) z \<noteq> []" for xs :: string and ys z
    by (cases ys) simp_all
  then show ?thesis
    unfolding oneLine_def FieldsFunc.simps using True assms(3) by simp
next
  case False
  then show ?thesis unfolding oneLine_def using TrimSpace_id [OF assms(1, 2)] by simp
qed

text \<open>
  C26. When a request is cancelled, the detail of the classified error is the whole text of the
  HTTP client's error: it repeats the URL of the request, token included.
\<close>

theorem cancelled_request_keeps_url:
  "er_detail (err_From (URLE ''Get'' u CanceledE)) = ''Get '' @ Quote u @ '': context canceled''"
proof -
  have "oneLine (CHR ''G'' # (''et '' @ Quote u @ '': context cancele'') @ [CHR ''d'']) =
      CHR ''G'' # (''et '' @ Quote u @ '': context cancele'') @ [CHR ''d'']"
    using Quote_one_line [of u] by (intro oneLine_id) (auto simp: space_encodings_def)
  then show ?thesis
    by (simp add: err_From.simps err_As_def err_Is_def chain.simps as_catalog_def err_New_def)
qed

text \<open>
  A name that cannot be resolved is classified as an internal error, and its detail names
  the host and the resolver that were asked.
\<close>

theorem unresolved_name_is_internal:
  "er_code (err_From (URLE op u (OpE ''dial'' ''tcp'' None None (Some (DNSE ''no such host'' host server False None))))) = CodeInternal \<and>
   er_detail (err_From (URLE op u (OpE ''dial'' ''tcp'' None None (Some (DNSE ''no such host'' host server False None)))))
     = op @ '': '' @ oneLine (''dial tcp: lookup '' @ host @ (if server \<noteq> [] then '' on '' @ server else []) @ '': no such host'')"
proof -
  let ?d = "DNSE ''no such host'' host server False None"
  let ?o = "OpE ''dial'' ''tcp'' None None (Some ?d)"
  have c: "chain ?d = [?d]" "chain ?o = [?o, ?d]" "chain (URLE op u ?o) = [URLE op u ?o, ?o, ?d]"
    by (simp_all add: chain.simps)
  have leaf: "err_From ?o = err_New err_text CodeInternal KeyInternal (Some ?o)"
    by (subst err_From.simps)
      (simp add: err_As_def err_Is_def c as_catalog_def is_deadline_def as_url_def as_path_def as_net_def
        fromCertificateError.simps as_verification_def cert_detail_def classify_leaf_def isRefused_def
        isNetworkFailure_def is_errno_def is_not_exist_def is_permission_def os_IsNotExist_def)
  have "err_From (URLE op u ?o) = from_inner op (err_From ?o)"
    by (subst err_From.simps) (simp add: err_As_def err_Is_def c as_catalog_def is_deadline_def as_url_def)
  moreover have "oneLine (''dial tcp: lookup '' @ host @ (if server \<noteq> [] then '' on '' @ server else []) @ '': no such host'') \<noteq> []"
    using oneLine_nonempty [of "CHR ''d''" "CHR ''t''"
        "''ial tcp: lookup '' @ host @ (if server \<noteq> [] then '' on '' @ server else []) @ '': no such hos''"]
    by (simp add: space_encodings_def)
  ultimately show ?thesis unfolding leaf by (simp add: from_inner_def err_New_def)
qed

end
