(* ===== verification/SessionState.thy ===== *)
theory SessionState
  imports ErrClassify
begin

text \<open>
  The lifecycle of a session, \<open>session/session.go\<close>: its states, the transitions the code admits,
  and the status snapshot clients read.  Times are nanoseconds, 0 is the zero time.
\<close>

type_synonym Time = int

datatype State = StateDisconnected | StateConnecting | StateConnected | StateReconnecting | StateFailed

fun State_String :: "State \<Rightarrow> string" where
  "State_String StateDisconnected = ''disconnected''"
| "State_String StateConnecting = ''connecting''"
| "State_String StateConnected = ''connected''"
| "State_String StateReconnecting = ''reconnecting''"
| "State_String StateFailed = ''failed''"

fun allowedTransitions :: "State \<Rightarrow> State list" where
  "allowedTransitions StateDisconnected = [StateConnecting]"
| "allowedTransitions StateConnecting = [StateConnected, StateReconnecting, StateFailed, StateDisconnected]"
| "allowedTransitions StateConnected = [StateReconnecting, StateDisconnected, StateFailed]"
| "allowedTransitions StateReconnecting = [StateConnected, StateFailed, StateDisconnected]"
| "allowedTransitions StateFailed = [StateConnecting, StateDisconnected]"

definition canTransition :: "State \<Rightarrow> State \<Rightarrow> bool" where
  "canTransition from to = list_ex (\<lambda>candidate. candidate = to) (allowedTransitions from)"

definition terminal :: "State \<Rightarrow> bool" where
  "terminal s \<longleftrightarrow> s = StateFailed \<or> s = StateDisconnected"

definition KeySelectionChanged :: Key where
  "KeySelectionChanged = ''core.session.selection_changed''"

record Status =
  st_State :: State
  st_SessionID :: string
  st_Reason :: Code
  st_Key :: Key
  st_Detail :: string
  st_ChangedAt :: Time
  st_RetryAfter :: Duration
  st_KillSwitch :: bool
  st_Bypass :: "string list"
  st_TunnelMode :: string

definition zero_Status :: Status where
  "zero_Status =
     \<lparr>st_State = StateDisconnected, st_SessionID = [], st_Reason = [], st_Key = [], st_Detail = [], st_ChangedAt = 0,
      st_RetryAfter = 0, st_KillSwitch = False, st_Bypass = [], st_TunnelMode = []\<rparr>"

lemma canTransition_member: "canTransition from to \<longleftrightarrow> to \<in> set (allowedTransitions from)"
  by (auto simp: canTransition_def list_ex_iff)

text \<open>Every state can be left towards the resting state, except the resting state itself.\<close>

lemma canTransition_rest: "canTransition s StateDisconnected \<longleftrightarrow> s \<noteq> StateDisconnected"
  by (cases s) (auto simp: canTransition_def)

lemma canTransition_irrefl: "\<not> canTransition s s"
  by (cases s) (auto simp: canTransition_def)

end
