(* ===== verification/EventStreams.thy ===== *)
theory EventStreams
  imports SessionState "HOL-Library.Word"
begin

text \<open>
  The two event streams of the core: the engine's \<open>EventBus\<close> (\<open>engine/events.go\<close>) and the session's
  \<open>Journal\<close> (\<open>session/journal.go\<close>).  Channels are kept in a store and addressed by their
  position, since a publisher may still hold a channel that its reader has closed; a send on a
  closed channel, which panics, is \<open>None\<close>.  Counters are 64 bit wide.
\<close>

section \<open>Channels\<close>

record 'e chan =
  ch_cap :: nat
  ch_queue :: "'e list"
  ch_closed :: bool

definition new_chan :: "nat \<Rightarrow> 'e chan" where
  "new_chan n = \<lparr>ch_cap = n, ch_queue = [], ch_closed = False\<rparr>"

definition full :: "'e chan \<Rightarrow> bool" where
  "full c \<longleftrightarrow> ch_cap c \<le> length (ch_queue c)"

text \<open>The \<open>select\<close> with one send and a \<open>default\<close>: whether it was sent, \<open>None\<close> for the panic.\<close>

definition try_send :: "'e \<Rightarrow> nat \<Rightarrow> 'e chan list \<Rightarrow> ('e chan list \<times> bool) option" where
  "try_send ev i cs =
     (if ch_closed (cs ! i) then None
      else if full (cs ! i) then Some (cs, False)
      else Some (cs[i := (cs ! i)\<lparr>ch_queue := ch_queue (cs ! i) @ [ev]\<rparr>], True))"

definition close_chan :: "nat \<Rightarrow> 'e chan list \<Rightarrow> 'e chan list" where
  "close_chan i cs = cs[i := (cs ! i)\<lparr>ch_closed := True\<rparr>]"

text \<open>A reader takes the oldest event of its channel.\<close>

definition receive :: "nat \<Rightarrow> 'e chan list \<Rightarrow> 'e chan list" where
  "receive i cs = cs[i := (cs ! i)\<lparr>ch_queue := tl (ch_queue (cs ! i))\<rparr>]"

text \<open>Offer an event to each channel; a full one counts as dropped.\<close>

fun deliver :: "'e \<Rightarrow> nat list \<Rightarrow> 'e chan list \<Rightarrow> 64 word \<Rightarrow> ('e chan list \<times> 64 word) option" where
  "deliver ev [] cs d = Some (cs, d)"
| "deliver ev (i # is) cs d =
     (case try_send ev i cs of
        None \<Rightarrow> None
      | Some (cs', sent) \<Rightarrow> deliver ev is cs' (if sent then d else d + 1))"

section \<open>The engine's event bus\<close>

record Counters =
  co_BytesUp :: "64 word"
  co_BytesDown :: "64 word"
  co_ActiveConnections :: int
  co_MemoryBytes :: "64 word"
  co_At :: Time

record GroupStatus =
  gs_Name :: string
  gs_Type :: string
  gs_Selected :: string
  gs_All :: "string list"
  gs_Hidden :: bool
  gs_Icon :: string
  gs_TestURL :: string
  gs_Provider :: string
  gs_UpdatedAt :: Time
  gs_LatencyMS :: "int go_map"

datatype EngineEventKind =
  EngState | EngLog | EngCounters | EngGroup | EngRestart | EngDown | EngFatal

record EngineEvent =
  ee_Kind :: EngineEventKind
  ee_State :: string
  ee_Message :: string
  ee_Err :: "goerr option"
  ee_Counters :: Counters
  ee_Group :: "GroupStatus option"
  ee_At :: Time

record EventBus =
  eb_subs :: "nat list"
  eb_chans :: "EngineEvent chan list"
  eb_dropped :: "64 word"
  eb_queue :: nat

definition NewEventBus :: "int \<Rightarrow> EventBus" where
  "NewEventBus queueLen =
     \<lparr>eb_subs = [], eb_chans = [], eb_dropped = 0, eb_queue = nat (if queueLen \<le> 0 then 64 else queueLen)\<rparr>"

definition bus_stamp :: "Time \<Rightarrow> EngineEvent \<Rightarrow> EngineEvent" where
  "bus_stamp now ev = (if ee_At ev = 0 then ev\<lparr>ee_At := now\<rparr> else ev)"

text \<open>\<open>Publish\<close> holds the lock over all sends, so it is one step.\<close>

definition Publish :: "Time \<Rightarrow> EngineEvent \<Rightarrow> EventBus \<Rightarrow> EventBus option" where
  "Publish now ev b =
     map_option (\<lambda>(cs, d). b\<lparr>eb_chans := cs, eb_dropped := d\<rparr>)
       (deliver (bus_stamp now ev) (eb_subs b) (eb_chans b) (eb_dropped b))"

definition bus_Subscribe :: "EventBus \<Rightarrow> nat \<times> EventBus" where
  "bus_Subscribe b =
     (length (eb_chans b),
      b\<lparr>eb_subs := eb_subs b @ [length (eb_chans b)], eb_chans := eb_chans b @ [new_chan (eb_queue b)]\<rparr>)"

definition bus_cancel :: "nat \<Rightarrow> EventBus \<Rightarrow> EventBus" where
  "bus_cancel i b =
     (if i \<in> set (eb_subs b)
      then b\<lparr>eb_subs := remove1 i (eb_subs b), eb_chans := close_chan i (eb_chans b)\<rparr>
      else b)"

section \<open>The session journal\<close>

datatype EventKind = EventState | EventCounters | EventLog | EventProbe | EventError | EventGroup

record GroupSwitch =
  sw_Group :: string
  sw_Previous :: string
  sw_Selected :: string

record ProbeOutcome =
  pr_ServerID :: string
  pr_Reachable :: bool
  pr_LatencyMS :: int

record Event =
  ev_Sequence :: "64 word"
  ev_At :: Time
  ev_Kind :: EventKind
  ev_State :: State
  ev_Reason :: Code
  ev_Key :: Key
  ev_Detail :: string
  ev_Counters :: Counters
  ev_Probe :: "ProbeOutcome option"
  ev_Switch :: "GroupSwitch option"
  ev_RetryAfter :: Duration
  ev_LogLine :: string

definition zero_Counters :: Counters where
  "zero_Counters = \<lparr>co_BytesUp = 0, co_BytesDown = 0, co_ActiveConnections = 0, co_MemoryBytes = 0, co_At = 0\<rparr>"

text \<open>The event literal \<open>Event{Kind: k}\<close>.\<close>

definition new_Event :: "EventKind \<Rightarrow> Event" where
  "new_Event k =
     \<lparr>ev_Sequence = 0, ev_At = 0, ev_Kind = k, ev_State = StateDisconnected, ev_Reason = [], ev_Key = [], ev_Detail = [],
      ev_Counters = zero_Counters, ev_Probe = None, ev_Switch = None, ev_RetryAfter = 0, ev_LogLine = []\<rparr>"

record Journal =
  jo_next :: "64 word"
  jo_capacity :: nat
  jo_history :: "Event list"
  jo_subs :: "nat list"
  jo_chans :: "Event chan list"
  jo_dropped :: "64 word"

definition DefaultJournalCapacity :: int where
  "DefaultJournalCapacity = 512"

definition NewJournal :: "int \<Rightarrow> Journal" where
  "NewJournal capacity =
     \<lparr>jo_next = 0, jo_capacity = nat (if capacity \<le> 0 then DefaultJournalCapacity else capacity), jo_history = [],
      jo_subs = [], jo_chans = [], jo_dropped = 0\<rparr>"

definition stamp :: "64 word \<Rightarrow> Time \<Rightarrow> Event \<Rightarrow> Event" where
  "stamp n now ev = ev\<lparr>ev_Sequence := n, ev_At := (if ev_At ev = 0 then now else ev_At ev)\<rparr>"

text \<open>
  \<open>Append\<close> is two steps: under the lock the event is stamped and kept and the subscribers are
  copied; after the lock is released each copied channel is offered the event.
\<close>

definition append_locked :: "Time \<Rightarrow> Event \<Rightarrow> Journal \<Rightarrow> Event \<times> nat list \<times> Journal" where
  "append_locked now ev j =
     (let n = jo_next j + 1;
          ev' = stamp n now ev;
          h = jo_history j @ [ev']
      in (ev', jo_subs j,
          j\<lparr>jo_next := n,
            jo_history := (if length h > jo_capacity j then drop (length h - jo_capacity j) h else h)\<rparr>))"

definition send_all :: "Event \<Rightarrow> nat list \<Rightarrow> Journal \<Rightarrow> Journal option" where
  "send_all ev subs j =
     map_option (\<lambda>(cs, d). j\<lparr>jo_chans := cs, jo_dropped := d\<rparr>) (deliver ev subs (jo_chans j) (jo_dropped j))"

definition Append :: "Time \<Rightarrow> Event \<Rightarrow> Journal \<Rightarrow> Journal option" where
  "Append now ev j = (case append_locked now ev j of (ev', subs, j') \<Rightarrow> send_all ev' subs j')"

fun since_loop :: "64 word \<Rightarrow> nat \<Rightarrow> Event list \<Rightarrow> Event list \<Rightarrow> Event list" where
  "since_loop after limit out [] = out"
| "since_loop after limit out (ev # evs) =
     (if ev_Sequence ev \<le> after then since_loop after limit out evs
      else if length (out @ [ev]) = limit then out @ [ev]
      else since_loop after limit (out @ [ev]) evs)"

definition Since :: "64 word \<Rightarrow> int \<Rightarrow> Journal \<Rightarrow> Event list" where
  "Since after limit j =
     since_loop after (if limit \<le> 0 \<or> limit > int (jo_capacity j) then jo_capacity j else nat limit) [] (jo_history j)"

definition Latest :: "Journal \<Rightarrow> 64 word" where
  "Latest j = jo_next j"

definition Dropped :: "Journal \<Rightarrow> 64 word" where
  "Dropped j = jo_dropped j"

definition Subscribe :: "int \<Rightarrow> Journal \<Rightarrow> nat \<times> Journal" where
  "Subscribe buffer j =
     (length (jo_chans j),
      j\<lparr>jo_subs := jo_subs j @ [length (jo_chans j)],
        jo_chans := jo_chans j @ [new_chan (nat (if buffer \<le> 0 then 64 else buffer))]\<rparr>)"

definition journal_cancel :: "nat \<Rightarrow> Journal \<Rightarrow> Journal" where
  "journal_cancel i j =
     (if i \<in> set (jo_subs j)
      then j\<lparr>jo_subs := remove1 i (jo_subs j), jo_chans := close_chan i (jo_chans j)\<rparr>
      else j)"

section \<open>What a publisher promises\<close>

text \<open>Subscribers are distinct open channels of the store.\<close>

definition subs_open :: "nat list \<Rightarrow> 'e chan list \<Rightarrow> bool" where
  "subs_open subs cs \<longleftrightarrow> distinct subs \<and> (\<forall>i \<in> set subs. i < length cs \<and> \<not> ch_closed (cs ! i))"

text \<open>What one delivery does to a channel that is offered the event.\<close>

definition offered :: "'e \<Rightarrow> 'e chan \<Rightarrow> 'e chan" where
  "offered ev c = (if full c then c else c\<lparr>ch_queue := ch_queue c @ [ev]\<rparr>)"

lemma offered_open [simp]: "ch_closed (offered ev c) = ch_closed c"
  by (simp add: offered_def)

lemma deliver_spec:
  assumes "subs_open subs cs"
  shows "deliver ev subs cs d =
    Some (map (\<lambda>i. if i \<in> set subs then offered ev (cs ! i) else cs ! i) [0..<length cs],
          d + of_nat (length (filter (\<lambda>i. full (cs ! i)) subs)))"
  using assms
proof (induction subs arbitrary: cs d)
  case Nil
  then show ?case by (simp add: map_nth)
next
  case (Cons i subs)
  then have i: "i < length cs" "\<not> ch_closed (cs ! i)" "i \<notin> set subs" "distinct subs"
    by (auto simp: subs_open_def)
  let ?cs = "cs[i := offered ev (cs ! i)]"
  have step: "try_send ev i cs = Some (?cs, \<not> full (cs ! i))"
    using i by (simp add: try_send_def offered_def)
  have others: "?cs ! k = cs ! k" if "k \<in> set subs" for k using i(3) that by (metis nth_list_update_neq)
  have "subs_open subs ?cs" using Cons.prems others by (auto simp: subs_open_def)
  then have "deliver ev (i # subs) cs d = Some (map (\<lambda>k. if k \<in> set subs then offered ev (?cs ! k) else ?cs ! k) [0..<length ?cs],
      (if full (cs ! i) then d + 1 else d) + of_nat (length (filter (\<lambda>k. full (?cs ! k)) subs)))"
    using Cons.IH step by simp
  moreover have "map (\<lambda>k. if k \<in> set subs then offered ev (?cs ! k) else ?cs ! k) [0..<length ?cs]
      = map (\<lambda>k. if k \<in> set (i # subs) then offered ev (cs ! k) else cs ! k) [0..<length cs]"
    using i others by (auto simp: nth_list_update)
  moreover have "filter (\<lambda>k. full (?cs ! k)) subs = filter (\<lambda>k. full (cs ! k)) subs"
    using others by (auto intro: filter_cong)
  ultimately show ?case by simp
qed

text \<open>
  A publisher stamps an event and offers it to its subscribers.  The laws are what the readers of
  both streams rely on: publishing never fails, keeps the order of each queue, and every event a
  reader does not get is counted.
\<close>

locale publisher =
  fixes publish :: "'e \<Rightarrow> 's \<Rightarrow> 's option"
    and stamped :: "'e \<Rightarrow> 's \<Rightarrow> 'e"
    and subs :: "'s \<Rightarrow> nat list"
    and chans :: "'s \<Rightarrow> 'e chan list"
    and dropped :: "'s \<Rightarrow> 64 word"
  assumes publish_delivers:
    "map_option (\<lambda>s'. (chans s', dropped s')) (publish ev s) = deliver (stamped ev s) (subs s) (chans s) (dropped s)"
    and publish_subs: "publish ev s = Some s' \<Longrightarrow> subs s' = subs s"
begin

lemma publish_total:
  assumes "subs_open (subs s) (chans s)"
  shows "\<exists>s'. publish ev s = Some s' \<and> subs s' = subs s \<and> length (chans s') = length (chans s) \<and>
    (\<forall>i < length (chans s). chans s' ! i = (if i \<in> set (subs s) then offered (stamped ev s) (chans s ! i) else chans s ! i)) \<and>
    dropped s' = dropped s + of_nat (length (filter (\<lambda>i. full (chans s ! i)) (subs s)))"
proof -
  note d = publish_delivers [of ev s, unfolded deliver_spec [OF assms]]
  then obtain s' where p: "publish ev s = Some s'"
    and c: "chans s' = map (\<lambda>i. if i \<in> set (subs s) then offered (stamped ev s) (chans s ! i) else chans s ! i) [0..<length (chans s)]"
    and n: "dropped s' = dropped s + of_nat (length (filter (\<lambda>i. full (chans s ! i)) (subs s)))"
    by auto
  show ?thesis using p c n publish_subs [OF p] by (intro exI [of _ s']) simp
qed

lemma publish_open:
  assumes "subs_open (subs s) (chans s)" "publish ev s = Some s'"
  shows "subs_open (subs s') (chans s')"
  using publish_total [OF assms(1), of ev] assms unfolding subs_open_def by fastforce

text \<open>Publishing a sequence: never a panic, and a subscriber gets a subsequence of it, in order.\<close>

fun publish_seq :: "'e list \<Rightarrow> 's \<Rightarrow> 's option" where
  "publish_seq [] s = Some s"
| "publish_seq (ev # evs) s = (case publish ev s of None \<Rightarrow> None | Some s' \<Rightarrow> publish_seq evs s')"

lemma publish_seq_total:
  "subs_open (subs s) (chans s) \<Longrightarrow> \<exists>s'. publish_seq evs s = Some s' \<and> subs_open (subs s') (chans s') \<and> subs s' = subs s"
proof (induction evs arbitrary: s)
  case (Cons ev evs)
  obtain s1 where p: "publish ev s = Some s1"
    using publish_total [OF Cons.prems, of ev] by blast
  then show ?case using Cons.IH [OF publish_open [OF Cons.prems p]] publish_subs [OF p] by simp
qed simp

end

lemma subs_open_subscribe: "subs_open subs cs \<Longrightarrow> subs_open (subs @ [length cs]) (cs @ [new_chan n])"
  by (auto simp: subs_open_def nth_append new_chan_def)

lemma subs_open_cancel: "subs_open subs cs \<Longrightarrow> subs_open (remove1 i subs) (close_chan i cs)"
  by (auto simp: subs_open_def close_chan_def distinct_remove1 nth_list_update)

lemma subs_open_receive: "subs_open subs cs \<Longrightarrow> subs_open subs (receive i cs)"
  by (cases "i < length cs") (auto simp: subs_open_def receive_def nth_list_update)

interpretation bus: publisher "Publish now" "\<lambda>ev s. bus_stamp now ev" eb_subs eb_chans eb_dropped
  for now
proof unfold_locales
  show "map_option (\<lambda>s'. (eb_chans s', eb_dropped s')) (Publish now ev s)
      = deliver (bus_stamp now ev) (eb_subs s) (eb_chans s) (eb_dropped s)" for ev s
    by (simp add: Publish_def option.map_comp comp_def split_def option.map_ident)
  show "Publish now ev s = Some s' \<Longrightarrow> eb_subs s' = eb_subs s" for ev s s'
    by (auto simp: Publish_def)
qed

interpretation journal: publisher "Append now" "\<lambda>ev j. stamp (jo_next j + 1) now ev" jo_subs jo_chans jo_dropped
  for now
proof unfold_locales
  show "map_option (\<lambda>s'. (jo_chans s', jo_dropped s')) (Append now ev s)
      = deliver (stamp (jo_next s + 1) now ev) (jo_subs s) (jo_chans s) (jo_dropped s)" for ev s
    by (simp add: Append_def append_locked_def send_all_def Let_def option.map_comp comp_def split_def option.map_ident)
  show "Append now ev s = Some s' \<Longrightarrow> jo_subs s' = jo_subs s" for ev s s'
    by (auto simp: Append_def append_locked_def send_all_def Let_def)
qed

section \<open>Readers of the bus\<close>

datatype bus_op = BusPublish Time EngineEvent | BusSubscribe | BusCancel nat | BusReceive nat

definition bus_step :: "bus_op \<Rightarrow> EventBus \<Rightarrow> EventBus option" where
  "bus_step op b =
     (case op of
        BusPublish now ev \<Rightarrow> Publish now ev b
      | BusSubscribe \<Rightarrow> Some (snd (bus_Subscribe b))
      | BusCancel i \<Rightarrow> Some (bus_cancel i b)
      | BusReceive i \<Rightarrow> Some (b\<lparr>eb_chans := receive i (eb_chans b)\<rparr>))"

fun bus_run :: "bus_op list \<Rightarrow> EventBus \<Rightarrow> EventBus option" where
  "bus_run [] b = Some b"
| "bus_run (op # ops) b = (case bus_step op b of None \<Rightarrow> None | Some b' \<Rightarrow> bus_run ops b')"

lemma bus_step_open:
  assumes "subs_open (eb_subs b) (eb_chans b)"
  shows "\<exists>b'. bus_step op b = Some b' \<and> subs_open (eb_subs b') (eb_chans b')"
proof (cases op)
  case (BusPublish now ev)
  then show ?thesis
    using bus.publish_total [OF assms, of now ev] bus.publish_open [OF assms] by (auto simp: bus_step_def)
next
  case BusSubscribe
  then show ?thesis using subs_open_subscribe [OF assms] by (simp add: bus_step_def bus_Subscribe_def)
next
  case (BusCancel i)
  then show ?thesis using subs_open_cancel [OF assms] assms by (simp add: bus_step_def bus_cancel_def)
next
  case (BusReceive i)
  then show ?thesis using subs_open_receive [OF assms] by (simp add: bus_step_def)
qed

text \<open>
  C27. Whatever the engine publishes and its readers subscribe to, cancel and read, in any order,
  the event bus never sends on a closed channel: no operation panics, and the channels it
  publishes to are exactly distinct open ones.
\<close>

theorem bus_never_panics:
  "\<exists>b. bus_run ops (NewEventBus n) = Some b \<and> subs_open (eb_subs b) (eb_chans b)"
proof -
  have "\<exists>b'. bus_run ops b = Some b' \<and> subs_open (eb_subs b') (eb_chans b')" if "subs_open (eb_subs b) (eb_chans b)" for b
    using that
  proof (induction ops arbitrary: b)
    case (Cons op ops)
    then obtain b1 where "bus_step op b = Some b1" "subs_open (eb_subs b1) (eb_chans b1)"
      using bus_step_open by blast
    then show ?case using Cons.IH by simp
  qed simp
  then show ?thesis by (simp add: NewEventBus_def subs_open_def)
qed

section \<open>The history of the journal\<close>

datatype journal_op = JAppend Time Event | JSubscribe int | JCancel nat | JReceive nat

definition journal_step :: "journal_op \<Rightarrow> Journal \<Rightarrow> Journal option" where
  "journal_step op j =
     (case op of
        JAppend now ev \<Rightarrow> Append now ev j
      | JSubscribe buffer \<Rightarrow> Some (snd (Subscribe buffer j))
      | JCancel i \<Rightarrow> Some (journal_cancel i j)
      | JReceive i \<Rightarrow> Some (j\<lparr>jo_chans := receive i (jo_chans j)\<rparr>))"

fun journal_run :: "journal_op list \<Rightarrow> Journal \<Rightarrow> Journal option" where
  "journal_run [] j = Some j"
| "journal_run (op # ops) j = (case journal_step op j of None \<Rightarrow> None | Some j' \<Rightarrow> journal_run ops j')"

text \<open>Everything ever appended, stamped with its place in the sequence.\<close>

fun appended :: "64 word \<Rightarrow> journal_op list \<Rightarrow> Event list" where
  "appended n [] = []"
| "appended n (JAppend now ev # ops) = stamp (n + 1) now ev # appended (n + 1) ops"
| "appended n (op # ops) = appended n ops"

definition last_n :: "nat \<Rightarrow> 'a list \<Rightarrow> 'a list" where
  "last_n n xs = drop (length xs - n) xs"

lemma last_n_append1: "last_n n (last_n n xs @ [x]) = last_n n (xs @ [x])"
  by (cases "length xs \<le> n") (auto simp: last_n_def Suc_diff_le)

lemma last_n_append: "last_n n (last_n n xs @ ys) = last_n n (xs @ ys)"
proof (induction ys arbitrary: xs)
  case Nil
  then show ?case by (simp add: last_n_def)
next
  case (Cons y ys)
  have "last_n n (last_n n xs @ y # ys) = last_n n (last_n n (last_n n xs @ [y]) @ ys)"
    using Cons [of "last_n n xs @ [y]"] by simp
  also have "\<dots> = last_n n ((xs @ [y]) @ ys)" unfolding last_n_append1 by (rule Cons)
  finally show ?case by simp
qed

lemma append_locked_last:
  "append_locked now ev j =
     (stamp (jo_next j + 1) now ev, jo_subs j,
      j\<lparr>jo_next := jo_next j + 1, jo_history := last_n (jo_capacity j) (jo_history j @ [stamp (jo_next j + 1) now ev])\<rparr>)"
  by (simp add: append_locked_def Let_def last_n_def)

lemma Append_history:
  assumes "Append now ev j = Some j'"
  shows "jo_history j' = last_n (jo_capacity j) (jo_history j @ [stamp (jo_next j + 1) now ev])"
    and "jo_next j' = jo_next j + 1" and "jo_capacity j' = jo_capacity j"
  using assms by (auto simp: Append_def append_locked_def send_all_def Let_def last_n_def split: if_splits)

lemma journal_step_open:
  assumes "subs_open (jo_subs j) (jo_chans j)"
  shows "\<exists>j'. journal_step op j = Some j' \<and> subs_open (jo_subs j') (jo_chans j')"
proof (cases op)
  case (JAppend now ev)
  then show ?thesis
    using journal.publish_total [OF assms, of now ev] journal.publish_open [OF assms] by (auto simp: journal_step_def)
next
  case (JSubscribe buffer)
  then show ?thesis using subs_open_subscribe [OF assms] by (simp add: journal_step_def Subscribe_def)
next
  case (JCancel i)
  then show ?thesis using subs_open_cancel [OF assms] assms by (simp add: journal_step_def journal_cancel_def)
next
  case (JReceive i)
  then show ?thesis using subs_open_receive [OF assms] by (simp add: journal_step_def)
qed

lemma journal_run_history:
  "subs_open (jo_subs j) (jo_chans j) \<Longrightarrow>
   \<exists>j'. journal_run ops j = Some j' \<and> jo_capacity j' = jo_capacity j \<and>
     last_n (jo_capacity j) (jo_history j') = last_n (jo_capacity j) (jo_history j @ appended (jo_next j) ops) \<and>
     jo_next j' = jo_next j + of_nat (length (appended (jo_next j) ops)) \<and>
     (length (jo_history j) \<le> jo_capacity j \<longrightarrow> length (jo_history j') \<le> jo_capacity j)"
proof (induction ops arbitrary: j)
  case (Cons op ops)
  obtain j1 where j1: "journal_step op j = Some j1" "subs_open (jo_subs j1) (jo_chans j1)"
    using journal_step_open [OF Cons.prems] by blast
  have *: "jo_capacity j1 = jo_capacity j \<and>
      last_n (jo_capacity j) (jo_history j1 @ appended (jo_next j1) ops)
        = last_n (jo_capacity j) (jo_history j @ appended (jo_next j) (op # ops)) \<and>
      jo_next j1 + of_nat (length (appended (jo_next j1) ops)) = jo_next j + of_nat (length (appended (jo_next j) (op # ops))) \<and>
      (length (jo_history j) \<le> jo_capacity j \<longrightarrow> length (jo_history j1) \<le> jo_capacity j)"
  proof (cases op)
    case (JAppend now ev)
    then have a: "Append now ev j = Some j1" using j1(1) by (simp add: journal_step_def)
    show ?thesis unfolding JAppend Append_history [OF a] last_n_append by (auto simp: last_n_def)
  qed (use j1(1) in \<open>auto simp: journal_step_def Subscribe_def journal_cancel_def\<close>)
  show ?case using Cons.IH [OF j1(2)] j1(1) * by auto
qed simp

text \<open>
  C10. The journal refines an unbounded log: after any sequence of operations its history is the
  newest \<open>capacity\<close> events ever appended, numbered 1, 2, 3, \<dots> in the order of the appends, and
  \<open>Latest\<close> is the number of the last one.
\<close>

theorem journal_history:
  "\<exists>j. journal_run ops (NewJournal n) = Some j \<and>
     jo_history j = last_n (jo_capacity (NewJournal n)) (appended 0 ops) \<and>
     Latest j = of_nat (length (appended 0 ops))"
proof -
  have l: "length xs \<le> k \<Longrightarrow> last_n k xs = xs" for k and xs :: "Event list" by (simp add: last_n_def)
  have "subs_open (jo_subs (NewJournal n)) (jo_chans (NewJournal n))" "jo_history (NewJournal n) = []" "jo_next (NewJournal n) = 0"
    by (simp_all add: NewJournal_def subs_open_def)
  then show ?thesis using journal_run_history [of "NewJournal n" ops] by (auto simp: Latest_def l)
qed

section \<open>Resuming from a cursor\<close>

lemma since_loop_filter:
  "length out < limit \<Longrightarrow>
   since_loop after limit out evs = out @ take (limit - length out) (filter (\<lambda>ev. after < ev_Sequence ev) evs)"
proof (induction evs arbitrary: out)
  case (Cons ev evs)
  obtain k where k: "limit = Suc (length out + k)" using Cons.prems less_iff_Suc_add by blast
  show ?case using Cons.IH [of out] Cons.IH [of "out @ [ev]"] unfolding k by (cases k) (auto simp: not_less)
qed simp

lemma filter_from: "(\<And>i. i < length xs \<Longrightarrow> P (xs ! i) \<longleftrightarrow> k \<le> i) \<Longrightarrow> filter P xs = drop k xs"
proof -
  assume p: "\<And>i. i < length xs \<Longrightarrow> P (xs ! i) \<longleftrightarrow> k \<le> i"
  have "filter P (take k xs) = []" using p by (auto simp: filter_empty_conv in_set_conv_nth)
  moreover have "filter P (drop k xs) = drop k xs" using p by (auto simp: filter_id_conv in_set_conv_nth)
  ultimately show ?thesis using filter_append [of P "take k xs" "drop k xs"] by simp
qed

lemma appended_sequence: "i < length (appended n ops) \<Longrightarrow> ev_Sequence (appended n ops ! i) = n + of_nat (Suc i)"
  by (induction n ops arbitrary: i rule: appended.induct) (auto simp: stamp_def nth_Cons' Suc_diff_Suc algebra_simps)

lemma last_n_idx: "i < length (last_n n xs) \<Longrightarrow> last_n n xs ! i = xs ! (length xs - n + i)"
  by (simp add: last_n_def)

text \<open>
  C28. A client that comes back with the number of the last event it saw gets every event since
  then, as long as the journal still retains the first of them: nothing is skipped or repeated.
\<close>

theorem Since_complete:
  assumes "journal_run ops (NewJournal n) = Some j"
    and "length (appended 0 ops) < 2 ^ 64"
    and "unat after \<le> length (appended 0 ops)"
    and "length (appended 0 ops) \<le> unat after + jo_capacity (NewJournal n)"
  shows "Since after 0 j = drop (unat after) (appended 0 ops)"
proof -
  let ?all = "appended 0 ops" and ?cap = "jo_capacity (NewJournal n)"
  let ?skip = "length ?all - ?cap"
  have open0: "subs_open (jo_subs (NewJournal n)) (jo_chans (NewJournal n))"
    by (simp add: NewJournal_def subs_open_def)
  have l: "length xs \<le> k \<Longrightarrow> last_n k xs = xs" for k and xs :: "Event list" by (simp add: last_n_def)
  have h: "jo_history j = last_n ?cap ?all" "jo_capacity j = ?cap"
    using journal_run_history [OF open0, of ops] assms(1) by (auto simp: NewJournal_def l)
  have "after < ev_Sequence (?all ! i) \<longleftrightarrow> unat after \<le> i" if "i < length ?all" for i
  proof -
    have "Suc i < 2 ^ 64" using that assms(2) by simp
    then have "unat (ev_Sequence (?all ! i)) = Suc i"
      using appended_sequence [OF that] by (simp add: unat_of_nat take_bit_nat_eq_self flip: of_nat_Suc)
    then show ?thesis by (simp add: word_less_nat_alt less_Suc_eq_le)
  qed
  then have "filter (\<lambda>ev. after < ev_Sequence ev) (jo_history j) = drop (unat after - ?skip) (jo_history j)"
    unfolding h using assms(4) by (intro filter_from) (auto simp: last_n_idx last_n_def)
  moreover have "drop (unat after - ?skip) (jo_history j) = drop (unat after) ?all"
    unfolding h using assms(4) by (simp add: last_n_def)
  moreover have "0 < ?cap" by (simp add: NewJournal_def DefaultJournalCapacity_def)
  ultimately show ?thesis
    unfolding Since_def using since_loop_filter [of "[]" ?cap after "jo_history j"] assms(3, 4) h(2) by simp
qed

definition sample_ops :: "journal_op list" where
  "sample_ops = [JAppend 5 (new_Event EventState), JSubscribe 1, JAppend 6 (new_Event EventLog), JAppend 7 (new_Event EventError)]"

theorem Since_complete_witness:
  "\<exists>j. journal_run sample_ops (NewJournal 2) = Some j \<and> map ev_Kind (Since 1 0 j) = [EventLog, EventError]"
proof -
  let ?j = "the (journal_run sample_ops (NewJournal 2))"
  have 1: "journal_run sample_ops (NewJournal 2) = Some ?j" by code_simp
  have 2: "length (appended 0 sample_ops) < 2 ^ 64" "unat (1 :: 64 word) \<le> length (appended 0 sample_ops)"
    "length (appended 0 sample_ops) \<le> unat (1 :: 64 word) + jo_capacity (NewJournal 2)"
    by (simp_all add: sample_ops_def NewJournal_def)
  have "map ev_Kind (drop 1 (appended 0 sample_ops)) = [EventLog, EventError]" by code_simp
  then show ?thesis using Since_complete [OF 1 2] 1 by auto
qed

section \<open>Appends that overlap\<close>

text \<open>
  Goroutines append while others subscribe and cancel.  An append in flight has released the lock
  and holds the channels it still has to offer its event to.
\<close>

record overlap =
  ov_journal :: Journal
  ov_flight :: "(Event \<times> nat list) list"

inductive overlap_step :: "overlap \<Rightarrow> overlap \<Rightarrow> bool" where
  start: "append_locked now ev (ov_journal s) = (ev', subs, j) \<Longrightarrow>
    overlap_step s (s\<lparr>ov_journal := j, ov_flight := ov_flight s @ [(ev', subs)]\<rparr>)"
| send: "i < length (ov_flight s) \<Longrightarrow> ov_flight s ! i = (ev, c # cs) \<Longrightarrow> send_all ev [c] (ov_journal s) = Some j \<Longrightarrow>
    overlap_step s (s\<lparr>ov_journal := j, ov_flight := (ov_flight s)[i := (ev, cs)]\<rparr>)"
| subscribe: "overlap_step s (s\<lparr>ov_journal := snd (Subscribe buffer (ov_journal s))\<rparr>)"
| cancel: "overlap_step s (s\<lparr>ov_journal := journal_cancel c (ov_journal s)\<rparr>)"
| receive: "overlap_step s (s\<lparr>ov_journal := (ov_journal s)\<lparr>jo_chans := receive c (jo_chans (ov_journal s))\<rparr>\<rparr>)"

inductive_cases overlap_stepE: "overlap_step s t"

text \<open>An append in flight whose next send is on a closed channel: the goroutine panics.\<close>

definition send_panics :: "overlap \<Rightarrow> bool" where
  "send_panics s = list_ex (\<lambda>(ev, cs). case cs of [] \<Rightarrow> False | c # _ \<Rightarrow> send_all ev [c] (ov_journal s) = None) (ov_flight s)"

definition idle :: "int \<Rightarrow> overlap" where
  "idle n = \<lparr>ov_journal = NewJournal n, ov_flight = []\<rparr>"

text \<open>
  C29. An append that overlaps a reader's cancellation can send on the closed channel: from a new
  journal a state is reachable in which an append panics.
\<close>

theorem journal_append_can_panic: "\<exists>s. overlap_step\<^sup>*\<^sup>* (idle n) s \<and> send_panics s"
proof -
  let ?s1 = "(idle n)\<lparr>ov_journal := snd (Subscribe 1 (ov_journal (idle n)))\<rparr>"
  obtain ev subs j where a: "append_locked 1 (new_Event EventLog) (ov_journal ?s1) = (ev, subs, j)" by (rule prod_cases3)
  let ?s2 = "?s1\<lparr>ov_journal := j, ov_flight := ov_flight ?s1 @ [(ev, subs)]\<rparr>"
  let ?s3 = "?s2\<lparr>ov_journal := journal_cancel 0 (ov_journal ?s2)\<rparr>"
  have "overlap_step\<^sup>*\<^sup>* (idle n) ?s3"
    using overlap_step.subscribe [of "idle n" 1] overlap_step.start [OF a] overlap_step.cancel [of ?s2 0]
    by (meson rtranclp.rtrancl_into_rtrancl rtranclp.rtrancl_refl)
  moreover have "send_panics ?s3"
    using a by (auto simp: send_panics_def idle_def NewJournal_def Subscribe_def append_locked_def Let_def
        journal_cancel_def close_chan_def new_chan_def send_all_def try_send_def)
  ultimately show ?thesis by blast
qed

text \<open>
  C30. Two appends that overlap can reach a reader in the wrong order, although their numbers are
  given under the lock: a reader that has seen event 2 may never have seen event 1.
\<close>

theorem journal_append_can_reorder:
  "\<exists>s. overlap_step\<^sup>*\<^sup>* (idle n) s \<and> map ev_Sequence (ch_queue (jo_chans (ov_journal s) ! 0)) = [2, 1]"
proof -
  let ?ev = "\<lambda>k. stamp k 1 (new_Event EventLog)"
  let ?cap = "jo_capacity (NewJournal n)"
  let ?j = "\<lambda>k hist q. \<lparr>jo_next = k, jo_capacity = ?cap, jo_history = last_n ?cap hist, jo_subs = [0],
      jo_chans = [\<lparr>ch_cap = 2, ch_queue = q, ch_closed = False\<rparr>], jo_dropped = 0\<rparr>"
  let ?s = "\<lambda>k hist q fl. \<lparr>ov_journal = ?j k hist q, ov_flight = fl\<rparr>"
  have 2: "last_n ?cap (last_n ?cap [?ev 1] @ [?ev 2]) = last_n ?cap [?ev 1, ?ev 2]" by (simp add: last_n_append)
  have h1: "overlap_step (idle n) (?s 0 [] [] [])"
    using overlap_step.subscribe [of "idle n" 2]
    by (simp add: idle_def NewJournal_def Subscribe_def new_chan_def last_n_def)
  have h2: "overlap_step (?s 0 [] [] []) (?s 1 [?ev 1] [] [(?ev 1, [0])])"
    using overlap_step.start [OF append_locked_last, of "?s 0 [] [] []" 1 "new_Event EventLog"]
    by (simp add: last_n_def [of ?cap "[]"])
  have h3: "overlap_step (?s 1 [?ev 1] [] [(?ev 1, [0])]) (?s 2 [?ev 1, ?ev 2] [] [(?ev 1, [0]), (?ev 2, [0])])"
    using overlap_step.start [OF append_locked_last, of "?s 1 [?ev 1] [] [(?ev 1, [0])]" 1 "new_Event EventLog"]
    by (simp add: 2)
  have h4: "overlap_step (?s 2 [?ev 1, ?ev 2] [] [(?ev 1, [0]), (?ev 2, [0])])
      (?s 2 [?ev 1, ?ev 2] [?ev 2] [(?ev 1, [0]), (?ev 2, [])])"
    using overlap_step.send [of 1 "?s 2 [?ev 1, ?ev 2] [] [(?ev 1, [0]), (?ev 2, [0])]" "?ev 2" 0 "[]"]
    by (auto simp: send_all_def try_send_def full_def)
  have h5: "overlap_step (?s 2 [?ev 1, ?ev 2] [?ev 2] [(?ev 1, [0]), (?ev 2, [])])
      (?s 2 [?ev 1, ?ev 2] [?ev 2, ?ev 1] [(?ev 1, []), (?ev 2, [])])"
    using overlap_step.send [of 0 "?s 2 [?ev 1, ?ev 2] [?ev 2] [(?ev 1, [0]), (?ev 2, [])]" "?ev 1" 0 "[]"]
    by (auto simp: send_all_def try_send_def full_def)
  note rt = rtranclp.rtrancl_into_rtrancl [where r = overlap_step]
  note r = rt [OF rt [OF rt [OF rt [OF rt [OF rtranclp.rtrancl_refl h1] h2] h3] h4] h5]
  show ?thesis by (rule exI, rule conjI, rule r) (simp add: stamp_def)
qed

end
