(* ===== verification/GoRegexp.thy ===== *)
theory GoRegexp
  imports GoStrings "HOL-Library.Sublist"
begin

text \<open>
  Regular expressions of package \<open>regexp\<close> as far as the core uses them: classes, sequences,
  ordered alternatives, greedy repetition, numbered groups and word boundaries, with the
  leftmost-first semantics of Go.  Matching is on bytes; the patterns of the core have ASCII
  literals and classes only, and a negated class takes every byte of a longer rune, so this is
  the matching of runes.  A match has consumed \<open>rev\<close> of what it put in front of \<open>ms_before\<close>.
\<close>

section \<open>Matching\<close>

datatype regex =
    Class "(char \<times> char) list"
  | NotClass "(char \<times> char) list"
  | Seq "regex list"
  | Alt "regex list"
  | Rep nat "nat option" regex
  | Group nat regex
  | WordBoundary

record mstate =
  ms_before :: string
  ms_rest :: string
  ms_groups :: "(nat \<times> string) list"

definition in_class :: "(char \<times> char) list \<Rightarrow> char \<Rightarrow> bool" where
  "in_class rs c = list_ex (\<lambda>(a, b). byte a \<le> byte c \<and> byte c \<le> byte b) rs"

definition is_word :: "char \<Rightarrow> bool" where
  "is_word c \<longleftrightarrow> is_digit c \<or> is_lower c \<or> is_upper c \<or> c = CHR ''_''"

definition at_boundary :: "mstate \<Rightarrow> bool" where
  "at_boundary m \<longleftrightarrow>
     (case ms_before m of [] \<Rightarrow> False | c # _ \<Rightarrow> is_word c) \<noteq> (case ms_rest m of [] \<Rightarrow> False | c # _ \<Rightarrow> is_word c)"

definition eat :: "(char \<Rightarrow> bool) \<Rightarrow> mstate \<Rightarrow> mstate list" where
  "eat p m =
     (case ms_rest m of
        [] \<Rightarrow> []
      | c # cs \<Rightarrow> if p c then [m\<lparr>ms_before := c # ms_before m, ms_rest := cs\<rparr>] else [])"

text \<open>At least \<open>lo\<close> and at most \<open>hi\<close> rounds, more rounds first.\<close>

primrec rounds :: "(mstate \<Rightarrow> mstate list) \<Rightarrow> nat \<Rightarrow> nat \<Rightarrow> mstate \<Rightarrow> mstate list" where
  "rounds f 0 lo m = (if lo = 0 then [m] else [])"
| "rounds f (Suc hi) lo m = concat (map (rounds f hi (lo - 1)) (f m)) @ (if lo = 0 then [m] else [])"

fun in_turn :: "(mstate \<Rightarrow> mstate list) list \<Rightarrow> mstate \<Rightarrow> mstate list" where
  "in_turn [] m = [m]"
| "in_turn (f # fs) m = concat (map (in_turn fs) (f m))"

text \<open>
  All ways to match at the front of the rest, in order of priority.  An unbounded repetition is
  bounded by the rest: a round that matters consumes a byte.
\<close>

primrec rmatch :: "regex \<Rightarrow> mstate \<Rightarrow> mstate list" where
  "rmatch (Class rs) m = eat (in_class rs) m"
| "rmatch (NotClass rs) m = eat (\<lambda>c. \<not> in_class rs c) m"
| "rmatch (Seq xs) m = in_turn (map rmatch xs) m"
| "rmatch (Alt xs) m = concat (map (\<lambda>f. f m) (map rmatch xs))"
| "rmatch (Rep lo hi r) m = rounds (rmatch r) (case hi of Some h \<Rightarrow> h | None \<Rightarrow> lo + length (ms_rest m)) lo m"
| "rmatch (Group n r) m =
     map (\<lambda>m'. m'\<lparr>ms_groups := (n, rev (take (length (ms_before m') - length (ms_before m)) (ms_before m'))) # ms_groups m'\<rparr>)
       (rmatch r m)"
| "rmatch WordBoundary m = (if at_boundary m then [m] else [])"

definition group_text :: "nat \<Rightarrow> mstate \<Rightarrow> string" where
  "group_text n m = (case map_of (ms_groups m) n of Some s \<Rightarrow> s | None \<Rightarrow> [])"

definition MatchString :: "regex \<Rightarrow> string \<Rightarrow> bool" where
  "MatchString r s =
     list_ex (\<lambda>i. rmatch r \<lparr>ms_before = rev (take i s), ms_rest = drop i s, ms_groups = []\<rparr> \<noteq> []) [0..<Suc (length s)]"

section \<open>Replacing\<close>

text \<open>
  \<open>ReplaceAllString\<close>: the leftmost match is replaced and the search goes on behind it.
  \<open>prev\<close> is what has been passed, for the word boundary.
\<close>

function replace_from :: "regex \<Rightarrow> (mstate \<Rightarrow> string) \<Rightarrow> string \<Rightarrow> string \<Rightarrow> string" where
  "replace_from r template prev s =
     (case rmatch r \<lparr>ms_before = prev, ms_rest = s, ms_groups = []\<rparr> of
        m # _ \<Rightarrow>
          if length (ms_rest m) < length s then template m @ replace_from r template (ms_before m) (ms_rest m)
          else (case s of [] \<Rightarrow> template m | c # cs \<Rightarrow> template m @ c # replace_from r template (c # prev) cs)
      | [] \<Rightarrow> (case s of [] \<Rightarrow> [] | c # cs \<Rightarrow> c # replace_from r template (c # prev) cs))"
  by pat_completeness auto
termination
  by (relation "measure (\<lambda>(r, template, prev, s). length s)") auto

declare replace_from.simps [simp del]

definition ReplaceAllString :: "regex \<Rightarrow> (mstate \<Rightarrow> string) \<Rightarrow> string \<Rightarrow> string" where
  "ReplaceAllString r template s = replace_from r template [] s"

section \<open>Writing expressions\<close>

definition lit :: "string \<Rightarrow> regex" where
  "lit s = Seq (map (\<lambda>c. Class [(c, c)]) s)"

text \<open>A letter under \<open>(?i)\<close>; the long s and the Kelvin sign fold to \<open>s\<close> and \<open>k\<close>.\<close>

definition fold_lit :: "char \<Rightarrow> regex" where
  "fold_lit c =
     (let upper = (if is_lower c then char_of (byte c - 32) else c) in
      if c = CHR ''s'' then Alt [Class [(c, c), (upper, upper)], lit [CHR 0xC5, CHR 0xBF]]
      else if c = CHR ''k'' then Alt [Class [(c, c), (upper, upper)], lit [CHR 0xE2, CHR 0x84, CHR 0xAA]]
      else Class [(c, c), (upper, upper)])"

definition word :: "string \<Rightarrow> regex" where
  "word s = Seq (map fold_lit s)"

abbreviation digit_cls :: regex where
  "digit_cls \<equiv> Class [(CHR ''0'', CHR ''9'')]"

text \<open>\<open>\s\<close> in Go.\<close>

definition space_ranges :: "(char \<times> char) list" where
  "space_ranges = [(CHR 0x09, CHR 0x0A), (CHR 0x0C, CHR 0x0D), (CHR 0x20, CHR 0x20)]"

section \<open>What a match consumes\<close>

definition eaten :: "mstate \<Rightarrow> mstate \<Rightarrow> string \<Rightarrow> bool" where
  "eaten m m' w \<longleftrightarrow> ms_rest m = w @ ms_rest m' \<and> ms_before m' = rev w @ ms_before m"

lemma eaten_refl: "eaten m m []"
  by (simp add: eaten_def)

lemma eaten_trans: "eaten m m' v \<Longrightarrow> eaten m' m'' w \<Longrightarrow> eaten m m'' (v @ w)"
  by (simp add: eaten_def)

lemma eat_eaten: "m' \<in> set (eat p m) \<Longrightarrow> \<exists>c. p c \<and> eaten m m' [c] \<and> ms_groups m' = ms_groups m"
  by (auto simp: eat_def eaten_def split: list.splits if_splits)

lemma rounds_eaten:
  "(\<And>m m'. m' \<in> set (f m) \<Longrightarrow> \<exists>w. eaten m m' w) \<Longrightarrow> m' \<in> set (rounds f hi lo m) \<Longrightarrow> \<exists>w. eaten m m' w"
proof (induction hi arbitrary: lo m)
  case 0
  then show ?case using eaten_refl by (auto split: if_splits)
next
  case (Suc hi)
  then show ?case using eaten_refl by (auto split: if_splits) (metis eaten_trans)+
qed

lemma in_turn_eaten:
  "(\<And>f m m'. f \<in> set fs \<Longrightarrow> m' \<in> set (f m) \<Longrightarrow> \<exists>w. eaten m m' w) \<Longrightarrow> m' \<in> set (in_turn fs m) \<Longrightarrow> \<exists>w. eaten m m' w"
proof (induction fs m rule: in_turn.induct)
  case (2 f fs m)
  then obtain m1 where m1: "m1 \<in> set (f m)" "m' \<in> set (in_turn fs m1)" by auto
  then obtain v w where "eaten m m1 v" "eaten m1 m' w" using 2 by (metis list.set_intros(1, 2))
  then show ?case using eaten_trans by blast
qed (use eaten_refl in auto)

lemma rmatch_eaten: "m' \<in> set (rmatch r m) \<Longrightarrow> \<exists>w. eaten m m' w"
proof (induction r arbitrary: m m')
  case (Seq xs)
  show ?case
    by (rule in_turn_eaten [of "map rmatch xs"]) (use Seq in auto)
next
  case (Rep lo hi r)
  then show ?case using rounds_eaten [of "rmatch r" m'] by simp
next
  case (Group n r)
  then show ?case by (auto simp: eaten_def)
qed (use eat_eaten eaten_refl in \<open>fastforce split: if_splits\<close>)+

text \<open>An expression without groups leaves the groups as they are.\<close>

primrec groupless :: "regex \<Rightarrow> bool" where
  "groupless (Class rs) = True"
| "groupless (NotClass rs) = True"
| "groupless (Seq xs) = list_all id (map groupless xs)"
| "groupless (Alt xs) = list_all id (map groupless xs)"
| "groupless (Rep lo hi r) = groupless r"
| "groupless (Group n r) = False"
| "groupless WordBoundary = True"

lemma rounds_keep:
  "(\<And>m m'. m' \<in> set (f m) \<Longrightarrow> g m' = g m) \<Longrightarrow> m' \<in> set (rounds f hi lo m) \<Longrightarrow> g m' = g m"
proof (induction hi arbitrary: lo m)
  case (Suc hi)
  then show ?case by (auto split: if_splits)
qed (auto split: if_splits)

lemma in_turn_keep:
  "(\<And>f m m'. f \<in> set fs \<Longrightarrow> m' \<in> set (f m) \<Longrightarrow> g m' = g m) \<Longrightarrow> m' \<in> set (in_turn fs m) \<Longrightarrow> g m' = g m"
proof (induction fs m rule: in_turn.induct)
  case (2 f fs m)
  then obtain m1 where m1: "m1 \<in> set (f m)" "m' \<in> set (in_turn fs m1)" by auto
  then show ?case using 2 by (metis list.set_intros(1, 2))
qed auto

lemma groupless_keep: "groupless r \<Longrightarrow> m' \<in> set (rmatch r m) \<Longrightarrow> ms_groups m' = ms_groups m"
proof (induction r arbitrary: m m')
  case (Seq xs)
  show ?case
    by (rule in_turn_keep [of "map rmatch xs" ms_groups m' m]) (use Seq in \<open>auto simp: list_all_iff\<close>)
next
  case (Rep lo hi r)
  then show ?case using rounds_keep [of "rmatch r" ms_groups m'] by simp
next
  case (Alt xs)
  then show ?case by (auto simp: list_all_iff)
qed (auto split: if_splits dest: eat_eaten)

lemma in_turn_Cons: "m' \<in> set (in_turn (f # fs) m) \<longleftrightarrow> (\<exists>m1 \<in> set (f m). m' \<in> set (in_turn fs m1))"
  by auto

lemma in_turn_Nil: "m' \<in> set (in_turn [] m) \<longleftrightarrow> m' = m"
  by simp

lemma group_eaten:
  assumes "m' \<in> set (rmatch (Group n r) m)" "groupless r"
  shows "\<exists>w. eaten m m' w \<and> ms_groups m' = (n, w) # ms_groups m"
proof -
  obtain m1 where m1: "m1 \<in> set (rmatch r m)"
    and m': "m' = m1\<lparr>ms_groups := (n, rev (take (length (ms_before m1) - length (ms_before m)) (ms_before m1))) # ms_groups m1\<rparr>"
    using assms(1) by auto
  obtain w where w: "eaten m m1 w" using rmatch_eaten [OF m1] by blast
  have "rev (take (length (ms_before m1) - length (ms_before m)) (ms_before m1)) = w"
    using w by (simp add: eaten_def)
  then show ?thesis using w m' groupless_keep [OF assms(2) m1] by (auto simp: eaten_def)
qed

lemma boundary_eaten: "m' \<in> set (rmatch WordBoundary m) \<Longrightarrow> m' = m"
  by (auto split: if_splits)

lemma lit_eaten: "m' \<in> set (rmatch (lit s) m) \<Longrightarrow> eaten m m' s \<and> ms_groups m' = ms_groups m"
proof (induction s arbitrary: m)
  case Nil
  then show ?case by (simp add: lit_def eaten_refl)
next
  case (Cons c s)
  then obtain m1 where m1: "m1 \<in> set (eat (in_class [(c, c)]) m)" "m' \<in> set (rmatch (lit s) m1)"
    by (auto simp: lit_def)
  then obtain d where "in_class [(c, c)] d" "eaten m m1 [d]" "ms_groups m1 = ms_groups m" using eat_eaten by blast
  moreover from this(1) have "d = c" by (simp add: in_class_def order.eq_iff [symmetric])
  ultimately show ?case using Cons.IH [OF m1(2)] eaten_trans [of m m1 "[c]" m' s] by simp
qed

section \<open>Replacing keeps the pieces\<close>

text \<open>
  A template that keeps a front and a back of the match around one fixed text: the result is
  pieces of the input joined by that text.
\<close>

definition in_pieces :: "string \<Rightarrow> string \<Rightarrow> string \<Rightarrow> bool" where
  "in_pieces fixed s out \<longleftrightarrow>
     (\<exists>p ps. out = Join (p # ps) fixed \<and> prefix p s \<and> (\<forall>q \<in> set ps. sublist q s))"

lemma in_pieces_Nil: "in_pieces fixed s []"
  unfolding in_pieces_def by (intro exI [of _ "[]"]) simp

lemma in_pieces_Cons:
  assumes "in_pieces fixed cs out"
  shows "in_pieces fixed (c # cs) (c # out)"
proof -
  obtain p ps where p: "out = Join (p # ps) fixed" "prefix p cs" "\<forall>q \<in> set ps. sublist q cs"
    using assms unfolding in_pieces_def by blast
  have "c # out = Join ((c # p) # ps) fixed" unfolding p(1) by (cases ps) simp_all
  moreover have "prefix (c # p) (c # cs)" using p(2) by simp
  moreover have "\<forall>q \<in> set ps. sublist q (c # cs)" using p(3) by (simp add: sublist_Cons_right)
  ultimately show ?thesis unfolding in_pieces_def by blast
qed

lemma in_pieces_match:
  assumes "in_pieces fixed rest out"
  shows "in_pieces fixed (x @ y @ z @ rest) (x @ fixed @ z @ out)"
proof -
  obtain p ps where p: "out = Join (p # ps) fixed" "prefix p rest" "\<forall>q \<in> set ps. sublist q rest"
    using assms unfolding in_pieces_def by blast
  have "x @ fixed @ z @ out = Join (x # (z @ p) # ps) fixed" unfolding p(1) by (cases ps) simp_all
  moreover have "prefix x (x @ y @ z @ rest)" by simp
  moreover have "sublist (z @ p) (x @ y @ z @ rest)"
    using p(2) by (metis append.assoc prefix_imp_sublist same_prefix_prefix sublist_append_leftI sublist_order.order_trans)
  moreover have "sublist rest (x @ y @ z @ rest)" by (metis append.assoc sublist_append_leftI)
  then have "\<forall>q \<in> set ps. sublist q (x @ y @ z @ rest)" using p(3) sublist_order.order_trans by blast
  ultimately show ?thesis unfolding in_pieces_def by (intro exI [of _ x] exI [of _ "(z @ p) # ps"]) simp
qed

lemma replace_from_pieces:
  assumes "\<And>prev s m. m \<in> set (rmatch r \<lparr>ms_before = prev, ms_rest = s, ms_groups = []\<rparr>) \<Longrightarrow>
      \<exists>x y z. s = x @ y @ z @ ms_rest m \<and> template m = x @ fixed @ z"
  shows "in_pieces fixed s (replace_from r template prev s)"
proof (induction "length s" arbitrary: prev s rule: less_induct)
  case less
  have rest: "in_pieces fixed s (c # replace_from r template (c # prev) cs)" if "s = c # cs" for c cs
    unfolding that by (rule in_pieces_Cons, rule less) (simp add: that)
  show ?case
  proof (cases "rmatch r \<lparr>ms_before = prev, ms_rest = s, ms_groups = []\<rparr>")
    case Nil
    then show ?thesis
      using rest in_pieces_Nil by (subst replace_from.simps) (simp split: list.split)
  next
    case (Cons m ms)
    then have "m \<in> set (rmatch r \<lparr>ms_before = prev, ms_rest = s, ms_groups = []\<rparr>)" by simp
    from assms [OF this] obtain x y z where xyz: "s = x @ y @ z @ ms_rest m" "template m = x @ fixed @ z" by blast
    show ?thesis
    proof (cases "length (ms_rest m) < length s")
      case True
      then have "replace_from r template prev s = x @ fixed @ z @ replace_from r template (ms_before m) (ms_rest m)"
        using Cons xyz(2) by (subst replace_from.simps) simp
      then show ?thesis
        using in_pieces_match [OF less [OF True], of x y z "ms_before m"] xyz(1) by simp
    next
      case False
      then have e: "x = []" "z = []" using arg_cong [OF xyz(1), of length] by simp_all
      have "in_pieces fixed s (template m @ out)" if "in_pieces fixed s out" for out
        using in_pieces_match [OF that, of "[]" "[]" "[]"] e xyz(2) by simp
      then show ?thesis
        using Cons False rest in_pieces_Nil by (subst replace_from.simps) (fastforce split: list.split)
    qed
  qed
qed

end
