(* ===== verification/Redaction.thy ===== *)
theory Redaction
  imports GoRegexp PlanModel GoJSON
begin

text \<open>
  Masking of credentials and destinations: \<open>engine/redact.go\<close>, \<open>logs/privacy.go\<close>, and the values a
  plan has masked, \<open>engine/profile.go\<close> and the readers of \<open>engine/validate.go\<close>.  The cached
  replacer is always the one of the current values, so the redactor is its list of values.
\<close>

section \<open>The redactor\<close>

type_synonym Redactor = "string list"

text \<open>One value of \<open>Add\<close>.\<close>

definition add_value :: "string \<Rightarrow> Redactor \<Rightarrow> Redactor" where
  "add_value v r = (if length v < 4 then r else if v \<in> set r then r else r @ [v])"

definition Add :: "string list \<Rightarrow> Redactor \<Rightarrow> Redactor" where
  "Add values r =
     (let r' = fold add_value values r in
      if length r' = length r then r else sort_key (\<lambda>v. - int (length v)) r')"

definition NewRedactor :: "string list \<Rightarrow> Redactor" where
  "NewRedactor values = Add values []"

definition mask :: string where
  "mask = ''[masked]''"

text \<open>
  \<open>strings.Replacer\<close>: at each position the first of the values, in order, that starts there is
  replaced and skipped.
\<close>

function Replace :: "Redactor \<Rightarrow> string \<Rightarrow> string" where
  "Replace r s =
     (case s of
        [] \<Rightarrow> []
      | c # cs \<Rightarrow>
          (case find (\<lambda>v. v \<noteq> [] \<and> HasPrefix s v) r of
             Some v \<Rightarrow> mask @ Replace r (drop (length v) s)
           | None \<Rightarrow> c # Replace r cs))"
  by pat_completeness auto
termination
proof (relation "measure (\<lambda>(r, s). length s)")
  fix r s c cs v
  assume "s = c # cs" "find (\<lambda>v. v \<noteq> [] \<and> HasPrefix s v) r = Some v"
  then show "((r, drop (length v) s), r, s) \<in> measure (\<lambda>(r, s). length s)"
    by (auto simp: find_Some_iff)
qed auto

declare Replace.simps [simp del]

definition hex_ci :: regex where
  "hex_ci = Class [(CHR ''0'', CHR ''9''), (CHR ''a'', CHR ''f''), (CHR ''A'', CHR ''F'')]"

definition uuidPattern :: regex where
  "uuidPattern =
     Seq [Rep 8 (Some 8) hex_ci, lit ''-'', Rep 4 (Some 4) hex_ci, lit ''-'', Rep 4 (Some 4) hex_ci, lit ''-'',
          Rep 4 (Some 4) hex_ci, lit ''-'', Rep 12 (Some 12) hex_ci]"

definition keyValuePattern :: regex where
  "keyValuePattern =
     Seq [WordBoundary,
          Group 1 (Alt (map word [''uuid'', ''password'', ''passwd'', ''secret'', ''token'', ''private-key'',
            ''preshared-key'', ''pre-shared-key'', ''obfs-password'', ''psk''])),
          WordBoundary,
          Group 2 (Rep 1 None (Class [(CHR ''='', CHR ''=''), (CHR '':'', CHR '':''), (CHR '' '', CHR '' '')])),
          Group 3 (Rep 1 None (NotClass space_ranges))]"

definition userInfoPattern :: regex where
  "userInfoPattern =
     Seq [WordBoundary,
          Group 1 (Alt [Seq [word ''http'', Rep 0 (Some 1) (word ''s'')], word ''socks5'', word ''vless'', word ''vmess'',
            word ''trojan'', word ''ss'']),
          lit ''://'',
          Rep 1 None (NotClass ([(CHR ''/'', CHR ''/''), (CHR '':'', CHR '':''), (CHR ''@'', CHR ''@'')] @ space_ranges)),
          lit '':'',
          Rep 1 None (NotClass ((CHR ''@'', CHR ''@'') # space_ranges)),
          lit ''@'']"

definition maskPatterns :: "string \<Rightarrow> string" where
  "maskPatterns s =
     (let s1 = ReplaceAllString userInfoPattern (\<lambda>m. group_text 1 m @ ''://'' @ mask @ ''@'') s;
          s2 = ReplaceAllString keyValuePattern (\<lambda>m. group_text 1 m @ group_text 2 m @ mask) s1
      in ReplaceAllString uuidPattern (\<lambda>m. mask) s2)"

definition Redactor_String :: "Redactor \<Rightarrow> string \<Rightarrow> string" where
  "Redactor_String r s = (if s = [] then s else maskPatterns (Replace r s))"

section \<open>Hiding destinations\<close>

definition dst_port :: regex where
  "dst_port = Rep 0 (Some 1) (Seq [lit '':'', Rep 1 (Some 5) digit_cls])"

definition alnum_ci :: regex where
  "alnum_ci = Alt [Class [(CHR ''a'', CHR ''z''), (CHR ''A'', CHR ''Z''), (CHR ''0'', CHR ''9'')],
     lit [CHR 0xC5, CHR 0xBF], lit [CHR 0xE2, CHR 0x84, CHR 0xAA]]"

definition alpha_ci :: regex where
  "alpha_ci = Alt [Class [(CHR ''a'', CHR ''z''), (CHR ''A'', CHR ''Z'')],
     lit [CHR 0xC5, CHR 0xBF], lit [CHR 0xE2, CHR 0x84, CHR 0xAA]]"

definition destinationPatterns :: "regex list" where
  "destinationPatterns =
     [Seq [lit ''['', Rep 1 None (Class [(CHR ''0'', CHR ''9''), (CHR ''A'', CHR ''F''), (CHR ''a'', CHR ''f''),
             (CHR '':'', CHR '':''), (CHR ''.'', CHR ''.'')]), lit '']'', dst_port],
      Seq [WordBoundary, Rep 3 (Some 7) (Seq [Rep 1 (Some 4) hex_ci, lit '':'']), Rep 1 (Some 4) hex_ci, WordBoundary],
      Seq [WordBoundary, Rep 1 (Some 3) digit_cls, Rep 3 (Some 3) (Seq [lit ''.'', Rep 1 (Some 3) digit_cls]), dst_port,
           WordBoundary],
      Seq [WordBoundary,
           Rep 1 None (Seq [alnum_ci,
             Rep 0 (Some 1) (Seq [Rep 0 (Some 61) (Alt [alnum_ci, lit ''-'']), alnum_ci]), lit ''.'']),
           Rep 2 (Some 63) alpha_ci, WordBoundary, dst_port]]"

definition Destination :: string where
  "Destination = ''[destination]''"

definition HideDestinations :: "string \<Rightarrow> string" where
  "HideDestinations s = foldl (\<lambda>s p. ReplaceAllString p (\<lambda>m. Destination) s) s destinationPatterns"

section \<open>What a plan has masked\<close>

definition profileKeys :: "string list" where
  "profileKeys = [''id'', ''password'', ''pass'', ''user'', ''publicKey'', ''privateKey'', ''shortId'', ''preSharedKey'',
     ''secretKey'', ''spiderX'', ''seed'']"

lemma set_last_wins: "set (last_wins m) \<subseteq> set m"
proof
  fix x
  assume "x \<in> set (last_wins m)"
  then obtain k where x: "x = (k, the (map_of (rev m) k))" and "k \<in> fst ` set m"
    by (auto simp: last_wins_def)
  then have "map_of (rev m) k \<noteq> None" by (simp add: map_of_eq_None_iff)
  then have "(k, the (map_of (rev m) k)) \<in> set (rev m)" by (intro map_of_SomeD) simp
  then show "x \<in> set m" using x by simp
qed

lemma last_wins_smaller: "(k, v) \<in> set (last_wins m) \<Longrightarrow> size v < Suc (size_list (size_prod (\<lambda>x. 0) size) m)"
proof -
  assume "(k, v) \<in> set (last_wins m)"
  then have "(k, v) \<in> set m" using set_last_wins by blast
  then have "size_prod (\<lambda>x. 0) size (k, v) \<le> size_list (size_prod (\<lambda>x. 0) size) m"
    by (rule size_list_estimation') simp
  then show ?thesis by simp
qed

definition as_string :: "json \<Rightarrow> string option" where
  "as_string v = (case v of JStr s \<Rightarrow> Some s | _ \<Rightarrow> None)"

function profile_walk :: "json \<Rightarrow> string list" where
  "profile_walk (JObj m) =
     concat (map (\<lambda>(k, v). if k \<in> set profileKeys \<and> as_string v \<noteq> None then [the (as_string v)] else profile_walk v)
       (last_wins m))"
| "profile_walk (JArr xs) = concat (map profile_walk xs)"
| "profile_walk JNull = []"
| "profile_walk (JBool b) = []"
| "profile_walk (JNum n) = []"
| "profile_walk (JStr s) = []"
  by pat_completeness auto
termination
proof (relation "measure size")
  show "(v, JObj m) \<in> measure size" if "x \<in> set (last_wins m)" "(k, v) = x" for m :: "(string \<times> json) list" and x k v
    using last_wins_smaller that by fastforce
  show "(x, JArr xs) \<in> measure size" if "x \<in> set xs" for x and xs :: "json list"
    using size_list_estimation' [OF that, of "size x" size] by simp
qed simp

definition profileSecrets :: "string \<Rightarrow> string list" where
  "profileSecrets raw =
     (if raw = [] then [] else case json_parse raw of None \<Rightarrow> [] | Some v \<Rightarrow> profile_walk v)"

definition Outbound_Secrets :: "Outbound \<Rightarrow> string list" where
  "Outbound_Secrets x =
     filter (\<lambda>c. 4 \<le> length c)
       ([o_UUID x, o_Password x, o_UserID x, o_ObfsParam x, o_PrivateKey x, o_OriginalLink x] @
        (if o_Encryption x \<noteq> ''none'' then [o_Encryption x] else []) @
        map wg_PreSharedKey (o_Peers x) @ profileSecrets (o_Profile x))"

definition Plan_Secrets :: "Plan option \<Rightarrow> string list" where
  "Plan_Secrets p =
     (case p of
        None \<Rightarrow> []
      | Some p \<Rightarrow>
          concat (map Outbound_Secrets (p_Outbounds p)) @
          (if 4 \<le> length (lp_Password (p_LocalProxy p)) then [lp_Password (p_LocalProxy p)] else []))"

definition JoinHostPort :: "string \<Rightarrow> string \<Rightarrow> string" where
  "JoinHostPort host port = (if CHR '':'' \<in> set host then ''['' @ host @ '']:'' @ port else host @ '':'' @ port)"

definition Outbound_Identifiers :: "Outbound \<Rightarrow> string list" where
  "Outbound_Identifiers x =
     (if o_Server x \<noteq> [] then
        o_Server x # (if o_Port x \<noteq> 0 then [JoinHostPort (o_Server x) (Itoa (uint (o_Port x)))] else [])
      else []) @
     (if tls_ServerName (o_TLS x) \<noteq> [] then [tls_ServerName (o_TLS x)] else []) @
     [o_Name x]"

definition Plan_Identifiers :: "Plan option \<Rightarrow> string list" where
  "Plan_Identifiers p = (case p of None \<Rightarrow> [] | Some p \<Rightarrow> concat (map Outbound_Identifiers (p_Outbounds p)))"

definition Warnings :: "Outbound \<Rightarrow> string list" where
  "Warnings x =
     (if tls_Insecure (o_TLS x) \<and> o_Protocol x \<noteq> ProtocolDirect then [''insecure-certificate''] else []) @
     (if tls_Enabled (o_TLS x) \<and> tls_ServerName (o_TLS x) = [] \<and> o_Protocol x \<noteq> ProtocolDirect
      then [''tls-server-name-missing''] else []) @
     (if tr_Type (o_Transport x) = ''ws'' \<and> \<not> tls_Enabled (o_TLS x) then [''websocket-without-tls''] else [])"

section \<open>No registered value survives\<close>

lemma sublist_split: "c \<notin> set v \<Longrightarrow> sublist v (x @ c # y) \<Longrightarrow> sublist v x \<or> sublist v y"
proof -
  assume "c \<notin> set v" "sublist v (x @ c # y)"
  then obtain a b where ab: "x @ c # y = a @ v @ b" by (auto simp: sublist_def)
  consider us where "x = a @ us" "us @ c # y = v @ b" | us where "x @ us = a" "c # y = us @ v @ b"
    using ab by (auto simp: append_eq_append_conv2)
  then show ?thesis
  proof cases
    case 1
    then have "(\<exists>k. v = us @ k \<and> c # y = k @ b) \<or> (\<exists>k. us = v @ k \<and> b = k @ c # y)"
      by (auto simp: append_eq_append_conv2)
    then show ?thesis
    proof
      assume "\<exists>k. v = us @ k \<and> c # y = k @ b"
      then obtain k where k: "v = us @ k" "c # y = k @ b" by blast
      then have "k = []" using \<open>c \<notin> set v\<close> by (cases k) auto
      then have "sublist v x" using k 1(1) by (simp add: sublist_append_leftI)
      then show ?thesis ..
    next
      assume "\<exists>k. us = v @ k \<and> b = k @ c # y"
      then have "sublist v x" using 1(1) by (auto simp: sublist_def)
      then show ?thesis ..
    qed
  next
    case 2
    show ?thesis
    proof (cases us)
      case Nil
      then have "v = []" using 2(2) \<open>c \<notin> set v\<close> by (cases v) auto
      then show ?thesis by simp
    next
      case (Cons d ds)
      then show ?thesis using 2(2) by (auto simp: sublist_def)
    qed
  qed
qed

definition plain :: "string \<Rightarrow> bool" where
  "plain v \<longleftrightarrow> v \<noteq> [] \<and> CHR ''['' \<notin> set v \<and> CHR '']'' \<notin> set v \<and> \<not> sublist v ''masked''"

lemma plain_Join:
  assumes "plain v" "sublist v (Join ps mask)"
  shows "\<exists>p \<in> set ps. sublist v p"
  using assms(2)
proof (induction ps)
  case Nil
  then show ?case using assms(1) by (simp add: plain_def)
next
  case (Cons p ps)
  show ?case
  proof (cases ps)
    case Nil
    then show ?thesis using Cons.prems by simp
  next
    case (Cons q qs)
    have "Join (p # ps) mask = p @ CHR ''['' # ''masked'' @ CHR '']'' # Join ps mask"
      unfolding Cons by (simp add: mask_def)
    then have "sublist v p \<or> sublist v (''masked'' @ CHR '']'' # Join ps mask)"
      using Cons.prems assms(1) by (intro sublist_split [of "CHR ''[''"]) (simp_all add: plain_def)
    moreover have "sublist v (''masked'' @ CHR '']'' # Join ps mask) \<Longrightarrow> sublist v (Join ps mask)"
      using sublist_split [of "CHR '']''" v "''masked''" "Join ps mask"] assms(1) unfolding plain_def by blast
    ultimately show ?thesis using Cons.IH by auto
  qed
qed

lemma in_pieces_plain:
  assumes "in_pieces mask s out" "plain v" "sublist v out"
  shows "sublist v s"
proof -
  obtain p ps where p: "out = Join (p # ps) mask" "prefix p s" "\<forall>q \<in> set ps. sublist q s"
    using assms(1) unfolding in_pieces_def by blast
  then obtain q where "q \<in> set (p # ps)" "sublist v q" using plain_Join assms(2, 3) by blast
  moreover have "sublist q s" using calculation(1) p(2, 3) by (auto intro: prefix_imp_sublist)
  ultimately show ?thesis using sublist_order.order_trans by blast
qed

text \<open>The replacer: the pieces between the masks contain no registered value.\<close>

lemma Replace_pieces:
  "\<exists>p ps. Replace r s = Join (p # ps) mask \<and> prefix p s \<and> (\<forall>q \<in> set (p # ps). \<forall>v \<in> set r. v \<noteq> [] \<longrightarrow> \<not> sublist v q)"
proof (induction r s rule: Replace.induct)
  case (1 r s)
  show ?case
  proof (cases s)
    case Nil
    then show ?thesis by (subst Replace.simps) (auto intro!: exI [of _ "[]"])
  next
    case s: (Cons c cs)
    show ?thesis
    proof (cases "find (\<lambda>v. v \<noteq> [] \<and> HasPrefix s v) r")
      case None
      from 1(1) [OF s None] obtain p ps where p: "Replace r cs = Join (p # ps) mask" "prefix p cs"
        "\<forall>q \<in> set (p # ps). \<forall>v \<in> set r. v \<noteq> [] \<longrightarrow> \<not> sublist v q" by blast
      have "Replace r s = c # Join (p # ps) mask" using s None p(1) by (subst Replace.simps) simp
      also have "\<dots> = Join ((c # p) # ps) mask" by (cases ps) simp_all
      finally have out: "Replace r s = Join ((c # p) # ps) mask" .
      have pre: "prefix (c # p) s" using p(2) s by simp
      have "\<not> sublist v (c # p)" if v: "v \<in> set r" "v \<noteq> []" for v
      proof
        assume "sublist v (c # p)"
        then have "prefix v (c # p)" using p(3) v by (auto simp: sublist_Cons_right)
        then have "prefix v s" using pre by (rule prefix_order.trans)
        then have "HasPrefix s v" by (auto simp: HasPrefix_def prefix_def)
        then show False using None v by (auto simp: find_None_iff)
      qed
      then show ?thesis using out pre p(3) by (intro exI [of _ "c # p"] exI [of _ ps]) simp
    next
      case (Some v)
      from 1(2) [OF s Some] obtain p ps where p: "Replace r (drop (length v) s) = Join (p # ps) mask"
        "\<forall>q \<in> set (p # ps). \<forall>v \<in> set r. v \<noteq> [] \<longrightarrow> \<not> sublist v q" by blast
      have "Replace r s = mask @ Join (p # ps) mask" using s Some p(1) by (subst Replace.simps) simp
      also have "\<dots> = Join ([] # p # ps) mask" by (cases ps) simp_all
      finally show ?thesis using p(2) by (intro exI [of _ "[]"] exI [of _ "p # ps"]) simp
    qed
  qed
qed

text \<open>The three patterns keep a front and a back of what they match around the mask.\<close>

lemma uuid_keeps:
  assumes "m \<in> set (rmatch uuidPattern \<lparr>ms_before = prev, ms_rest = s, ms_groups = []\<rparr>)"
  shows "\<exists>x y z. s = x @ y @ z @ ms_rest m \<and> mask = x @ mask @ z"
  using rmatch_eaten [OF assms] by (auto simp: eaten_def intro: exI [of _ "[]"])

lemma key_value_shape:
  assumes "m \<in> set (rmatch (Seq [WordBoundary, Group 1 a, WordBoundary, Group 2 b, Group 3 c])
      \<lparr>ms_before = prev, ms_rest = s, ms_groups = []\<rparr>)"
    and g: "groupless a" "groupless b" "groupless c"
  shows "\<exists>x y z. s = x @ y @ z @ ms_rest m \<and> group_text 1 m @ group_text 2 m @ mask = x @ mask @ z"
proof -
  let ?m0 = "\<lparr>ms_before = prev, ms_rest = s, ms_groups = []\<rparr>"
  obtain m1 m2 m3 m4 where
      m1: "m1 \<in> set (rmatch WordBoundary ?m0)" and m2: "m2 \<in> set (rmatch (Group 1 a) m1)"
      and m3: "m3 \<in> set (rmatch WordBoundary m2)" and m4: "m4 \<in> set (rmatch (Group 2 b) m3)"
      and m: "m \<in> set (rmatch (Group 3 c) m4)"
    using assms(1) unfolding rmatch.simps(3) list.map in_turn_Cons in_turn_Nil by blast
  obtain w1 where w1: "eaten m1 m2 w1" "ms_groups m2 = (1, w1) # ms_groups m1" using group_eaten [OF m2 g(1)] by blast
  obtain w2 where w2: "eaten m3 m4 w2" "ms_groups m4 = (2, w2) # ms_groups m3" using group_eaten [OF m4 g(2)] by blast
  obtain w3 where w3: "eaten m4 m w3" "ms_groups m = (3, w3) # ms_groups m4" using group_eaten [OF m g(3)] by blast
  have "m1 = ?m0" "m3 = m2" using boundary_eaten m1 m3 by blast+
  then have "group_text 1 m @ group_text 2 m @ mask = (w1 @ w2) @ mask @ []" "s = (w1 @ w2) @ w3 @ [] @ ms_rest m"
    using w1 w2 w3 by (simp_all add: group_text_def eaten_def)
  then show ?thesis by blast
qed

lemma user_info_shape:
  assumes "m \<in> set (rmatch (Seq [WordBoundary, Group 1 a, lit ''://'', b, lit '':'', c, lit ''@''])
      \<lparr>ms_before = prev, ms_rest = s, ms_groups = []\<rparr>)"
    and g: "groupless a" "groupless b" "groupless c"
  shows "\<exists>x y z. s = x @ y @ z @ ms_rest m \<and> group_text 1 m @ ''://'' @ mask @ ''@'' = x @ mask @ z"
proof -
  let ?m0 = "\<lparr>ms_before = prev, ms_rest = s, ms_groups = []\<rparr>"
  obtain m1 m2 m3 m4 m5 m6 where
      m1: "m1 \<in> set (rmatch WordBoundary ?m0)" and m2: "m2 \<in> set (rmatch (Group 1 a) m1)"
      and m3: "m3 \<in> set (rmatch (lit ''://'') m2)" and m4: "m4 \<in> set (rmatch b m3)"
      and m5: "m5 \<in> set (rmatch (lit '':'') m4)" and m6: "m6 \<in> set (rmatch c m5)"
      and m: "m \<in> set (rmatch (lit ''@'') m6)"
    using assms(1) unfolding rmatch.simps(3) list.map in_turn_Cons in_turn_Nil by blast
  obtain w1 where w1: "eaten m1 m2 w1" "ms_groups m2 = (1, w1) # ms_groups m1" using group_eaten [OF m2 g(1)] by blast
  obtain w2 where w2: "eaten m3 m4 w2" using rmatch_eaten [OF m4] by blast
  obtain w3 where w3: "eaten m5 m6 w3" using rmatch_eaten [OF m6] by blast
  note l = lit_eaten [OF m3] lit_eaten [OF m5] lit_eaten [OF m]
  have "m1 = ?m0" using boundary_eaten m1 by blast
  moreover have "ms_groups m = ms_groups m2"
    using l groupless_keep [OF g(2) m4] groupless_keep [OF g(3) m6] by simp
  ultimately have "group_text 1 m @ ''://'' @ mask @ ''@'' = (w1 @ ''://'') @ mask @ ''@''"
      "s = (w1 @ ''://'') @ (w2 @ '':'' @ w3) @ ''@'' @ ms_rest m"
    using w1 w2 w3 l by (simp_all add: group_text_def eaten_def)
  then show ?thesis by blast
qed

lemma groupless_word: "groupless (word s)"
  by (auto simp: word_def fold_lit_def lit_def Let_def list_all_iff)

lemma userInfo_pieces:
  "in_pieces mask s (ReplaceAllString userInfoPattern (\<lambda>m. group_text 1 m @ ''://'' @ mask @ ''@'') s)"
  unfolding ReplaceAllString_def userInfoPattern_def
  by (rule replace_from_pieces, erule user_info_shape) (simp_all add: groupless_word)

lemma keyValue_pieces:
  "in_pieces mask s (ReplaceAllString keyValuePattern (\<lambda>m. group_text 1 m @ group_text 2 m @ mask) s)"
  unfolding ReplaceAllString_def keyValuePattern_def
  by (rule replace_from_pieces, erule key_value_shape) (simp_all add: groupless_word)

lemma uuid_pieces: "in_pieces mask s (ReplaceAllString uuidPattern (\<lambda>m. mask) s)"
  unfolding ReplaceAllString_def by (rule replace_from_pieces, erule uuid_keeps)

lemma maskPatterns_plain: "plain v \<Longrightarrow> sublist v (maskPatterns s) \<Longrightarrow> sublist v s"
  unfolding maskPatterns_def Let_def
  by (blast intro: in_pieces_plain userInfo_pieces keyValue_pieces uuid_pieces)

lemma set_fold_add: "set (fold add_value values r) = set r \<union> {v \<in> set values. 4 \<le> length v}"
  by (induction "values" arbitrary: r) (auto simp: add_value_def)

lemma fold_add_prefix: "\<exists>xs. fold add_value values r = r @ xs"
proof (induction "values" arbitrary: r)
  case (Cons v vs)
  obtain ys where "add_value v r = r @ ys" by (cases "length v < 4 \<or> v \<in> set r") (auto simp: add_value_def)
  then show ?case using Cons [of "add_value v r"] by auto
qed simp

lemma set_Add: "set (Add values r) = set r \<union> {v \<in> set values. 4 \<le> length v}"
proof (cases "length (fold add_value values r) = length r")
  case True
  then have "fold add_value values r = r" using fold_add_prefix [of "values" r] by auto
  then show ?thesis using set_fold_add [of "values" r] by (simp add: Add_def)
qed (simp add: Add_def Let_def set_fold_add)

lemma Redactor_String_plain:
  assumes "v \<in> set r" "plain v"
  shows "\<not> sublist v (Redactor_String r s)"
proof
  assume a: "sublist v (Redactor_String r s)"
  obtain p ps where p: "Replace r s = Join (p # ps) mask"
      "\<forall>q \<in> set (p # ps). \<forall>v \<in> set r. v \<noteq> [] \<longrightarrow> \<not> sublist v q"
    using Replace_pieces by blast
  have "s \<noteq> []" using a assms(2) by (auto simp: Redactor_String_def plain_def)
  then have "sublist v (Join (p # ps) mask)"
    using a maskPatterns_plain [OF assms(2)] p(1) by (simp add: Redactor_String_def)
  from plain_Join [OF assms(2) this] show False using p(2) assms by (auto simp: plain_def)
qed




definition secret_plan :: Plan where
  "secret_plan = zero_Plan\<lparr>p_Outbounds := [zero_Outbound\<lparr>o_ID := ''a'', o_Password := ''s3cr3t''\<rparr>]\<rparr>"



end
