(* ===== verification/LogCenter.thy ===== *)
theory LogCenter
  imports EventStreams Redaction
begin

text \<open>
  The in-memory log of the core, \<open>logs/logs.go\<close> and \<open>logs/watch.go\<close>, with the level mapping of
  \<open>logs/slog.go\<close> and the cell quoting of \<open>logs/export.go\<close>.  Every operation holds the lock from
  its first to its last access, so each is one function of the center.  \<open>lower\<close> is
  \<open>strings.ToLower\<close>, whose Unicode tables are an argument; a filter's pattern is compiled
  already.
\<close>

section \<open>Entries, settings and the center\<close>

type_synonym Level = int

definition LevelDebug :: Level where "LevelDebug = 1"
definition LevelInfo :: Level where "LevelInfo = 2"
definition LevelWarning :: Level where "LevelWarning = 3"
definition LevelError :: Level where "LevelError = 4"

definition levelNames :: "(Level \<times> string) list" where
  "levelNames = [(LevelDebug, ''debug''), (LevelInfo, ''info''), (LevelWarning, ''warning''), (LevelError, ''error'')]"

definition Level_String :: "Level \<Rightarrow> string" where
  "Level_String l = (case map_of levelNames l of Some n \<Rightarrow> n | None \<Rightarrow> ''unknown'')"

definition ParseLevel :: "(string \<Rightarrow> string) \<Rightarrow> string \<Rightarrow> Level option" where
  "ParseLevel lower s =
     (let t = lower (TrimSpace s) in
      if t \<in> set [''trace'', ''debug'', ''dbg''] then Some LevelDebug
      else if t \<in> set [''info'', ''information'', ''notice''] then Some LevelInfo
      else if t \<in> set [''warn'', ''warning''] then Some LevelWarning
      else if t \<in> set [''error'', ''err'', ''fatal'', ''panic'', ''critical''] then Some LevelError
      else None)"

definition slogLevel :: "int \<Rightarrow> Level" where
  "slogLevel l = (if l \<ge> 8 then LevelError else if l \<ge> 4 then LevelWarning else if l \<ge> 0 then LevelInfo else LevelDebug)"

definition SourceCore :: string where "SourceCore = ''core''"
definition SourceSubscription :: string where "SourceSubscription = ''subscription''"

record LogEntry =
  le_Seq :: "64 word"
  le_Time :: Time
  le_Level :: Level
  le_Source :: string
  le_Message :: string
  le_Repeat :: "32 word"

definition entry_size :: "LogEntry \<Rightarrow> int" where
  "entry_size e = int (length (le_Message e)) + int (length (le_Source e)) + 48"

record LogSettings =
  lg_CaptureLevel :: Level
  lg_RecordDestinations :: bool
  lg_MaxEntries :: int
  lg_MaxBytes :: int

definition DefaultMaxEntries :: int where "DefaultMaxEntries = 20000"
definition DefaultMaxBytes :: int where "DefaultMaxBytes = 8388608"
definition MaxMessageBytes :: int where "MaxMessageBytes = 4096"
definition foldWindow :: Duration where "foldWindow = 30 * Second"

definition DefaultSettings :: LogSettings where
  "DefaultSettings =
     \<lparr>lg_CaptureLevel = LevelInfo, lg_RecordDestinations = True, lg_MaxEntries = DefaultMaxEntries,
      lg_MaxBytes = DefaultMaxBytes\<rparr>"

definition normalized :: "LogSettings \<Rightarrow> LogSettings" where
  "normalized s =
     s\<lparr>lg_CaptureLevel := (if map_of levelNames (lg_CaptureLevel s) = None then LevelInfo else lg_CaptureLevel s),
       lg_MaxEntries := (if lg_MaxEntries s \<le> 0 then DefaultMaxEntries else lg_MaxEntries s),
       lg_MaxBytes := (if lg_MaxBytes s \<le> 0 then DefaultMaxBytes else lg_MaxBytes s)\<rparr>"

record Filter =
  fl_MinLevel :: Level
  fl_Sources :: "string list"
  fl_Contains :: string
  fl_Pattern :: "regex option"
  fl_Since :: Time
  fl_Until :: Time

definition filter_match :: "(string \<Rightarrow> string) \<Rightarrow> Filter \<Rightarrow> LogEntry \<Rightarrow> bool" where
  "filter_match lower f e =
     (if le_Level e < fl_MinLevel f then False
      else if fl_Sources f \<noteq> [] \<and> le_Source e \<notin> set (fl_Sources f) then False
      else if fl_Since f \<noteq> 0 \<and> le_Time e < fl_Since f then False
      else if fl_Until f \<noteq> 0 \<and> le_Time e > fl_Until f then False
      else if fl_Contains f \<noteq> [] \<and> \<not> Contains (lower (le_Message e)) (lower (fl_Contains f)) then False
      else (case fl_Pattern f of None \<Rightarrow> True | Some r \<Rightarrow> MatchString r (le_Message e)))"

definition MaxPatternLen :: nat where "MaxPatternLen = 512"

text \<open>\<open>CompilePattern\<close>; \<open>compile\<close> is \<open>regexp.Compile\<close>.\<close>

datatype pattern_err = PatternTooLong | PatternInvalid

definition CompilePattern :: "(string \<Rightarrow> regex option) \<Rightarrow> string \<Rightarrow> pattern_err + regex option" where
  "CompilePattern compile expr =
     (if expr = [] then Inr None
      else if length expr > MaxPatternLen then Inl PatternTooLong
      else case compile (''(?i)'' @ expr) of Some r \<Rightarrow> Inr (Some r) | None \<Rightarrow> Inl PatternInvalid)"

text \<open>A watcher has its own bounded channel; \<open>lc_watchers\<close> has the open ones under their ids.\<close>

record watcher =
  wa_filter :: Filter
  wa_ch :: "LogEntry chan"
  wa_lost :: "64 word"

record Center =
  lc_settings :: LogSettings
  lc_entries :: "LogEntry list"
  lc_bytes :: int
  lc_next :: "64 word"
  lc_dropped :: "64 word"
  lc_watchers :: "(nat \<times> watcher) list"
  lc_ids :: nat

definition NewCenter :: "LogSettings \<Rightarrow> Center" where
  "NewCenter settings =
     \<lparr>lc_settings = normalized settings, lc_entries = [], lc_bytes = 0, lc_next = 1, lc_dropped = 0, lc_watchers = [],
      lc_ids = 0\<rparr>"

section \<open>Writing\<close>

text \<open>The loop of \<open>evict\<close>: the entries that stay, their bytes, and how many were dropped.\<close>

fun evict_loop :: "LogSettings \<Rightarrow> LogEntry list \<Rightarrow> int \<Rightarrow> nat \<Rightarrow> LogEntry list \<times> int \<times> nat" where
  "evict_loop s [] bytes drop_n = ([], bytes, drop_n)"
| "evict_loop s (e # es) bytes drop_n =
     (if int (length (e # es)) > lg_MaxEntries s \<or> bytes > lg_MaxBytes s
      then evict_loop s es (bytes - entry_size e) (Suc drop_n)
      else (e # es, bytes, drop_n))"

definition evict :: "Center \<Rightarrow> Center" where
  "evict c =
     (case evict_loop (lc_settings c) (lc_entries c) (lc_bytes c) 0 of
        (es, bytes, drop_n) \<Rightarrow>
          if drop_n = 0 then c
          else c\<lparr>lc_entries := es, lc_bytes := bytes, lc_dropped := lc_dropped c + of_nat drop_n\<rparr>)"

definition SetSettings :: "LogSettings \<Rightarrow> Center \<Rightarrow> Center" where
  "SetSettings s c = evict (c\<lparr>lc_settings := normalized s\<rparr>)"

definition notify_watcher :: "(string \<Rightarrow> string) \<Rightarrow> LogEntry \<Rightarrow> watcher \<Rightarrow> watcher" where
  "notify_watcher lower e w =
     (if \<not> filter_match lower (wa_filter w) e then w
      else if full (wa_ch w) then w\<lparr>wa_lost := wa_lost w + 1\<rparr>
      else w\<lparr>wa_ch := (wa_ch w)\<lparr>ch_queue := ch_queue (wa_ch w) @ [e]\<rparr>\<rparr>)"

definition notify :: "(string \<Rightarrow> string) \<Rightarrow> LogEntry \<Rightarrow> Center \<Rightarrow> Center" where
  "notify lower e c = c\<lparr>lc_watchers := map (\<lambda>(i, w). (i, notify_watcher lower e w)) (lc_watchers c)\<rparr>"

definition TrimRight :: "string \<Rightarrow> string" where
  "TrimRight s = rev (dropWhile is_newline (rev s))"

definition cut_message :: "string \<Rightarrow> string" where
  "cut_message m = (if int (length m) > MaxMessageBytes then take (nat MaxMessageBytes) m @ '' [cut]'' else m)"

definition folds_into :: "LogEntry \<Rightarrow> Time \<Rightarrow> Level \<Rightarrow> string \<Rightarrow> string \<Rightarrow> bool" where
  "folds_into e at level source message \<longleftrightarrow>
     le_Source e = source \<and> le_Level e = level \<and> le_Message e = message \<and> at - le_Time e < foldWindow"

text \<open>\<open>Write\<close>; \<open>now\<close> is what \<open>c.now\<close> would return.\<close>

definition Write :: "(string \<Rightarrow> string) \<Rightarrow> Time \<Rightarrow> Time \<Rightarrow> Level \<Rightarrow> string \<Rightarrow> string \<Rightarrow> Center \<Rightarrow> Center" where
  "Write lower now at0 level source message0 c =
     (let message1 = TrimRight message0 in
      if message1 = [] then c
      else
        let message2 = cut_message message1;
            at = (if at0 = 0 then now else at0)
        in
        if level < lg_CaptureLevel (lc_settings c) then c
        else
          let message = (if \<not> lg_RecordDestinations (lc_settings c) \<and> source \<noteq> SourceCore \<and> source \<noteq> SourceSubscription
                         then HideDestinations message2 else message2)
          in
          if lc_entries c \<noteq> [] \<and> folds_into (last (lc_entries c)) at level source message
          then
            let e = (last (lc_entries c))\<lparr>le_Repeat := le_Repeat (last (lc_entries c)) + 1, le_Time := at\<rparr>
            in notify lower e (c\<lparr>lc_entries := butlast (lc_entries c) @ [e]\<rparr>)
          else
            let e = \<lparr>le_Seq = lc_next c, le_Time = at, le_Level = level, le_Source = source, le_Message = message,
                     le_Repeat = 1\<rparr>
            in notify lower e
                 (evict (c\<lparr>lc_next := lc_next c + 1, lc_entries := lc_entries c @ [e], lc_bytes := lc_bytes c + entry_size e\<rparr>)))"

definition Clear :: "Center \<Rightarrow> Center" where
  "Clear c = c\<lparr>lc_entries := [], lc_bytes := 0\<rparr>"

section \<open>Reading\<close>

record Stats =
  ss_ByLevel :: "(Level \<times> nat) list"
  ss_BySource :: "(string \<times> nat) list"
  ss_Total :: nat
  ss_Bytes :: int
  ss_MaxBytes :: int
  ss_Dropped :: "64 word"

definition count_in :: "'k \<Rightarrow> ('k \<times> nat) list \<Rightarrow> ('k \<times> nat) list" where
  "count_in k m = AList.update k (Suc (case map_of m k of Some n \<Rightarrow> n | None \<Rightarrow> 0)) m"

definition stats :: "Center \<Rightarrow> Stats" where
  "stats c =
     \<lparr>ss_ByLevel = fold (\<lambda>e. count_in (le_Level e)) (lc_entries c) [],
      ss_BySource = fold (\<lambda>e. count_in (le_Source e)) (lc_entries c) [],
      ss_Total = length (lc_entries c), ss_Bytes = lc_bytes c, ss_MaxBytes = lg_MaxBytes (lc_settings c),
      ss_Dropped = lc_dropped c\<rparr>"

record Page =
  pg_Entries :: "LogEntry list"
  pg_Before :: "64 word"
  pg_Stats :: Stats

definition MaxPage :: int where "MaxPage = 1000"

text \<open>The loop of \<open>Query\<close> from the newest entry down: the page and the cursor of the next one.\<close>

fun query_loop :: "(LogEntry \<Rightarrow> bool) \<Rightarrow> 64 word \<Rightarrow> nat \<Rightarrow> LogEntry list \<Rightarrow> LogEntry list \<Rightarrow> LogEntry list \<times> 64 word" where
  "query_loop match prev limit page [] = (page, 0)"
| "query_loop match prev limit page (e # es) =
     (if prev \<noteq> 0 \<and> le_Seq e \<ge> prev then query_loop match prev limit page es
      else if \<not> match e then query_loop match prev limit page es
      else if length page = limit then (page, le_Seq (last page))
      else query_loop match prev limit (page @ [e]) es)"

definition Query :: "(string \<Rightarrow> string) \<Rightarrow> Filter \<Rightarrow> 64 word \<Rightarrow> int \<Rightarrow> Center \<Rightarrow> Page" where
  "Query lower f prev limit c =
     (let n = nat (if limit \<le> 0 \<or> limit > MaxPage then MaxPage else limit) in
      case query_loop (filter_match lower f) prev n [] (rev (lc_entries c)) of
        (page, cursor) \<Rightarrow> \<lparr>pg_Entries = page, pg_Before = cursor, pg_Stats = stats c\<rparr>)"

definition Matching :: "(string \<Rightarrow> string) \<Rightarrow> Filter \<Rightarrow> Center \<Rightarrow> LogEntry list" where
  "Matching lower f c = filter (filter_match lower f) (lc_entries c)"

definition watchBuffer :: nat where "watchBuffer = 512"

definition Watch :: "(string \<Rightarrow> string) \<Rightarrow> Filter \<Rightarrow> 64 word \<Rightarrow> Center \<Rightarrow> nat \<times> Center" where
  "Watch lower f after c =
     (let replay = filter (\<lambda>e. le_Seq e > after \<and> filter_match lower f e) (lc_entries c);
          w = \<lparr>wa_filter = f,
               wa_ch = \<lparr>ch_cap = length replay + watchBuffer, ch_queue = replay, ch_closed = False\<rparr>,
               wa_lost = 0\<rparr>
      in (lc_ids c, c\<lparr>lc_watchers := lc_watchers c @ [(lc_ids c, w)], lc_ids := Suc (lc_ids c)\<rparr>))"

definition Lost :: "nat \<Rightarrow> Center \<Rightarrow> 64 word option" where
  "Lost i c = map_option wa_lost (map_of (lc_watchers c) i)"

definition watch_Close :: "nat \<Rightarrow> Center \<Rightarrow> Center" where
  "watch_Close i c = c\<lparr>lc_watchers := filter (\<lambda>(k, _). k \<noteq> i) (lc_watchers c)\<rparr>"

text \<open>A reader takes the oldest entry of its channel.\<close>

definition watch_receive :: "nat \<Rightarrow> Center \<Rightarrow> Center" where
  "watch_receive i c =
     c\<lparr>lc_watchers := map (\<lambda>(k, w). (k, if k = i then w\<lparr>wa_ch := (wa_ch w)\<lparr>ch_queue := tl (ch_queue (wa_ch w))\<rparr>\<rparr> else w))
         (lc_watchers c)\<rparr>"

text \<open>The cell of a spreadsheet that must not start a formula.\<close>

definition cell :: "string \<Rightarrow> string" where
  "cell s = (if s \<noteq> [] \<and> hd s \<in> set [CHR ''='', CHR ''+'', CHR ''-'', CHR ''@'', CHR 0x09, CHR 0x0D] then CHR 0x27 # s else s)"

section \<open>The bounds of the log\<close>

datatype center_op =
    LWrite Time Time Level string string
  | LSettings LogSettings
  | LClear
  | LWatch Filter "64 word"
  | LClose nat
  | LReceive nat

definition center_step :: "(string \<Rightarrow> string) \<Rightarrow> center_op \<Rightarrow> Center \<Rightarrow> Center" where
  "center_step lower op c =
     (case op of
        LWrite now at level source message \<Rightarrow> Write lower now at level source message c
      | LSettings s \<Rightarrow> SetSettings s c
      | LClear \<Rightarrow> Clear c
      | LWatch f after \<Rightarrow> snd (Watch lower f after c)
      | LClose i \<Rightarrow> watch_Close i c
      | LReceive i \<Rightarrow> watch_receive i c)"

definition center_run :: "(string \<Rightarrow> string) \<Rightarrow> center_op list \<Rightarrow> LogSettings \<Rightarrow> Center" where
  "center_run lower ops s = fold (center_step lower) ops (NewCenter s)"

definition bytes_of :: "LogEntry list \<Rightarrow> int" where
  "bytes_of es = sum_list (map entry_size es)"

definition within :: "Center \<Rightarrow> bool" where
  "within c \<longleftrightarrow>
     lc_bytes c = bytes_of (lc_entries c) \<and> int (length (lc_entries c)) \<le> lg_MaxEntries (lc_settings c) \<and>
     lc_bytes c \<le> lg_MaxBytes (lc_settings c)"

definition settings_ok :: "LogSettings \<Rightarrow> bool" where
  "settings_ok s \<longleftrightarrow> 0 < lg_MaxEntries s \<and> 0 < lg_MaxBytes s"

lemma normalized_ok: "settings_ok (normalized s)"
  by (simp add: settings_ok_def normalized_def DefaultMaxEntries_def DefaultMaxBytes_def)

lemma evict_loop_spec:
  assumes "evict_loop s es bytes k = (es', bytes', k')" "bytes = bytes_of es" "settings_ok s"
  shows "bytes' = bytes_of es' \<and> int (length es') \<le> lg_MaxEntries s \<and> bytes' \<le> lg_MaxBytes s \<and>
    k \<le> k' \<and> es' = drop (k' - k) es"
  using assms
proof (induction s es bytes k rule: evict_loop.induct)
  case (2 s e es bytes k)
  show ?case
  proof (cases "int (length (e # es)) > lg_MaxEntries s \<or> bytes > lg_MaxBytes s")
    case True
    then have "evict_loop s es (bytes - entry_size e) (Suc k) = (es', bytes', k')" using 2(2) by simp
    moreover have "bytes - entry_size e = bytes_of es" using 2(3) by (simp add: bytes_of_def)
    ultimately have *: "bytes' = bytes_of es' \<and> int (length es') \<le> lg_MaxEntries s \<and> bytes' \<le> lg_MaxBytes s \<and>
        Suc k \<le> k' \<and> es' = drop (k' - Suc k) es" using 2(1) [OF True] 2(4) by blast
    then have "k' - k = Suc (k' - Suc k)" by linarith
    then have "drop (k' - k) (e # es) = drop (k' - Suc k) es" by simp
    then show ?thesis using * Suc_leD by metis
  next
    case False
    then show ?thesis using 2 by auto
  qed
qed (auto simp: bytes_of_def settings_ok_def)

lemma evict_spec:
  assumes "lc_bytes c = bytes_of (lc_entries c)" "settings_ok (lc_settings c)"
  shows "within (evict c)" "\<exists>k. lc_entries (evict c) = drop k (lc_entries c)"
    "lc_settings (evict c) = lc_settings c" "lc_next (evict c) = lc_next c"
proof -
  obtain es b k where e: "evict_loop (lc_settings c) (lc_entries c) (lc_bytes c) 0 = (es, b, k)" by (rule prod_cases3)
  note s = evict_loop_spec [OF e assms]
  have ev: "evict c = (if k = 0 then c else c\<lparr>lc_entries := es, lc_bytes := b, lc_dropped := lc_dropped c + of_nat k\<rparr>)"
    by (simp add: evict_def e)
  show "within (evict c)" "\<exists>k. lc_entries (evict c) = drop k (lc_entries c)"
    "lc_settings (evict c) = lc_settings c" "lc_next (evict c) = lc_next c"
    using s assms(1) unfolding ev within_def by (auto intro: exI [of _ k] exI [of _ 0])
qed

lemma notify_same:
  "lc_entries (notify lower e c) = lc_entries c" "lc_bytes (notify lower e c) = lc_bytes c"
  "lc_settings (notify lower e c) = lc_settings c" "lc_next (notify lower e c) = lc_next c"
  by (simp_all add: notify_def)

lemma within_notify: "within (notify lower e c) = within c"
  by (simp add: within_def notify_same)

text \<open>The shape of a write: nothing, a fold into the newest entry, or a new entry.\<close>

lemma Write_cases:
  obtains (ignored) "Write lower now at level source message c = c"
  | (folded) e es where "lc_entries c = es @ [e]"
      "Write lower now at level source message c
        = notify lower (e\<lparr>le_Repeat := le_Repeat e + 1, le_Time := (if at = 0 then now else at)\<rparr>)
            (c\<lparr>lc_entries := es @ [e\<lparr>le_Repeat := le_Repeat e + 1, le_Time := (if at = 0 then now else at)\<rparr>]\<rparr>)"
  | (added) e where "le_Seq e = lc_next c"
      "Write lower now at level source message c
        = notify lower e (evict (c\<lparr>lc_next := lc_next c + 1, lc_entries := lc_entries c @ [e], lc_bytes := lc_bytes c + entry_size e\<rparr>))"
proof -
  let ?at = "if at = 0 then now else at"
  let ?m2 = "cut_message (TrimRight message)"
  let ?m = "if \<not> lg_RecordDestinations (lc_settings c) \<and> source \<noteq> SourceCore \<and> source \<noteq> SourceSubscription
     then HideDestinations ?m2 else ?m2"
  let ?new = "\<lparr>le_Seq = lc_next c, le_Time = ?at, le_Level = level, le_Source = source, le_Message = ?m, le_Repeat = 1\<rparr>"
  consider "TrimRight message = [] \<or> level < lg_CaptureLevel (lc_settings c)"
    | "TrimRight message \<noteq> []" "\<not> level < lg_CaptureLevel (lc_settings c)" "lc_entries c \<noteq> []"
      "folds_into (last (lc_entries c)) ?at level source ?m"
    | "TrimRight message \<noteq> []" "\<not> level < lg_CaptureLevel (lc_settings c)"
      "\<not> (lc_entries c \<noteq> [] \<and> folds_into (last (lc_entries c)) ?at level source ?m)"
    by blast
  then show thesis
  proof cases
    case 1
    then show thesis by (intro ignored) (auto simp: Write_def Let_def)
  next
    case 2
    then show thesis
      by (intro folded [of "butlast (lc_entries c)" "last (lc_entries c)"]) (simp_all only: Write_def Let_def if_False if_True simp_thms append_butlast_last_id)
  next
    case 3
    then show thesis
      by (intro added [of ?new]) (simp_all only: Write_def Let_def if_False if_True simp_thms LogEntry.simps)
  qed
qed

lemma center_step_within:
  assumes "within c" "settings_ok (lc_settings c)"
  shows "within (center_step lower op c) \<and> settings_ok (lc_settings (center_step lower op c))"
proof (cases op)
  case (LWrite now at level source message)
  show ?thesis
  proof (rule Write_cases [of lower now at level source message c])
    show ?thesis if "Write lower now at level source message c = c"
      using that assms LWrite by (simp add: center_step_def)
  next
    fix e :: LogEntry and es
    let ?e = "e\<lparr>le_Repeat := le_Repeat e + 1, le_Time := (if at = 0 then now else at)\<rparr>"
    assume "lc_entries c = es @ [e]" "Write lower now at level source message c = notify lower ?e (c\<lparr>lc_entries := es @ [?e]\<rparr>)"
    moreover have "entry_size ?e = entry_size e" by (simp add: entry_size_def)
    ultimately show ?thesis
      using assms LWrite by (simp add: center_step_def within_notify notify_same within_def bytes_of_def)
  next
    fix e :: LogEntry
    let ?c = "c\<lparr>lc_next := lc_next c + 1, lc_entries := lc_entries c @ [e], lc_bytes := lc_bytes c + entry_size e\<rparr>"
    assume w: "Write lower now at level source message c = notify lower e (evict ?c)"
    have "lc_bytes ?c = bytes_of (lc_entries ?c)" "settings_ok (lc_settings ?c)"
      using assms by (simp_all add: within_def bytes_of_def)
    from evict_spec [OF this] show ?thesis
      using assms LWrite w by (simp add: center_step_def within_notify notify_same)
  qed
next
  case (LSettings s)
  have "lc_bytes (c\<lparr>lc_settings := normalized s\<rparr>) = bytes_of (lc_entries (c\<lparr>lc_settings := normalized s\<rparr>))"
    using assms by (simp add: within_def)
  from evict_spec [OF this] show ?thesis
    using LSettings by (simp add: center_step_def SetSettings_def normalized_ok)
qed (use assms in \<open>auto simp: center_step_def within_def settings_ok_def Clear_def bytes_of_def Watch_def Let_def watch_Close_def watch_receive_def\<close>)

text \<open>
  C33. Whatever is written, cleared, reconfigured and watched, the log never holds more entries or
  more bytes than its current settings allow, and its byte count is the size of what it holds.
\<close>

theorem log_bounded:
  "lc_bytes (center_run lower ops s) = bytes_of (lc_entries (center_run lower ops s)) \<and>
   int (length (lc_entries (center_run lower ops s))) \<le> lg_MaxEntries (lc_settings (center_run lower ops s)) \<and>
   lc_bytes (center_run lower ops s) \<le> lg_MaxBytes (lc_settings (center_run lower ops s))"
proof -
  have "within (fold (center_step lower) ops c)" if "within c" "settings_ok (lc_settings c)" for c
    using that by (induction ops arbitrary: c) (auto simp: center_step_within)
  moreover have "within (NewCenter s)" "settings_ok (lc_settings (NewCenter s))"
    using normalized_ok [of s] by (auto simp: within_def NewCenter_def bytes_of_def settings_ok_def)
  ultimately have "within (center_run lower ops s)" unfolding center_run_def by blast
  then show ?thesis unfolding within_def .
qed

section \<open>Paging through the log\<close>

text \<open>Entries are numbered in the order they were written, without gaps.\<close>

definition numbered :: "Center \<Rightarrow> nat \<Rightarrow> bool" where
  "numbered c n \<longleftrightarrow>
     lc_next c = of_nat n \<and> length (lc_entries c) < n \<and>
     map le_Seq (lc_entries c) = map of_nat [n - length (lc_entries c)..<n]"

lemma numbered_drop:
  assumes "map le_Seq es = map of_nat [n - length es..<n]" "length es < n"
  shows "map le_Seq (drop k es) = map of_nat [n - length (drop k es)..<n] \<and> length (drop k es) < n"
proof -
  have "map le_Seq (drop k es) = map of_nat (drop k [n - length es..<n])"
    unfolding drop_map [symmetric] assms(1) ..
  also have "drop k [n - length es..<n] = [n - length (drop k es)..<n]"
    using assms(2) by (cases "k \<le> length es") simp_all
  finally show ?thesis using assms(2) by auto
qed

lemma numbered_add:
  assumes "map le_Seq es = map of_nat [n - length es..<n]" "length es < n" "le_Seq e = of_nat n"
  shows "map le_Seq (es @ [e]) = map of_nat [Suc n - length (es @ [e])..<Suc n]"
  using assms by (simp add: less_or_eq_imp_le)

lemma center_step_numbered:
  assumes "within c" "settings_ok (lc_settings c)" "numbered c n"
  shows "\<exists>m. numbered (center_step lower op c) m \<and> m \<le> Suc n"
proof (cases op)
  case (LWrite now at level source message)
  show ?thesis
  proof (rule Write_cases [of lower now at level source message c])
    show ?thesis if "Write lower now at level source message c = c"
      using that assms LWrite by (auto simp: center_step_def)
  next
    fix e :: LogEntry and es
    let ?e = "e\<lparr>le_Repeat := le_Repeat e + 1, le_Time := (if at = 0 then now else at)\<rparr>"
    assume "lc_entries c = es @ [e]" "Write lower now at level source message c = notify lower ?e (c\<lparr>lc_entries := es @ [?e]\<rparr>)"
    then have "numbered (center_step lower op c) n"
      using assms(3) LWrite by (simp add: center_step_def numbered_def notify_same)
    then show ?thesis by auto
  next
    fix e :: LogEntry
    let ?c = "c\<lparr>lc_next := lc_next c + 1, lc_entries := lc_entries c @ [e], lc_bytes := lc_bytes c + entry_size e\<rparr>"
    assume e: "le_Seq e = lc_next c" and w: "Write lower now at level source message c = notify lower e (evict ?c)"
    have "lc_bytes ?c = bytes_of (lc_entries ?c)" "settings_ok (lc_settings ?c)"
      using assms by (simp_all add: within_def bytes_of_def)
    note ev = evict_spec [OF this]
    obtain k where k: "lc_entries (evict ?c) = drop k (lc_entries c @ [e])" using ev(2) by auto
    have "map le_Seq (lc_entries c @ [e]) = map of_nat [Suc n - length (lc_entries c @ [e])..<Suc n]"
      using assms(3) e by (intro numbered_add) (simp_all add: numbered_def)
    from numbered_drop [OF this, of k] have "numbered (notify lower e (evict ?c)) (Suc n)"
      unfolding numbered_def notify_same k ev(4) using assms(3) by (simp add: numbered_def)
    then show ?thesis using LWrite w by (auto simp: center_step_def)
  qed
next
  case (LSettings s)
  let ?c = "c\<lparr>lc_settings := normalized s\<rparr>"
  have "lc_bytes ?c = bytes_of (lc_entries ?c)" "settings_ok (lc_settings ?c)"
    using assms by (simp_all add: within_def normalized_ok)
  note ev = evict_spec [OF this]
  obtain k where "lc_entries (evict ?c) = drop k (lc_entries c)" using ev(2) by auto
  then have "numbered (center_step lower op c) n"
    using LSettings numbered_drop [of "lc_entries c" n k] assms(3) ev(4) by (simp add: center_step_def SetSettings_def numbered_def)
  then show ?thesis by auto
next
  case LClear
  then show ?thesis using assms(3) by (intro exI [of _ n]) (auto simp: center_step_def Clear_def numbered_def)
qed (use assms(3) in \<open>auto simp: center_step_def numbered_def Watch_def Let_def watch_Close_def watch_receive_def intro!: exI [of _ n]\<close>)

lemma center_run_numbered: "\<exists>n. numbered (center_run lower ops s) n \<and> n \<le> Suc (length ops)"
proof -
  have "\<exists>m. numbered (fold (center_step lower) ops c) m \<and> m \<le> n + length ops"
    if "within c" "settings_ok (lc_settings c)" "numbered c n" for c n
    using that
  proof (induction ops arbitrary: c n)
    case (Cons op ops)
    obtain m where m: "numbered (center_step lower op c) m" "m \<le> Suc n"
      using center_step_numbered [OF Cons.prems] by blast
    have "within (center_step lower op c)" "settings_ok (lc_settings (center_step lower op c))"
      using center_step_within Cons.prems by blast+
    from Cons.IH [OF this m(1)] show ?case using m(2) by fastforce
  qed auto
  from this [of "NewCenter s" 1] show ?thesis
    using normalized_ok [of s]
    by (auto simp: center_run_def within_def NewCenter_def bytes_of_def settings_ok_def numbered_def)
qed

lemma query_loop_spec:
  fixes match :: "LogEntry \<Rightarrow> bool" and prev :: "64 word"
  assumes "length page \<le> limit" "0 < limit"
  defines "wanted \<equiv> \<lambda>e. \<not> (prev \<noteq> 0 \<and> le_Seq e \<ge> prev) \<and> match e"
  shows "query_loop match prev limit page es =
    (if length page + length (filter wanted es) \<le> limit then (page @ filter wanted es, 0)
     else (page @ take (limit - length page) (filter wanted es),
           le_Seq (last (page @ take (limit - length page) (filter wanted es)))))"
  using assms(1)
proof (induction es arbitrary: page)
  case (Cons e es)
  show ?case
  proof (cases "wanted e")
    case True
    then have w: "\<not> (prev \<noteq> 0 \<and> prev \<le> le_Seq e)" "match e" by (auto simp: wanted_def)
    show ?thesis
    proof (cases "length page = limit")
      case False
      then have "length (page @ [e]) \<le> limit" using Cons.prems by simp
      moreover from this obtain k where "limit = Suc (length page) + k" by (auto simp: le_iff_add)
      moreover have "query_loop match prev limit page (e # es) = query_loop match prev limit (page @ [e]) es"
        using w False by auto
      ultimately show ?thesis using Cons.IH [of "page @ [e]"] True by simp
    qed (use w True in auto)
  next
    case False
    then have "query_loop match prev limit page (e # es) = query_loop match prev limit page es"
      by (auto simp: wanted_def)
    then show ?thesis using Cons False by simp
  qed
qed (use assms in simp)

text \<open>Follow the cursors until a page has none.\<close>

fun all_pages :: "nat \<Rightarrow> (string \<Rightarrow> string) \<Rightarrow> Filter \<Rightarrow> 64 word \<Rightarrow> int \<Rightarrow> Center \<Rightarrow> LogEntry list" where
  "all_pages 0 lower f prev limit c = []"
| "all_pages (Suc k) lower f prev limit c =
     (let p = Query lower f prev limit c in
      pg_Entries p @ (if pg_Before p = 0 then [] else all_pages k lower f (pg_Before p) limit c))"

lemma filter_less_nth:
  assumes "sorted_wrt (\<lambda>a b. le_Seq b < le_Seq a) es" "0 < n" "n \<le> length es"
  shows "filter (\<lambda>e. le_Seq e < le_Seq (es ! (n - 1))) es = drop n es"
proof (rule filter_from)
  fix i assume i: "i < length es"
  consider "i < n - 1" | "i = n - 1" | "n - 1 < i" by linarith
  then show "le_Seq (es ! i) < le_Seq (es ! (n - 1)) \<longleftrightarrow> n \<le> i"
  proof cases
    case 1
    then have "le_Seq (es ! (n - 1)) < le_Seq (es ! i)" using assms i by (auto simp: sorted_wrt_iff_nth_less)
    then show ?thesis using 1 by (auto simp: not_less dest: less_imp_le order.asym)
  next
    case 3
    then have "le_Seq (es ! i) < le_Seq (es ! (n - 1))" using assms i by (auto simp: sorted_wrt_iff_nth_less)
    then show ?thesis using 3 assms(2) by simp
  qed (use assms(2) in simp)
qed

lemma all_pages_from:
  assumes sorted: "sorted_wrt (\<lambda>a b. le_Seq b < le_Seq a) (rev (lc_entries c))"
    and pos: "\<forall>e \<in> set (lc_entries c). le_Seq e \<noteq> 0"
    and wanted: "es = filter (\<lambda>e. \<not> (prev \<noteq> 0 \<and> le_Seq e \<ge> prev) \<and> filter_match lower f e) (rev (lc_entries c))"
    and "length es < k"
  shows "all_pages k lower f prev limit c = es"
  using wanted assms(4)
proof (induction k arbitrary: prev es)
  case (Suc k)
  define n where "n = nat (if limit \<le> 0 \<or> limit > MaxPage then MaxPage else limit)"
  have n: "0 < n" by (simp add: n_def MaxPage_def)
  note q = query_loop_spec [OF _ n, of "[]" "filter_match lower f" prev "rev (lc_entries c)", folded Suc.prems(1)]
  note Q = Query_def [of lower f prev limit c, folded n_def, unfolded Let_def]
  show ?case
  proof (cases "length es \<le> n")
    case True
    then show ?thesis using q by (simp add: Q)
  next
    case False
    let ?e = "es ! (n - 1)"
    have last: "last (take n es) = ?e" using False n by (subst last_conv_nth) (auto simp: min_def)
    have mem: "?e \<in> set es" using False n by simp
    then have e: "?e \<in> set (lc_entries c)" "\<not> (prev \<noteq> 0 \<and> le_Seq ?e \<ge> prev)" unfolding Suc.prems(1) by auto
    have dec: "sorted_wrt (\<lambda>a b. le_Seq b < le_Seq a) es" unfolding Suc.prems(1) by (rule sorted_wrt_filter [OF sorted])
    have "(\<not> (le_Seq ?e \<noteq> 0 \<and> le_Seq ?e \<le> le_Seq x) \<and> filter_match lower f x) =
        (le_Seq x < le_Seq ?e \<and> \<not> (prev \<noteq> 0 \<and> prev \<le> le_Seq x) \<and> filter_match lower f x)" for x
      using e pos by (auto simp: not_le)
    then have "filter (\<lambda>e. \<not> (le_Seq ?e \<noteq> 0 \<and> le_Seq e \<ge> le_Seq ?e) \<and> filter_match lower f e) (rev (lc_entries c))
        = filter (\<lambda>e. le_Seq e < le_Seq ?e) es"
      using Suc.prems(1) by (simp add: conj_commute)
    also have "\<dots> = drop n es" using filter_less_nth [OF dec n] False by simp
    finally have "drop n es = filter (\<lambda>e. \<not> (le_Seq ?e \<noteq> 0 \<and> le_Seq e \<ge> le_Seq ?e) \<and> filter_match lower f e) (rev (lc_entries c))" ..
    moreover have "length (drop n es) < k" using Suc.prems(2) n False by simp
    ultimately have "all_pages k lower f (le_Seq ?e) limit c = drop n es" by (rule Suc.IH)
    moreover have "le_Seq ?e \<noteq> 0" using e pos by blast
    ultimately show ?thesis using q False last by (simp add: Q)
  qed
qed simp

text \<open>
  C15. Following the cursors of \<open>Query\<close> from the newest page yields every entry the filter selects,
  each exactly once, newest first, for every page size: pages neither skip nor repeat entries.
\<close>

theorem pages_complete:
  assumes "Suc (length ops) < 2 ^ 64" "c = center_run lower ops s"
  shows "all_pages (Suc (length (lc_entries c))) lower f 0 limit c = rev (Matching lower f c)"
proof -
  obtain n where n: "numbered c n" "n < 2 ^ 64" using center_run_numbered [of lower ops s] assms by (auto intro: le_less_trans)
  let ?es = "lc_entries c"
  have seq: "unat (le_Seq (?es ! i)) = n - length ?es + i" if "i < length ?es" for i
  proof -
    have "le_Seq (?es ! i) = map le_Seq ?es ! i" using that by simp
    also have "\<dots> = map of_nat [n - length ?es..<n] ! i" using n(1) unfolding numbered_def by metis
    also have "\<dots> = of_nat (n - length ?es + i)"
    proof -
      have lt: "n - length ?es + i < n" using that n(1) unfolding numbered_def by linarith
      then have "i < length [n - length ?es..<n]" by simp
      then show ?thesis using nth_upt [OF lt] by (simp only: nth_map)
    qed
    finally have "le_Seq (?es ! i) = of_nat (n - length ?es + i)" .
    moreover have "n - length ?es + i < 2 ^ 64" using that n by (simp add: numbered_def)
    ultimately show ?thesis by (simp add: unat_of_nat take_bit_nat_eq_self del: of_nat_add)
  qed
  have sorted: "sorted_wrt (\<lambda>a b. le_Seq b < le_Seq a) (rev ?es)"
  proof -
    have "sorted_wrt (\<lambda>a b. le_Seq a < le_Seq b) ?es"
      using seq by (auto simp: sorted_wrt_iff_nth_less word_less_nat_alt)
    then show ?thesis unfolding sorted_wrt_rev .
  qed
  have pos: "\<forall>e \<in> set ?es. le_Seq e \<noteq> 0"
  proof
    fix e assume "e \<in> set ?es"
    then obtain i where "i < length ?es" "e = ?es ! i" by (auto simp: in_set_conv_nth)
    then have "0 < unat (le_Seq e)" using seq n(1) by (simp add: numbered_def)
    then show "le_Seq e \<noteq> 0" by auto
  qed
  have wanted: "rev (Matching lower f c)
      = filter (\<lambda>e. \<not> ((0 :: 64 word) \<noteq> 0 \<and> le_Seq e \<ge> 0) \<and> filter_match lower f e) (rev ?es)"
    by (simp add: Matching_def rev_filter)
  show ?thesis
    by (rule all_pages_from [OF sorted pos wanted]) (simp add: Matching_def less_Suc_eq_le)
qed

definition any_entry :: Filter where
  "any_entry = \<lparr>fl_MinLevel = 0, fl_Sources = [], fl_Contains = [], fl_Pattern = None, fl_Since = 0, fl_Until = 0\<rparr>"

definition sample_log :: "center_op list" where
  "sample_log = [LWrite 5 0 2 ''core'' ''a'', LWrite 6 0 2 ''core'' ''b'', LWrite 7 0 2 ''core'' ''c'']"

theorem pages_complete_witness:
  "map le_Message (all_pages (Suc 3) id any_entry 0 2 (center_run id sample_log DefaultSettings)) = [''c'', ''b'', ''a'']"
proof -
  let ?c = "center_run id sample_log DefaultSettings"
  have h: "Suc (length sample_log) < 2 ^ 64" by (simp add: sample_log_def)
  have n: "length (lc_entries ?c) = 3" by code_simp
  have "map le_Message (rev (Matching id any_entry ?c)) = [''c'', ''b'', ''a'']" by code_simp
  then show ?thesis using pages_complete [OF h refl, of id DefaultSettings any_entry 2] n by simp
qed

end
