(* ===== verification/SessionGuard.thy ===== *)
theory SessionGuard
  imports ErrClassify TunAddressing
begin

text \<open>
  The system settings a session owns and the guards that apply them, \<open>session/guard.go\<close>.  A guard
  is a record of operations over its own state \<open>'g\<close>; a nil error is \<open>None\<close>, and an invalid
  \<open>netip.Prefix\<close>, the zero value, is \<open>None\<close>.
\<close>

record Settings =
  ss_TunNetworks :: "prefix list"
  ss_FakeIPRange :: "prefix option"
  ss_KillSwitch :: bool
  ss_Bypass :: "string list"
  ss_TunnelMode :: string

definition zero_Settings :: Settings where
  "zero_Settings =
     \<lparr>ss_TunNetworks = [], ss_FakeIPRange = None, ss_KillSwitch = False, ss_Bypass = [], ss_TunnelMode = []\<rparr>"

record 'g GuardOps =
  gu_Apply :: "Settings \<Rightarrow> 'g \<Rightarrow> goerr option \<times> 'g"
  gu_Restore :: "'g \<Rightarrow> goerr option \<times> 'g"
  gu_Current :: "'g \<Rightarrow> Settings"
  gu_Name :: string

definition NoopGuard :: "'g GuardOps" where
  "NoopGuard =
     \<lparr>gu_Apply = (\<lambda>s g. (None, g)), gu_Restore = (\<lambda>g. (None, g)), gu_Current = (\<lambda>g. zero_Settings), gu_Name = ''noop''\<rparr>"

text \<open>\<open>errors.Join\<close>: nil when every argument is.\<close>

definition err_join :: "goerr option list \<Rightarrow> goerr option" where
  "err_join es = (if List.map_filter id es = [] then None else Some (JoinE (List.map_filter id es)))"

section \<open>Several guards as one\<close>

text \<open>
  The state of a composite guard is \<open>active\<close>, the number of parts it believes to be applied, and
  the state the parts share.  Parts are restored last to first.
\<close>

fun roll_back :: "'g GuardOps list \<Rightarrow> goerr option \<Rightarrow> 'g \<Rightarrow> goerr option \<times> 'g" where
  "roll_back [] e g = (e, g)"
| "roll_back (p # ps) e g = (case gu_Restore p g of (r, g') \<Rightarrow> roll_back ps (err_join [e, r]) g')"

fun composite_loop :: "'g GuardOps list \<Rightarrow> Settings \<Rightarrow> 'g GuardOps list \<Rightarrow> nat \<Rightarrow> nat \<times> 'g \<Rightarrow> goerr option \<times> nat \<times> 'g" where
  "composite_loop parts s [] applied (active, g) = (None, applied, g)"
| "composite_loop parts s (p # ps) applied (active, g) =
     (case gu_Apply p s g of
        (None, g') \<Rightarrow> composite_loop parts s ps (applied + 1) (applied + 1, g')
      | (Some e, g') \<Rightarrow>
          (case roll_back (rev (take (applied + 1) parts)) None g' of
             (rollback, g'') \<Rightarrow>
               (map_option (\<lambda>j. Wrap j (CodeOf (Some e)) (KeyOf (Some e))) (err_join [Some e, rollback]),
                if rollback = None then 0 else applied + 1, g'')))"

definition composite_Apply :: "'g GuardOps list \<Rightarrow> Settings \<Rightarrow> nat \<times> 'g \<Rightarrow> goerr option \<times> nat \<times> 'g" where
  "composite_Apply parts s c = composite_loop parts s parts 0 c"

fun restore_parts :: "'g GuardOps list \<Rightarrow> goerr option \<Rightarrow> 'g \<Rightarrow> goerr option \<times> 'g" where
  "restore_parts [] first g = (first, g)"
| "restore_parts (p # ps) first g =
     (case gu_Restore p g of (r, g') \<Rightarrow> restore_parts ps (if r \<noteq> None \<and> first = None then r else first) g')"

definition composite_Restore :: "'g GuardOps list \<Rightarrow> nat \<times> 'g \<Rightarrow> goerr option \<times> nat \<times> 'g" where
  "composite_Restore parts c =
     (case restore_parts (rev (take (fst c) parts)) None (snd c) of
        (first, g) \<Rightarrow> (first, if first = None then 0 else fst c, g))"

definition composite_Current :: "'g GuardOps list \<Rightarrow> nat \<times> 'g \<Rightarrow> Settings" where
  "composite_Current parts c = (case parts of [] \<Rightarrow> zero_Settings | p # _ \<Rightarrow> gu_Current p (snd c))"

definition composite_Name :: "'g GuardOps list \<Rightarrow> string" where
  "composite_Name parts = Join (map gu_Name parts) ''+''"

text \<open>A guard that keeps no count of its own, as a part of the composite's state.\<close>

definition alone :: "'g GuardOps \<Rightarrow> (nat \<times> 'g) GuardOps" where
  "alone p =
     \<lparr>gu_Apply = (\<lambda>s c. case gu_Apply p s (snd c) of (e, g) \<Rightarrow> (e, fst c, g)),
      gu_Restore = (\<lambda>c. case gu_Restore p (snd c) of (e, g) \<Rightarrow> (e, fst c, g)),
      gu_Current = (\<lambda>c. gu_Current p (snd c)), gu_Name = gu_Name p\<rparr>"

definition NewCompositeGuard :: "'g GuardOps option list \<Rightarrow> (nat \<times> 'g) GuardOps" where
  "NewCompositeGuard parts =
     (case List.map_filter id parts of
        [] \<Rightarrow> NoopGuard
      | [p] \<Rightarrow> alone p
      | kept \<Rightarrow>
          \<lparr>gu_Apply = composite_Apply kept, gu_Restore = composite_Restore kept,
           gu_Current = composite_Current kept, gu_Name = composite_Name kept\<rparr>)"

section \<open>What a session relies on\<close>

text \<open>
  A guard has states in which it changed nothing; a restore that reports success leads to one.
\<close>

locale restoring_guard =
  fixes G :: "'g GuardOps"
    and inv :: "'g \<Rightarrow> bool"
    and clean :: "'g \<Rightarrow> bool"
  assumes apply_inv: "inv g \<Longrightarrow> inv (snd (gu_Apply G s g))"
    and restore_inv: "inv g \<Longrightarrow> inv (snd (gu_Restore G g))"
    and restore_clean: "inv g \<Longrightarrow> gu_Restore G g = (None, g') \<Longrightarrow> clean g'"
begin

lemma restore_again:
  assumes "inv g" "gu_Restore G g = (None, g')" "gu_Restore G g' = (None, g'')"
  shows "clean g''"
  using restore_clean [OF _ assms(3)] restore_inv [OF assms(1)] assms(2) by simp

end

interpretation noop_guard: restoring_guard NoopGuard "\<lambda>g. True" "\<lambda>g. True"
  by unfold_locales auto

text \<open>
  The composite restores every part it counts as active, last part first, and stops at none.
\<close>

lemma restore_parts_state: "snd (restore_parts ps first g) = fold (\<lambda>p g. snd (gu_Restore p g)) ps g"
  by (induction ps first g rule: restore_parts.induct) (auto split: prod.splits)

lemma composite_Restore_all:
  "snd (snd (composite_Restore parts (n, g))) = fold (\<lambda>p g. snd (gu_Restore p g)) (rev (take n parts)) g"
  using restore_parts_state [of "rev (take n parts)" None g] by (auto simp: composite_Restore_def split: prod.splits)

lemma composite_loop_done:
  assumes "composite_loop parts s todo applied (active, g) = (None, n, g')" "parts = pre @ todo" "length pre = applied"
  shows "n = length parts"
  using assms
proof (induction todo arbitrary: pre applied active g)
  case (Cons p ps)
  then show ?case
    using Cons.IH [of "Suc applied" "Suc applied" _ "pre @ [p]"]
    by (auto split: prod.splits option.splits simp: err_join_def)
qed simp

lemma composite_Apply_done: "composite_Apply parts s c = (None, n, g') \<Longrightarrow> n = length parts"
  using composite_loop_done [of parts s parts 0 "fst c" "snd c" n g' "[]"] by (simp add: composite_Apply_def)

end
