(* ===== verification/SessionRunner.thy ===== *)
theory SessionRunner
  imports EventStreams Redaction SessionGuard PlanValidate "HOL-Library.Monad_Syntax"
begin

text \<open>
  A session, \<open>session/runner.go\<close> and \<open>session/network.go\<close>.  An operation takes the session, the
  state \<open>'g\<close> of the guard and the state \<open>'w\<close> of everything else (the engine, the clock, the
  network), and returns them; a panic is \<open>None\<close>.  Engines are records of operations over \<open>'w\<close>, so
  an engine can change anything but the guard and the session.  The session's locks make each
  operation one step, except where the source releases the lock in the middle of a change, which is
  modelled on its own below.  The wording of validation errors is an argument.
\<close>

section \<open>Engines and the system\<close>

record Connection =
  cn_ID :: string
  cn_Network :: string
  cn_Host :: string
  cn_Port :: "16 word"
  cn_Process :: string
  cn_Rule :: string
  cn_Chain :: "string list"
  cn_Upload :: "64 word"
  cn_Download :: "64 word"
  cn_Start :: Time

record 'w ConnectionTracker =
  tk_Connections :: "'w \<Rightarrow> (goerr + Connection list) \<times> 'w"
  tk_CloseConnection :: "string \<Rightarrow> 'w \<Rightarrow> goerr option \<times> 'w"
  tk_CloseConnections :: "'w \<Rightarrow> goerr option \<times> 'w"

record 'w Engine =
  en_State :: "'w \<Rightarrow> string"
  en_Validate :: "Plan \<Rightarrow> 'w \<Rightarrow> goerr option \<times> 'w"
  en_Apply :: "Plan \<Rightarrow> 'w \<Rightarrow> goerr option \<times> 'w"
  en_Stop :: "'w \<Rightarrow> goerr option \<times> 'w"
  en_Close :: "'w \<Rightarrow> goerr option \<times> 'w"
  en_Groups :: "'w \<Rightarrow> (goerr + GroupStatus list) \<times> 'w"
  en_Select :: "string \<Rightarrow> string \<Rightarrow> 'w \<Rightarrow> goerr option \<times> 'w"
  en_Counters :: "'w \<Rightarrow> (goerr + Counters) \<times> 'w"
  en_Subscribe :: "'w \<Rightarrow> nat \<times> 'w"
  en_Unsubscribe :: "nat \<Rightarrow> 'w \<Rightarrow> 'w"
  en_Tracker :: "'w ConnectionTracker option"

abbreviation EngineRunning :: string where "EngineRunning \<equiv> ''running''"
abbreviation EngineStopped :: string where "EngineStopped \<equiv> ''stopped''"

text \<open>What the session asks of the system: the clocks, the adapter, and the wording of errors.\<close>

record 'w System =
  sy_Now :: "'w \<Rightarrow> Time"
  sy_Mono :: "'w \<Rightarrow> Time"
  sy_interfaceUp :: "string \<Rightarrow> 'w \<Rightarrow> goerr option \<times> 'w"
  sy_plan_text :: "verr list \<Rightarrow> string"

section \<open>Configuration and construction\<close>

definition DefaultStatsInterval :: Duration where "DefaultStatsInterval = Second"
definition DefaultStopGrace :: Duration where "DefaultStopGrace = 3 * Second"
definition groupLooks :: int where "groupLooks = 5"
definition DefaultNetworkInterval :: Duration where "DefaultNetworkInterval = 2 * Second"

record ('g, 'w) Config =
  cf_Plan :: "Plan option"
  cf_Engine :: "'w Engine option"
  cf_Guard :: "'g GuardOps option"
  cf_Journal :: "Journal option"
  cf_JournalCapacity :: int
  cf_StatsInterval :: Duration
  cf_StopGrace :: Duration
  cf_Network :: "('w \<Rightarrow> string \<times> 'w) option"
  cf_NetworkInterval :: Duration
  cf_Settings :: Settings
  cf_Redactor :: "Redactor option"
  cf_Now :: "('w \<Rightarrow> Time) option"
  cf_TunUp :: "(string \<Rightarrow> 'w \<Rightarrow> goerr option \<times> 'w) option"

text \<open>
  The fields of a session, with the defaults of its configuration filled in.  \<open>se_cancel\<close> is the
  session's own context: none before \<open>Start\<close>, then whether it was cancelled.
\<close>

record ('g, 'w) Session =
  se_plan :: Plan
  se_eng :: "'w Engine"
  se_guard :: "'g GuardOps"
  se_log :: Journal
  se_StatsInterval :: Duration
  se_StopGrace :: Duration
  se_Network :: "('w \<Rightarrow> string \<times> 'w) option"
  se_NetworkInterval :: Duration
  se_Redactor :: "Redactor option"
  se_Now :: "'w \<Rightarrow> Time"
  se_TunUp :: "string \<Rightarrow> 'w \<Rightarrow> goerr option \<times> 'w"
  se_state :: State
  se_status :: Status
  se_stopping :: bool
  se_guardApplied :: bool
  se_engineSub :: "nat option"
  se_cancel :: "bool option"
  se_done :: bool

type_synonym ('g, 'w) sess = "('g, 'w) Session \<times> 'g \<times> 'w"

definition session_New :: "'w System \<Rightarrow> ('g, 'w) Config \<Rightarrow> 'w \<Rightarrow> goerr + ('g, 'w) Session" where
  "session_New E cfg w =
     (case cf_Plan cfg of
        None \<Rightarrow> Inl (Newf CodeInvalidArgument KeyPlanEmpty ''session: no plan'')
      | Some plan \<Rightarrow>
          (case cf_Engine cfg of
             None \<Rightarrow> Inl (Newf CodeInvalidArgument KeyEngineStartFailed ''session: no engine'')
           | Some eng \<Rightarrow>
               let now = (case cf_Now cfg of None \<Rightarrow> sy_Now E | Some f \<Rightarrow> f) in
               if Plan_Validate (Some plan) \<noteq> [] then
                 Inl (Wrap (TextE (sy_plan_text E (Plan_Validate (Some plan)))) CodeInvalidArgument KeyPlanOutbounds)
               else
                 Inr \<lparr>se_plan = plan, se_eng = eng,
                      se_guard = (case cf_Guard cfg of None \<Rightarrow> NoopGuard | Some g \<Rightarrow> g),
                      se_log = (case cf_Journal cfg of None \<Rightarrow> NewJournal (cf_JournalCapacity cfg) | Some j \<Rightarrow> j),
                      se_StatsInterval = (if cf_StatsInterval cfg \<le> 0 then DefaultStatsInterval else cf_StatsInterval cfg),
                      se_StopGrace = (if cf_StopGrace cfg \<le> 0 then DefaultStopGrace else cf_StopGrace cfg),
                      se_Network = cf_Network cfg,
                      se_NetworkInterval = (if cf_NetworkInterval cfg \<le> 0 then DefaultNetworkInterval else cf_NetworkInterval cfg),
                      se_Redactor = cf_Redactor cfg, se_Now = now,
                      se_TunUp = (case cf_TunUp cfg of None \<Rightarrow> sy_interfaceUp E | Some f \<Rightarrow> f),
                      se_state = StateDisconnected,
                      se_status = zero_Status\<lparr>st_ChangedAt := now w, st_KillSwitch := ss_KillSwitch (cf_Settings cfg),
                                              st_Bypass := ss_Bypass (cf_Settings cfg), st_TunnelMode := ss_TunnelMode (cf_Settings cfg)\<rparr>,
                      se_stopping = False, se_guardApplied = False, se_engineSub = None, se_cancel = None, se_done = False\<rparr>))"

section \<open>Recording\<close>

definition s_mask :: "('g, 'w) Session \<Rightarrow> string \<Rightarrow> string" where
  "s_mask s text = (case se_Redactor s of None \<Rightarrow> text | Some r \<Rightarrow> Redactor_String r text)"

definition log_append :: "'w System \<Rightarrow> Event \<Rightarrow> ('g, 'w) sess \<Rightarrow> ('g, 'w) sess option" where
  "log_append E ev st =
     (let (s, g, w) = st in map_option (\<lambda>j. (s\<lparr>se_log := j\<rparr>, g, w)) (Append (sy_Now E w) ev (se_log s)))"

definition setStateLocked :: "'w System \<Rightarrow> State \<Rightarrow> Code \<Rightarrow> Key \<Rightarrow> string \<Rightarrow> ('g, 'w) sess \<Rightarrow> (bool \<times> ('g, 'w) sess) option" where
  "setStateLocked E nxt reason key detail st =
     (let (s, g, w) = st in
      if \<not> canTransition (se_state s) nxt then Some (False, st)
      else
        let masked = s_mask s detail;
            s1 = s\<lparr>se_state := nxt,
                   se_status := zero_Status\<lparr>st_State := nxt, st_SessionID := st_SessionID (se_status s), st_Reason := reason, st_Key := key,
                     st_Detail := masked, st_ChangedAt := se_Now s w, st_KillSwitch := st_KillSwitch (se_status s),
                     st_Bypass := st_Bypass (se_status s), st_TunnelMode := st_TunnelMode (se_status s)\<rparr>\<rparr>
        in map_option (Pair True)
             (log_append E ((new_Event EventState)\<lparr>ev_State := nxt, ev_Reason := reason, ev_Key := key, ev_Detail := masked\<rparr>) (s1, g, w)))"

definition setState :: "'w System \<Rightarrow> State \<Rightarrow> Code \<Rightarrow> Key \<Rightarrow> string \<Rightarrow> ('g, 'w) sess \<Rightarrow> ('g, 'w) sess option" where
  "setState E nxt reason key detail st = map_option snd (setStateLocked E nxt reason key detail st)"

text \<open>
  \<open>setStateReconnecting\<close> changes the state under the lock and appends the event after releasing it.
\<close>

definition reconnecting_locked :: "'w System \<Rightarrow> Code \<Rightarrow> Key \<Rightarrow> Duration \<Rightarrow> ('g, 'w) sess \<Rightarrow> Event option \<times> ('g, 'w) sess" where
  "reconnecting_locked E reason key delay st =
     (let (s, g, w) = st in
      if \<not> canTransition (se_state s) StateReconnecting then (None, st)
      else (Some ((new_Event EventState)\<lparr>ev_State := StateReconnecting, ev_Reason := reason, ev_Key := key, ev_RetryAfter := delay\<rparr>),
            s\<lparr>se_state := StateReconnecting,
              se_status := (se_status s)\<lparr>st_State := StateReconnecting, st_Reason := reason, st_Key := key,
                st_ChangedAt := se_Now s w, st_RetryAfter := delay\<rparr>\<rparr>, g, w))"

definition setStateReconnecting :: "'w System \<Rightarrow> Code \<Rightarrow> Key \<Rightarrow> Duration \<Rightarrow> ('g, 'w) sess \<Rightarrow> ('g, 'w) sess option" where
  "setStateReconnecting E reason key delay st =
     (case reconnecting_locked E reason key delay st of
        (None, st') \<Rightarrow> Some st'
      | (Some ev, st') \<Rightarrow> log_append E ev st')"

definition error_event :: "('g, 'w) Session \<Rightarrow> goerr \<Rightarrow> Event" where
  "error_event s e =
     (new_Event EventError)\<lparr>ev_Reason := CodeOf (Some e), ev_Key := KeyOf (Some e), ev_Detail := s_mask s (Detail (Some e))\<rparr>"

definition s_fail :: "'w System \<Rightarrow> goerr \<Rightarrow> ('g, 'w) sess \<Rightarrow> ('g, 'w) sess option" where
  "s_fail E e st =
     do {
       st1 \<leftarrow> setState E StateFailed (CodeOf (Some e)) (KeyOf (Some e)) (s_mask (fst st) (Detail (Some e))) st;
       log_append E (error_event (fst st1) e) st1
     }"

definition settingsLocked :: "('g, 'w) Session \<Rightarrow> Settings option" where
  "settingsLocked s =
     map_option
       (\<lambda>nets. \<lparr>ss_TunNetworks = nets, ss_FakeIPRange = ParsePrefix (d_FakeIPRange (p_DNS (se_plan s))),
                ss_KillSwitch = st_KillSwitch (se_status s), ss_Bypass = st_Bypass (se_status s),
                ss_TunnelMode = st_TunnelMode (se_status s)\<rparr>)
       (Networks (p_Tun (se_plan s)))"

section \<open>Starting and stopping\<close>

text \<open>Only settings this session applied are restored, and ownership is kept when that fails.\<close>

definition restoreGuard :: "('g, 'w) sess \<Rightarrow> goerr option \<times> ('g, 'w) sess" where
  "restoreGuard st =
     (let (s, g, w) = st in
      if \<not> se_guardApplied s then (None, st)
      else case gu_Restore (se_guard s) g of
             (Some e, g') \<Rightarrow> (Some e, s, g', w)
           | (None, g') \<Rightarrow> (None, s\<lparr>se_guardApplied := False\<rparr>, g', w))"

definition start_failed :: "'w System \<Rightarrow> goerr \<Rightarrow> ('g, 'w) sess \<Rightarrow> (goerr option \<times> ('g, 'w) sess) option" where
  "start_failed E e st =
     (let (restoreErr, st1) = restoreGuard st in
      do {
        st2 \<leftarrow> (case restoreErr of
                  None \<Rightarrow> Some st1
                | Some r \<Rightarrow>
                    log_append E ((new_Event EventError)\<lparr>ev_Reason := CodeOf (Some r), ev_Key := KeyGuardRestoreFailed,
                                                       ev_Detail := s_mask (fst st1) (err_text r)\<rparr>) st1);
        st3 \<leftarrow> s_fail E e st2;
        Some (Some e, st3)
      })"

text \<open>Bring the engine up and wait for its adapter; an engine without its adapter is stopped again.\<close>

definition start_engine :: "('g, 'w) sess \<Rightarrow> goerr option \<times> ('g, 'w) sess" where
  "start_engine st =
     (let (s, g, w) = st; tun = p_Tun (se_plan s) in
      case en_Apply (se_eng s) (se_plan s) w of
        (Some e, w1) \<Rightarrow> (Some (Wrap e CodeUnavailable KeyEngineStartFailed), s, g, w1)
      | (None, w1) \<Rightarrow>
          if t_Enabled tun \<and> t_DeviceName tun \<noteq> [] then
            (case se_TunUp s (t_DeviceName tun) w1 of
               (Some e, w2) \<Rightarrow> (Some e, s, g, snd (en_Stop (se_eng s) w2))
             | (None, w2) \<Rightarrow> (None, s, g, w2))
          else (None, s, g, w1))"

definition start_guarded :: "'w System \<Rightarrow> ('g, 'w) sess \<Rightarrow> (goerr option \<times> ('g, 'w) sess) option" where
  "start_guarded E st =
     (let (s, g, w) = st; s1 = s\<lparr>se_guardApplied := True\<rparr> in
      do {
        settings \<leftarrow> settingsLocked s1;
        (case gu_Apply (se_guard s1) settings g of
           (Some e, g1) \<Rightarrow>
             (let wrapped = Wrap e CodeFailedPrecondition KeyGuardFirewallFail in
              map_option (\<lambda>st'. (Some wrapped, st')) (s_fail E wrapped (s1, g1, w)))
         | (None, g1) \<Rightarrow>
             (case start_engine (s1, g1, w) of
                (Some e, st2) \<Rightarrow> start_failed E e st2
              | (None, st2) \<Rightarrow>
                  do {
                    (s3, g3, w3) \<leftarrow> setState E StateConnected [] [] [] st2;
                    let (sub, w4) = en_Subscribe (se_eng s3) w3;
                    Some (None, s3\<lparr>se_engineSub := Some sub\<rparr>, g3, w4)
                  }))
      })"

definition Start :: "'w System \<Rightarrow> ('g, 'w) sess \<Rightarrow> (goerr option \<times> ('g, 'w) sess) option" where
  "Start E st =
     (let (s, g, w) = st in
      if se_state s \<noteq> StateDisconnected then
        Some (Some (Newf CodeFailedPrecondition KeySessionBusy (''session: already '' @ State_String (se_state s))), st)
      else
        do {
          (s1, g1, w1) \<leftarrow> setState E StateConnecting [] [] []
                            (s\<lparr>se_cancel := Some False, se_status := (se_status s)\<lparr>st_SessionID := p_SessionID (se_plan s)\<rparr>\<rparr>, g, w);
          (case en_Validate (se_eng s1) (se_plan s1) w1 of
             (Some e, w2) \<Rightarrow>
               (let wrapped = Wrap e CodeInvalidArgument KeyPlanOutbounds in
                map_option (\<lambda>st'. (Some wrapped, st')) (s_fail E wrapped (s1, g1, w2)))
           | (None, w2) \<Rightarrow> start_guarded E (s1, g1, w2))
        })"

definition restore_wrap :: "goerr \<Rightarrow> goerr" where
  "restore_wrap e = Wrap e CodeInternal KeyGuardRestoreFailed"

text \<open>A repeated \<open>Stop\<close> only retries what is left to clean up.\<close>

definition stop_again :: "('g, 'w) sess \<Rightarrow> goerr option \<times> ('g, 'w) sess" where
  "stop_again st =
     (let (s, g, w) = st;
          (err, w1) = (if en_State (se_eng s) w \<noteq> EngineStopped then en_Stop (se_eng s) w else (None, w))
      in case err of
           Some e \<Rightarrow> (Some (restore_wrap e), s, g, w1)
         | None \<Rightarrow>
             (case restoreGuard (s, g, w1) of
                (Some e, st2) \<Rightarrow> (Some (restore_wrap e), st2)
              | (None, st2) \<Rightarrow> (None, st2)))"

definition stop_first :: "'w System \<Rightarrow> ('g, 'w) sess \<Rightarrow> (goerr option \<times> ('g, 'w) sess) option" where
  "stop_first E st =
     (let (s, g, w) = st;
          s1 = s\<lparr>se_stopping := True, se_cancel := map_option (\<lambda>_. True) (se_cancel s)\<rparr>;
          (engErr, w1) = en_Stop (se_eng s1) w;
          (guardErr, st2) = restoreGuard (s1, g, w1);
          stopErr = (if guardErr \<noteq> None \<and> engErr = None then map_option restore_wrap guardErr else engErr)
      in do {
           (s3, g3, w3) \<leftarrow> setState E StateDisconnected [] [] [] st2;
           let w4 = (case se_engineSub s3 of Some sub \<Rightarrow> en_Unsubscribe (se_eng s3) sub w3 | None \<Rightarrow> w3);
           let w5 = snd (en_Close (se_eng s3) w4);
           Some (map_option restore_wrap stopErr, s3\<lparr>se_engineSub := None\<rparr>, g3, w5)
         })"

definition Stop :: "'w System \<Rightarrow> ('g, 'w) sess \<Rightarrow> (goerr option \<times> ('g, 'w) sess) option" where
  "Stop E st = (if se_stopping (fst st) then Some (stop_again st) else stop_first E st)"

definition SetKillSwitch :: "bool \<Rightarrow> ('g, 'w) sess \<Rightarrow> (goerr option \<times> ('g, 'w) sess) option" where
  "SetKillSwitch enabled st =
     (let (s, g, w) = st in
      if se_stopping s \<or> (enabled \<and> terminal (se_state s)) \<or> (\<not> enabled \<and> se_state s = StateDisconnected) then
        Some (Some (Newf CodeFailedPrecondition KeySessionRequired
                (''session: cannot change the kill switch while '' @ State_String (se_state s))), st)
      else
        do {
          settings \<leftarrow> settingsLocked s;
          (case gu_Apply (se_guard s) (settings\<lparr>ss_KillSwitch := enabled\<rparr>) g of
             (Some e, g1) \<Rightarrow> Some (Some (Wrap e CodeInternal KeyGuardFirewallFail), s, g1, w)
           | (None, g1) \<Rightarrow>
               Some (None, s\<lparr>se_guardApplied := True, se_status := (se_status s)\<lparr>st_KillSwitch := enabled\<rparr>\<rparr>, g1, w))
        })"

section \<open>Reading the engine\<close>

definition s_Counters :: "('g, 'w) sess \<Rightarrow> (goerr + Counters) \<times> ('g, 'w) sess" where
  "s_Counters st =
     (let (s, g, w) = st; (r, w1) = en_Counters (se_eng s) w in
      (map_sum id (\<lambda>raw. raw\<lparr>co_MemoryBytes := 0\<rparr>) r, s, g, w1))"

definition s_Connections :: "('g, 'w) sess \<Rightarrow> (goerr + Connection list) \<times> ('g, 'w) sess" where
  "s_Connections st =
     (let (s, g, w) = st in
      case en_Tracker (se_eng s) of
        None \<Rightarrow> (Inl (Newf CodeUnsupported KeyConnectionsUnavailable ''session: the engine cannot list connections''), st)
      | Some tracker \<Rightarrow> (let (r, w1) = tk_Connections tracker w in (r, s, g, w1)))"

definition s_CloseConnection :: "string \<Rightarrow> ('g, 'w) sess \<Rightarrow> goerr option \<times> ('g, 'w) sess" where
  "s_CloseConnection i st =
     (let (s, g, w) = st in
      case en_Tracker (se_eng s) of
        None \<Rightarrow> (Some (Newf CodeUnsupported KeyConnectionsUnavailable ''session: the engine cannot close connections''), st)
      | Some tracker \<Rightarrow> (let (r, w1) = tk_CloseConnection tracker i w in (r, s, g, w1)))"

definition Select :: "'w System \<Rightarrow> string \<Rightarrow> string \<Rightarrow> ('g, 'w) sess \<Rightarrow> (goerr option \<times> ('g, 'w) sess) option" where
  "Select E grp target st =
     (let (s, g, w) = st in
      case en_Select (se_eng s) grp target w of
        (Some e, w1) \<Rightarrow> Some (Some e, s, g, w1)
      | (None, w1) \<Rightarrow>
          map_option (Pair None)
            (log_append E ((new_Event EventState)\<lparr>ev_State := se_state s, ev_Key := KeySelectionChanged,
                                                 ev_Detail := grp @ '' -> '' @ target\<rparr>) (s, g, w1)))"

section \<open>Watching the network\<close>

text \<open>An interface as the standard library reports it; an address that is no IP network is \<open>None\<close>.\<close>

record iface =
  if_Name :: string
  if_Up :: bool
  if_Loopback :: bool
  if_Addrs :: "addr option list option"

definition iface_parts :: "iface \<Rightarrow> string list" where
  "iface_parts i =
     (if \<not> if_Up i \<or> if_Loopback i \<or> if_Name i = TunDevice then []
      else case if_Addrs i of
             None \<Rightarrow> []
           | Some addrs \<Rightarrow>
               concat (map
                 (\<lambda>a. case a of
                        None \<Rightarrow> []
                      | Some x \<Rightarrow>
                          (let ip = Unmap x in
                           if Is4 ip then [if_Name i @ '' '' @ addr_String ip]
                           else if IsGlobalUnicast ip then
                             (case addr_Prefix ip 64 of
                                Some p \<Rightarrow> [if_Name i @ '' '' @ prefix_String p]
                              | None \<Rightarrow> [if_Name i @ '' invalid Prefix''])
                           else [])) addrs))"

definition NetworkFingerprint :: "iface list option \<Rightarrow> string" where
  "NetworkFingerprint interfaces =
     (case interfaces of
        None \<Rightarrow> []
      | Some is \<Rightarrow> Join (remdups_adj (sort (concat (map iface_parts is)))) '','')"

record networkWatch =
  nw_last :: string
  nw_lastWall :: Time
  nw_lastMono :: Time

definition sleepGap :: Duration where "sleepGap = 30 * Second"

definition newNetworkWatch :: "'w System \<Rightarrow> ('w \<Rightarrow> string \<times> 'w) \<Rightarrow> 'w \<Rightarrow> networkWatch \<times> 'w" where
  "newNetworkWatch E probe w =
     (case probe w of (l, w1) \<Rightarrow> (\<lparr>nw_last = l, nw_lastWall = sy_Now E w, nw_lastMono = sy_Mono E w\<rparr>, w1))"

definition changed :: "'w System \<Rightarrow> ('w \<Rightarrow> string \<times> 'w) \<Rightarrow> networkWatch \<Rightarrow> 'w \<Rightarrow> string \<times> networkWatch \<times> 'w" where
  "changed E probe nw w =
     (let wall = sy_Now E w; mono = sy_Mono E w;
          slept = ((wall - nw_lastWall nw) - (mono - nw_lastMono nw) > sleepGap);
          (current, w1) = probe w;
          moved = (current \<noteq> nw_last nw \<and> current \<noteq> [])
      in (if slept then ''the machine woke from sleep'' else if moved then ''the network changed'' else [],
          \<lparr>nw_last = current, nw_lastWall = wall, nw_lastMono = mono\<rparr>, w1))"

definition renewConnections :: "'w System \<Rightarrow> string \<Rightarrow> ('g, 'w) sess \<Rightarrow> ('g, 'w) sess option" where
  "renewConnections E why st =
     (if se_state (fst st) \<noteq> StateConnected then Some st
      else
        do {
          (s, g, w) \<leftarrow> log_append E ((new_Event EventLog)\<lparr>ev_Detail := why @ ''; connections reopen''\<rparr>) st;
          (let (closed, w1) = (case en_Tracker (se_eng s) of
                                 None \<Rightarrow> (False, w)
                               | Some tracker \<Rightarrow> (case tk_CloseConnections tracker w of (err, w') \<Rightarrow> (err = None, w')))
           in if closed then Some (s, g, w1)
              else case en_Apply (se_eng s) (se_plan s) w1 of
                     (None, w2) \<Rightarrow> Some (s, g, w2)
                   | (Some e, w2) \<Rightarrow>
                       log_append E ((new_Event EventError)\<lparr>ev_Reason := CodeUnavailable, ev_Key := KeyEngineStartFailed,
                                                           ev_Detail := s_mask s (err_text e)\<rparr>) (s, g, w2))
        })"

section \<open>Supervision\<close>

definition probeOutcomeOf :: "GroupStatus option \<Rightarrow> ProbeOutcome option" where
  "probeOutcomeOf grp =
     map_option
       (\<lambda>gs. case find (\<lambda>(name, latency). name = gs_Selected gs \<or> gs_Selected gs = []) (gs_LatencyMS gs) of
               None \<Rightarrow> \<lparr>pr_ServerID = gs_Name gs, pr_Reachable = False, pr_LatencyMS = 0\<rparr>
             | Some (name, latency) \<Rightarrow> \<lparr>pr_ServerID = name, pr_Reachable = latency > 0, pr_LatencyMS = latency\<rparr>) grp"

definition engine_event :: "('g, 'w) Session \<Rightarrow> EngineEvent \<Rightarrow> Event" where
  "engine_event s ev =
     (let out = (new_Event EventLog)\<lparr>ev_Detail := s_mask s (ee_Message ev)\<rparr>;
          out1 = (case ee_Kind ev of
                    EngState \<Rightarrow> out\<lparr>ev_Detail := s_mask s (TrimSpace (ee_State ev @ '' '' @ ee_Message ev))\<rparr>
                  | EngCounters \<Rightarrow> out\<lparr>ev_Kind := EventCounters, ev_Counters := (ee_Counters ev)\<lparr>co_MemoryBytes := 0\<rparr>\<rparr>
                  | EngGroup \<Rightarrow>
                      (case ee_Group ev of
                         None \<Rightarrow> out\<lparr>ev_Kind := EventProbe\<rparr>
                       | Some gs \<Rightarrow> out\<lparr>ev_Kind := EventProbe, ev_Probe := probeOutcomeOf (Some gs), ev_Detail := gs_Name gs\<rparr>)
                  | EngRestart \<Rightarrow>
                      (case ee_Group ev of
                         None \<Rightarrow> out\<lparr>ev_Kind := EventProbe\<rparr>
                       | Some gs \<Rightarrow> out\<lparr>ev_Kind := EventProbe, ev_Probe := probeOutcomeOf (Some gs), ev_Detail := gs_Name gs\<rparr>)
                  | EngLog \<Rightarrow> out
                  | _ \<Rightarrow>
                      out\<lparr>ev_Kind := EventError,
                          ev_Reason := (if ee_Err ev = None then CodeUnavailable else CodeOf (ee_Err ev)),
                          ev_Key := (if ee_Err ev = None then KeyEngineStopped else KeyOf (ee_Err ev))\<rparr>)
      in if ev_Kind out1 = EventLog then out1\<lparr>ev_LogLine := ev_Detail out1, ev_Detail := []\<rparr> else out1)"

definition publishEngineEvent :: "'w System \<Rightarrow> EngineEvent \<Rightarrow> ('g, 'w) sess \<Rightarrow> ('g, 'w) sess option" where
  "publishEngineEvent E ev st = log_append E (engine_event (fst st) ev) st"

definition publishCounters :: "'w System \<Rightarrow> ('g, 'w) sess \<Rightarrow> ('g, 'w) sess option" where
  "publishCounters E st =
     (case s_Counters st of
        (Inl e, st1) \<Rightarrow> Some st1
      | (Inr counters, st1) \<Rightarrow> log_append E ((new_Event EventCounters)\<lparr>ev_Counters := counters\<rparr>) st1)"

fun notice_groups :: "'w System \<Rightarrow> GroupStatus list \<Rightarrow> string go_map \<Rightarrow> ('g, 'w) sess \<Rightarrow> (string go_map \<times> ('g, 'w) sess) option" where
  "notice_groups E [] seen st = Some (seen, st)"
| "notice_groups E (gs # rest) seen st =
     (case map_of seen (gs_Name gs) of
        None \<Rightarrow> notice_groups E rest seen st
      | Some prev \<Rightarrow>
          if gs_Selected gs = [] \<or> gs_Selected gs = prev \<or>
             (case map_of (gs_LatencyMS gs) (gs_Selected gs) of None \<Rightarrow> 0 | Some l \<Rightarrow> l) \<le> 0 then
            notice_groups E rest seen st
          else
            do {
              st1 \<leftarrow> (if prev \<noteq> [] then
                        log_append E ((new_Event EventGroup)\<lparr>ev_Switch :=
                          Some \<lparr>sw_Group = gs_Name gs, sw_Previous = prev, sw_Selected = gs_Selected gs\<rparr>\<rparr>) st
                      else Some st);
              notice_groups E rest (AList.update (gs_Name gs) (gs_Selected gs) seen) st1
            })"

definition noticeFallbacks :: "'w System \<Rightarrow> string go_map \<Rightarrow> ('g, 'w) sess \<Rightarrow> (string go_map \<times> ('g, 'w) sess) option" where
  "noticeFallbacks E seen st =
     (let (s, g, w) = st in
      case en_Groups (se_eng s) w of
        (Inl e, w1) \<Rightarrow> Some (seen, s, g, w1)
      | (Inr grps, w1) \<Rightarrow> notice_groups E grps seen (s, g, w1))"

text \<open>
  The loop of \<open>supervise\<close>: its local variables, what the \<open>select\<close> can receive, and one turn.  A turn
  that ends the loop, which closes \<open>Done\<close>, returns no variables.  A plan without fallback groups
  has no ticker for them.
\<close>

record supervision =
  sv_watch :: "networkWatch option"
  sv_fallbacks :: "string go_map"

datatype arrival =
  Cancelled | StatsTick | FallbackLook | NetworkLook | BusClosed | Arrived EngineEvent

definition start_supervision :: "'w System \<Rightarrow> ('g, 'w) sess \<Rightarrow> supervision \<times> ('g, 'w) sess" where
  "start_supervision E st =
     (let (s, g, w) = st;
          (watch, w1) = (case se_Network s of
                           None \<Rightarrow> (None, w)
                         | Some probe \<Rightarrow> map_prod Some id (newNetworkWatch E probe w));
          fallbacks = fold (\<lambda>gr m. if g_Type gr = GroupFallback then AList.update (g_Name gr) [] m else m) (p_Groups (se_plan s)) []
      in (\<lparr>sv_watch = watch, sv_fallbacks = fallbacks\<rparr>, s, g, w1))"

definition session_done :: "('g, 'w) sess \<Rightarrow> ('g, 'w) sess" where
  "session_done st = ((fst st)\<lparr>se_done := True\<rparr>, snd st)"

definition react :: "'w System \<Rightarrow> EngineEvent \<Rightarrow> supervision \<Rightarrow> ('g, 'w) sess \<Rightarrow> (supervision option \<times> ('g, 'w) sess) option" where
  "react E ev sv st =
     (case ee_Kind ev of
        EngDown \<Rightarrow>
          map_option (Pair (Some sv))
            (setStateReconnecting E (if ee_Err ev = None then CodeUnavailable else CodeOf (ee_Err ev))
               (if ee_Err ev = None then KeyEngineStopped else KeyOf (ee_Err ev)) 0 st)
      | EngState \<Rightarrow>
          if ee_State ev = EngineRunning \<and> se_state (fst st) = StateReconnecting then
            map_option (Pair (Some (sv\<lparr>sv_fallbacks := map (\<lambda>(gr, _). (gr, [])) (sv_fallbacks sv)\<rparr>)))
              (setState E StateConnected [] [] [] st)
          else Some (Some sv, st)
      | EngFatal \<Rightarrow>
          map_option (\<lambda>st'. (None, session_done st'))
            (s_fail E (Newf CodeUnavailable KeyEngineStopped ''session: the engine reported a fatal error'') st)
      | _ \<Rightarrow> Some (Some sv, st))"

definition supervise_turn :: "'w System \<Rightarrow> arrival \<Rightarrow> supervision \<Rightarrow> ('g, 'w) sess \<Rightarrow> (supervision option \<times> ('g, 'w) sess) option" where
  "supervise_turn E a sv st =
     (case a of
        Cancelled \<Rightarrow> Some (None, session_done st)
      | BusClosed \<Rightarrow> Some (None, session_done st)
      | StatsTick \<Rightarrow> map_option (Pair (Some sv)) (publishCounters E st)
      | FallbackLook \<Rightarrow>
          if sv_fallbacks sv \<noteq> [] \<and> se_state (fst st) = StateConnected then
            map_option (\<lambda>(seen, st'). (Some (sv\<lparr>sv_fallbacks := seen\<rparr>), st')) (noticeFallbacks E (sv_fallbacks sv) st)
          else Some (Some sv, st)
      | NetworkLook \<Rightarrow>
          (case (sv_watch sv, se_Network (fst st)) of
             (Some nw, Some probe) \<Rightarrow>
               (let (s, g, w) = st; (why, nw1, w1) = changed E probe nw w in
                map_option (Pair (Some (sv\<lparr>sv_watch := Some nw1\<rparr>)))
                  (if why \<noteq> [] then renewConnections E why (s, g, w1) else Some (s, g, w1)))
           | _ \<Rightarrow> Some (Some sv, st))
      | Arrived ev \<Rightarrow> do { st1 \<leftarrow> publishEngineEvent E ev st; react E ev sv st1 })"

end
