(* ===== verification/KillSwitch.thy ===== *)
theory KillSwitch
  imports SessionGuard
begin

text \<open>
  The kill switch, package \<open>guard\<close>: the guard that arms and disarms a firewall (\<open>guard.go\<close>), the
  Linux firewall with its rule set (\<open>nftables.go\<close>, \<open>nftables_linux.go\<close>), and what the rules let
  out.  The \<open>nft\<close> program is a parameter: it gets a command name, arguments and its input, and
  returns its output and whether it succeeded.  The two optional setters of a firewall, which the
  guard looks for by interface assertion, are options.
\<close>

section \<open>Guard\<close>

record 'w Firewall =
  fw_Arm :: "16 word list \<Rightarrow> 'w \<Rightarrow> goerr option \<times> 'w"
  fw_Disarm :: "'w \<Rightarrow> goerr option \<times> 'w"
  fw_Armed :: "'w \<Rightarrow> bool \<times> goerr option"
  fw_SetTunNetworks :: "(prefix list \<Rightarrow> 'w \<Rightarrow> 'w) option"
  fw_SetBlockedNetworks :: "(prefix list \<Rightarrow> 'w \<Rightarrow> 'w) option"

definition NoopFirewall :: "'w Firewall" where
  "NoopFirewall =
     \<lparr>fw_Arm = (\<lambda>ports w. (None, w)), fw_Disarm = (\<lambda>w. (None, w)), fw_Armed = (\<lambda>w. (False, None)),
      fw_SetTunNetworks = None, fw_SetBlockedNetworks = None\<rparr>"

record Guard =
  gd_EnginePorts :: "16 word list"
  gd_applied :: Settings
  gd_restoring :: bool

definition guard_New :: "16 word list \<Rightarrow> 'w Firewall option \<Rightarrow> goerr + (Guard \<times> 'w Firewall)" where
  "guard_New ports firewall =
     (if ports = [] then Inl (Newf CodeInvalidArgument KeyGuardFirewallFail ''guard: no engine ports to keep open'')
      else Inr (\<lparr>gd_EnginePorts = ports, gd_applied = zero_Settings, gd_restoring = False\<rparr>,
                case firewall of None \<Rightarrow> NoopFirewall | Some f \<Rightarrow> f))"

text \<open>The networks handed to the firewall before it is armed.\<close>

definition set_networks :: "'w Firewall \<Rightarrow> Settings \<Rightarrow> 'w \<Rightarrow> 'w" where
  "set_networks fw s w =
     (let w1 = (case fw_SetTunNetworks fw of None \<Rightarrow> w | Some f \<Rightarrow> f (ss_TunNetworks s) w)
      in case fw_SetBlockedNetworks fw of
           None \<Rightarrow> w1
         | Some f \<Rightarrow>
             f (ss_TunNetworks s @ (case ss_FakeIPRange s of None \<Rightarrow> [] | Some r \<Rightarrow> [Masked r])) w1)"

definition guard_Apply :: "'w Firewall \<Rightarrow> Settings \<Rightarrow> Guard \<times> 'w \<Rightarrow> goerr option \<times> Guard \<times> 'w" where
  "guard_Apply fw s gw =
     (let (g, w) = gw in
      if gd_restoring g then
        (Some (Newf CodeFailedPrecondition KeyGuardFirewallFail ''guard: the guard is being restored''), g, w)
      else
        let w1 = set_networks fw s w;
            (err1, w2) = (if ss_KillSwitch s \<and> \<not> ss_KillSwitch (gd_applied g) then fw_Arm fw (gd_EnginePorts g) w1
                          else (None, w1))
        in case err1 of
             Some e \<Rightarrow> (Some (Wrap e CodeInternal KeyGuardFirewallFail), g, w2)
           | None \<Rightarrow>
               (let (err2, w3) = (if \<not> ss_KillSwitch s \<and> ss_KillSwitch (gd_applied g) then fw_Disarm fw w2 else (None, w2))
                in case err2 of
                     Some e \<Rightarrow> (Some (Wrap e CodeInternal KeyGuardFirewallFail), g, w3)
                   | None \<Rightarrow> (None, g\<lparr>gd_applied := s\<rparr>, w3)))"

definition guard_Restore :: "'w Firewall \<Rightarrow> Guard \<times> 'w \<Rightarrow> goerr option \<times> Guard \<times> 'w" where
  "guard_Restore fw gw =
     (let (g, w) = gw;
          g1 = g\<lparr>gd_restoring := True\<rparr>;
          (err, w1) = (if ss_KillSwitch (gd_applied g1) then fw_Disarm fw w else (None, w))
      in case err of
           Some e \<Rightarrow> (Some (Wrap e CodeInternal KeyGuardRestoreFailed), g1\<lparr>gd_restoring := False\<rparr>, w1)
         | None \<Rightarrow> (None, g1\<lparr>gd_applied := zero_Settings, gd_restoring := False\<rparr>, w1))"

definition guard_Current :: "Guard \<times> 'w \<Rightarrow> Settings" where
  "guard_Current gw = gd_applied (fst gw)"

definition guard_ops :: "'w Firewall \<Rightarrow> (Guard \<times> 'w) GuardOps" where
  "guard_ops fw =
     \<lparr>gu_Apply = guard_Apply fw, gu_Restore = guard_Restore fw, gu_Current = guard_Current, gu_Name = ''sora-guard''\<rparr>"

section \<open>The rule set\<close>

definition nftTable :: string where "nftTable = ''sora''"
definition nftChain :: string where "nftChain = ''output''"
definition legacyFakeIPNetwork :: string where "legacyFakeIPNetwork = ''172.19.0.0/16''"

definition DefaultBypassNetworks :: "string list" where
  "DefaultBypassNetworks =
     [''127.0.0.0/8'', ''10.0.0.0/8'', ''172.16.0.0/12'', ''192.168.0.0/16'', ''169.254.0.0/16'', ''fc00::/7'', ''fe80::/10'']"

abbreviation nl :: string where "nl \<equiv> [CHR 0x0A]"
abbreviation tab :: string where "tab \<equiv> [CHR 0x09]"
abbreviation dq :: string where "dq \<equiv> [CHR 0x22]"

text \<open>\<open>itoa\<close> fills a buffer of twenty bytes from its end.\<close>

fun itoa_loop :: "nat \<Rightarrow> string \<Rightarrow> string" where
  "itoa_loop v digits = (if v = 0 then digits else itoa_loop (v div 10) (digit_char (v mod 10) # digits))"

definition itoa :: "int \<Rightarrow> string" where
  "itoa value =
     (if value = 0 then ''0''
      else if value < 0 then CHR ''-'' # itoa_loop (nat (- value)) []
      else itoa_loop (nat value) [])"

definition blocked_line :: "prefix \<Rightarrow> string" where
  "blocked_line network =
     tab @ tab @ (if Is6 (pfx_addr network) then ''ip6'' else ''ip'') @ '' daddr '' @ prefix_String (Masked network) @
     '' counter drop comment '' @ dq @ ''sora: tunnel destination outside the tunnel'' @ dq @ nl"

definition bypass_family :: "string \<Rightarrow> string" where
  "bypass_family network =
     (if (case ParsePrefix network of Some p \<Rightarrow> Is6 (pfx_addr p) | None \<Rightarrow> False) then ''ip6''
      else if (case ParseAddr network of Some a \<Rightarrow> Is6 a | None \<Rightarrow> False) then ''ip6''
      else ''ip'')"

definition bypass_line :: "string \<Rightarrow> string" where
  "bypass_line network =
     tab @ tab @ bypass_family network @ '' daddr '' @ network @ '' accept comment '' @ dq @ ''sora: local network bypass'' @ dq @ nl"

definition legacy_network :: prefix where
  "legacy_network = Prefix (V4 0xAC130000) 16"

lemma legacy_network_parsed: "ParsePrefix legacyFakeIPNetwork = Some legacy_network"
  by code_simp

definition NftRuleset :: "int \<Rightarrow> string list \<Rightarrow> prefix list \<Rightarrow> string" where
  "NftRuleset engineUID bypass blocked =
     (let networks = (if bypass = [] then DefaultBypassNetworks else bypass) in
      ''table inet '' @ nftTable @ '' {'' @ nl @
      tab @ ''chain '' @ nftChain @ '' {'' @ nl @
      tab @ tab @ ''type filter hook output priority filter; policy accept;'' @ nl @
      tab @ tab @ ''oif lo accept comment '' @ dq @ ''sora: the local engine is on loopback'' @ dq @ nl @
      tab @ tab @ ''oifname '' @ dq @ TunDevice @ dq @ '' accept comment '' @ dq @ ''sora: through the tunnel'' @ dq @ nl @
      concat (map blocked_line (legacy_network # blocked)) @
      tab @ tab @ ''meta skuid '' @ itoa engineUID @ '' accept comment '' @ dq @ ''sora: the engine keeps its own traffic'' @ dq @ nl @
      tab @ tab @ ''meta l4proto { tcp, udp } th dport 53 counter drop comment '' @ dq @ ''sora: DNS outside the tunnel'' @ dq @ nl @
      tab @ tab @ ''ct direction reply ct state established,related accept comment '' @ dq @ ''sora: replies to incoming connections'' @ dq @ nl @
      concat (map bypass_line networks) @
      tab @ tab @ ''counter drop comment '' @ dq @ ''sora: kill switch'' @ dq @ nl @
      tab @ ''}'' @ nl @
      ''}'' @ nl)"

definition NftRemove :: string where
  "NftRemove = ''delete table inet '' @ nftTable @ nl"

definition FirstLine :: "string \<Rightarrow> string" where
  "FirstLine text =
     (case cut_first (\<lambda>c. c = CHR 0x0D \<or> c = CHR 0x0A) text of
        Some (line, _) \<Rightarrow> TrimSpace line
      | None \<Rightarrow> TrimSpace text)"

section \<open>The Linux firewall\<close>

record Nftables =
  nf_uid :: int
  nf_bypass :: "string list"
  nf_command :: string
  nf_armed :: bool
  nf_blocked :: "prefix list"

definition NewNftables :: "int \<Rightarrow> string list \<Rightarrow> goerr + Nftables" where
  "NewNftables uid bypass =
     (if uid < 0 then Inl (Newf CodeInvalidArgument KeyGuardFirewallFail ''guard: the engine has no user id'')
      else Inr \<lparr>nf_uid = uid, nf_bypass = (if bypass = [] then DefaultBypassNetworks else bypass), nf_command = ''nft'',
                nf_armed = False, nf_blocked = []\<rparr>)"

type_synonym 'k nft_program = "string \<Rightarrow> string list \<Rightarrow> string \<Rightarrow> 'k \<Rightarrow> (string \<times> bool) \<times> 'k"

definition SetBlockedNetworks :: "prefix list \<Rightarrow> Nftables \<times> 'k \<Rightarrow> Nftables \<times> 'k" where
  "SetBlockedNetworks networks nk = ((fst nk)\<lparr>nf_blocked := networks\<rparr>, snd nk)"

definition nft_apply :: "'k nft_program \<Rightarrow> string \<Rightarrow> Nftables \<times> 'k \<Rightarrow> goerr option \<times> Nftables \<times> 'k" where
  "nft_apply nft ruleset nk =
     (case nft (nf_command (fst nk)) [''-f'', ''-''] ruleset (snd nk) of
        ((output, ok), k) \<Rightarrow>
          ((if ok then None
            else Some (Newf CodePermissionDenied KeyGuardFirewallFail (''guard: nft refused the ruleset: '' @ FirstLine output))),
           fst nk, k))"

definition nft_Arm :: "'k nft_program \<Rightarrow> 16 word list \<Rightarrow> Nftables \<times> 'k \<Rightarrow> goerr option \<times> Nftables \<times> 'k" where
  "nft_Arm nft ports nk =
     (case nft_apply nft (NftRuleset (nf_uid (fst nk)) (nf_bypass (fst nk)) (nf_blocked (fst nk))) nk of
        (Some e, nk') \<Rightarrow> (Some e, nk')
      | (None, n, k) \<Rightarrow> (None, n\<lparr>nf_armed := True\<rparr>, k))"

definition nft_Disarm :: "'k nft_program \<Rightarrow> Nftables \<times> 'k \<Rightarrow> goerr option \<times> Nftables \<times> 'k" where
  "nft_Disarm nft nk =
     (case nft_apply nft NftRemove nk of
        (Some e, nk') \<Rightarrow> (Some e, nk')
      | (None, n, k) \<Rightarrow> (None, n\<lparr>nf_armed := False\<rparr>, k))"

definition nft_Armed :: "Nftables \<times> 'k \<Rightarrow> bool \<times> goerr option" where
  "nft_Armed nk = (nf_armed (fst nk), None)"

definition nft_firewall :: "'k nft_program \<Rightarrow> (Nftables \<times> 'k) Firewall" where
  "nft_firewall nft =
     \<lparr>fw_Arm = nft_Arm nft, fw_Disarm = nft_Disarm nft, fw_Armed = nft_Armed,
      fw_SetTunNetworks = None, fw_SetBlockedNetworks = Some SetBlockedNetworks\<rparr>"

definition PlatformFirewall :: "int \<Rightarrow> string list \<Rightarrow> goerr + Nftables" where
  "PlatformFirewall engineUID bypass = NewNftables engineUID bypass"


section \<open>Numbers\<close>

declare itoa_loop.simps [simp del]

lemma nat_digits_0: "nat_digits 0 = ''0''"
  by code_simp

lemma itoa_loop_0 [simp]: "itoa_loop 0 ds = ds"
  by (simp add: itoa_loop.simps)

lemma itoa_loop_digits: "0 < v \<Longrightarrow> itoa_loop v ds = nat_digits v @ ds"
proof (induction v ds rule: itoa_loop.induct)
  case (1 v ds)
  show ?case
  proof (cases "v < 10")
    case True
    then have "v div 10 = 0" "v mod 10 = v" by auto
    then show ?thesis using 1(2) True by (subst itoa_loop.simps, subst nat_digits.simps) simp
  next
    case False
    then have "0 < v div 10" by simp
    then show ?thesis using 1 False by (subst itoa_loop.simps, subst nat_digits.simps) simp
  qed
qed

text \<open>The hand-written \<open>itoa\<close> agrees with \<open>strconv.Itoa\<close>.\<close>

lemma itoa_Itoa: "itoa v = Itoa v"
  by (cases "v = 0") (simp_all add: itoa_def Itoa_def itoa_loop_digits nat_digits_0)

section \<open>The firewall contract\<close>

text \<open>
  What the guard relies on: an operation of the firewall that reports success changed what is in
  force as asked, one that reports an error changed nothing, and the setters never do.
\<close>

locale firewall =
  fixes fw :: "'w Firewall"
    and in_force :: "'w \<Rightarrow> bool"
  assumes arm_ok: "fw_Arm fw ports w = (None, w') \<Longrightarrow> in_force w'"
    and arm_error: "fw_Arm fw ports w = (Some e, w') \<Longrightarrow> in_force w' = in_force w"
    and disarm_ok: "fw_Disarm fw w = (None, w') \<Longrightarrow> \<not> in_force w'"
    and disarm_error: "fw_Disarm fw w = (Some e, w') \<Longrightarrow> in_force w' = in_force w"
    and set_tun: "fw_SetTunNetworks fw = Some f \<Longrightarrow> in_force (f ns w) = in_force w"
    and set_blocked: "fw_SetBlockedNetworks fw = Some f \<Longrightarrow> in_force (f ns w) = in_force w"
begin

text \<open>The guard's record of the kill switch is what the firewall has in force.\<close>

definition in_step :: "Guard \<times> 'w \<Rightarrow> bool" where
  "in_step gw \<longleftrightarrow> \<not> gd_restoring (fst gw) \<and> (ss_KillSwitch (gd_applied (fst gw)) \<longleftrightarrow> in_force (snd gw))"

lemma set_networks_force [simp]: "in_force (set_networks fw s w) = in_force w"
  by (auto simp: set_networks_def Let_def set_tun set_blocked split: option.splits)

lemma guard_Apply_in_step: "in_step gw \<Longrightarrow> in_step (snd (guard_Apply fw s gw))"
  by (cases gw)
    (auto simp: guard_Apply_def in_step_def Let_def arm_ok arm_error disarm_ok disarm_error
      split: prod.splits option.splits if_splits dest: arm_ok arm_error disarm_ok disarm_error)

lemma guard_Restore_in_step: "in_step gw \<Longrightarrow> in_step (snd (guard_Restore fw gw))"
  by (cases gw)
    (auto simp: guard_Restore_def in_step_def zero_Settings_def Let_def
      split: prod.splits option.splits if_splits dest: disarm_ok disarm_error)

lemma guard_Apply_ok: "guard_Apply fw s gw = (None, gw') \<Longrightarrow> gd_applied (fst gw') = s"
  by (cases gw) (auto simp: guard_Apply_def Let_def split: prod.splits option.splits if_splits)

lemma guard_Apply_error:
  "guard_Apply fw s gw = (Some e, gw') \<Longrightarrow> fst gw' = fst gw \<and> (in_force (snd gw') \<longleftrightarrow> in_force (snd gw))"
  by (cases gw)
    (auto simp: guard_Apply_def Let_def split: prod.splits option.splits if_splits dest: arm_error disarm_error)

lemma guard_Restore_clean:
  assumes "in_step gw" "guard_Restore fw gw = (None, gw')"
  shows "gd_applied (fst gw') = zero_Settings \<and> \<not> in_force (snd gw')"
  using assms
  by (cases gw)
    (auto simp: guard_Restore_def in_step_def zero_Settings_def Let_def
      split: prod.splits option.splits if_splits dest: disarm_ok disarm_error)

lemma guard_restoring:
  "restoring_guard (guard_ops fw) in_step (\<lambda>gw. gd_applied (fst gw) = zero_Settings \<and> \<not> in_force (snd gw))"
  by unfold_locales (simp_all add: guard_ops_def guard_Apply_in_step guard_Restore_in_step guard_Restore_clean)

end

interpretation nft: firewall "nft_firewall prog" "\<lambda>nk. nf_armed (fst nk)"
  for prog :: "'k nft_program"
  by unfold_locales
    (auto simp: nft_firewall_def nft_Arm_def nft_Disarm_def nft_apply_def SetBlockedNetworks_def
      split: prod.splits option.splits if_splits)

interpretation nft_guard: restoring_guard "guard_ops (nft_firewall prog)" "nft.in_step"
  "\<lambda>gw. gd_applied (fst gw) = zero_Settings \<and> \<not> nf_armed (fst (snd gw))"
  for prog :: "'k nft_program"
  by (rule nft.guard_restoring)

datatype guard_op = GApply Settings | GRestore

fun guard_step :: "'w Firewall \<Rightarrow> guard_op \<Rightarrow> Guard \<times> 'w \<Rightarrow> Guard \<times> 'w" where
  "guard_step fw (GApply s) gw = snd (guard_Apply fw s gw)"
| "guard_step fw GRestore gw = snd (guard_Restore fw gw)"

text \<open>
  \<open>nft -f\<close> is a transaction: it loads the whole input or changes nothing.  Loading a rule set puts
  its table in place, loading the removal takes it away.
\<close>

definition nft_atomic :: "'k nft_program \<Rightarrow> ('k \<Rightarrow> bool) \<Rightarrow> bool" where
  "nft_atomic nft table \<longleftrightarrow>
     (\<forall>text k out ok k'. nft ''nft'' [''-f'', ''-''] text k = ((out, ok), k') \<longrightarrow>
        (\<not> ok \<longrightarrow> table k' = table k) \<and>
        (ok \<and> (\<exists>uid bypass blocked. text = NftRuleset uid bypass blocked) \<longrightarrow> table k') \<and>
        (ok \<and> text = NftRemove \<longrightarrow> \<not> table k'))"

lemma nft_command_kept:
  "nf_command (fst (snd (nft_Arm prog ports nk))) = nf_command (fst nk)"
  "nf_command (fst (snd (nft_Disarm prog nk))) = nf_command (fst nk)"
  by (auto simp: nft_Arm_def nft_Disarm_def nft_apply_def split: prod.splits option.splits if_splits)

text \<open>The firewall contract again, now for the kernel's table.\<close>

definition nft_ready :: "('k \<Rightarrow> bool) \<Rightarrow> Nftables \<times> 'k \<Rightarrow> bool" where
  "nft_ready table nk \<longleftrightarrow> nf_command (fst nk) = ''nft'' \<and> (nf_armed (fst nk) \<longleftrightarrow> table (snd nk))"

lemma nft_atomic_ruleset:
  "nft_atomic prog table \<Longrightarrow> prog ''nft'' [''-f'', ''-''] (NftRuleset uid bypass blocked) k = ((out, ok), k') \<Longrightarrow>
     table k' = (if ok then True else table k)"
  unfolding nft_atomic_def by metis

lemma nft_atomic_remove:
  "nft_atomic prog table \<Longrightarrow> prog ''nft'' [''-f'', ''-''] NftRemove k = ((out, ok), k') \<Longrightarrow> table k' = (if ok then False else table k)"
  unfolding nft_atomic_def by metis

lemma nft_firewall_simps [simp]:
  "fw_Arm (nft_firewall prog) = nft_Arm prog"
  "fw_Disarm (nft_firewall prog) = nft_Disarm prog"
  "fw_Armed (nft_firewall prog) = nft_Armed"
  "fw_SetTunNetworks (nft_firewall prog) = None"
  "fw_SetBlockedNetworks (nft_firewall prog) = Some SetBlockedNetworks"
  by (simp_all add: nft_firewall_def)

lemma nft_ready_steps:
  assumes "nft_atomic prog table" "nft_ready table nk"
  shows "nft_ready table (snd (nft_Arm prog ports nk))"
    and "nft_ready table (snd (nft_Disarm prog nk))"
    and "nft_ready table (SetBlockedNetworks ns nk)"
  using assms(2)
  by (auto simp: nft_ready_def nft_Arm_def nft_Disarm_def nft_apply_def SetBlockedNetworks_def
      split: prod.splits option.splits if_splits dest: nft_atomic_ruleset [OF assms(1)] nft_atomic_remove [OF assms(1)])

lemma set_networks_ready:
  "nft_atomic prog table \<Longrightarrow> nft_ready table nk \<Longrightarrow> nft_ready table (set_networks (nft_firewall prog) s nk)"
  by (simp add: set_networks_def nft_ready_steps(3))

lemma guard_Apply_ready:
  assumes a: "nft_atomic prog table" and r: "nft_ready table (snd gw)"
  shows "nft_ready table (snd (snd (guard_Apply (nft_firewall prog) s gw)))"
proof -
  obtain g nk where gw: "gw = (g, nk)" by (cases gw)
  let ?nk = "set_networks (nft_firewall prog) s nk"
  have "nft_ready table ?nk" using set_networks_ready [OF a] r gw by simp
  note ready = this nft_ready_steps(1) [OF a this, of "gd_EnginePorts g"] nft_ready_steps(2) [OF a this]
  show ?thesis
  proof (cases "gd_restoring g")
    case True
    then show ?thesis using r by (simp add: gw guard_Apply_def)
  next
    case False
    then show ?thesis
      using ready by (cases "ss_KillSwitch s"; cases "ss_KillSwitch (gd_applied g)")
        (auto simp: gw guard_Apply_def Let_def split: prod.splits option.splits)
  qed
qed

lemma guard_Restore_ready:
  assumes a: "nft_atomic prog table" and r: "nft_ready table (snd gw)"
  shows "nft_ready table (snd (snd (guard_Restore (nft_firewall prog) gw)))"
  using nft_ready_steps(2) [OF a r] r
  by (cases gw) (auto simp: guard_Restore_def Let_def split: prod.splits option.splits)

lemma guard_steps_ready:
  assumes "nft_atomic prog table" "nft_ready table (snd gw)" "nft.in_step gw"
  shows "nft_ready table (snd (fold (guard_step (nft_firewall prog)) ops gw)) \<and>
    nft.in_step (fold (guard_step (nft_firewall prog)) ops gw)"
  using assms(2,3)
proof (induction ops arbitrary: gw)
  case (Cons op ops)
  have "nft_ready table (snd (guard_step (nft_firewall prog) op gw)) \<and> nft.in_step (guard_step (nft_firewall prog) op gw)"
  proof (cases op)
    case (GApply s)
    show ?thesis
      unfolding GApply guard_step.simps
      by (intro conjI guard_Apply_ready [OF assms(1) Cons.prems(1)] nft.guard_Apply_in_step [OF Cons.prems(2)])
  next
    case GRestore
    show ?thesis
      unfolding GRestore guard_step.simps
      by (intro conjI guard_Restore_ready [OF assms(1) Cons.prems(1)] nft.guard_Restore_in_step [OF Cons.prems(2)])
  qed
  then show ?case using Cons.IH [of "guard_step (nft_firewall prog) op gw"] by (simp only: fold_Cons comp_apply)
qed simp

text \<open>
  C4.  The kill switch is in the kernel exactly when the guard reports it: a guard on a freshly
  built Linux firewall, with no table of ours loaded, goes through any sequence of applied and
  restored settings, whichever of the \<open>nft\<close> runs fail.  Afterwards the table is loaded if and only
  if \<open>Current\<close> reports the kill switch, which is also what the firewall reports as armed.  In
  particular a restore that reports success leaves no rule behind.  The hypothesis is that
  \<open>nft -f\<close> loads its input as one transaction.
\<close>

theorem kill_switch_tracks_kernel:
  assumes "nft_atomic nft table" "\<not> table k"
    and "guard_New ports (Some (nft_firewall nft)) = Inr (g, fw)"
    and "NewNftables uid bypass = Inr n"
  shows "let (g', n', k') = fold (guard_step fw) ops (g, n, k)
         in (ss_KillSwitch (guard_Current (g', n', k')) \<longleftrightarrow> table k') \<and> (fst (fw_Armed fw (n', k')) \<longleftrightarrow> table k') \<and>
            (fst (guard_Restore fw (g', n', k')) = None \<longrightarrow> \<not> table (snd (snd (snd (guard_Restore fw (g', n', k'))))))"
proof -
  have fw: "fw = nft_firewall nft" and g: "\<not> gd_restoring g" "gd_applied g = zero_Settings"
    using assms(3) by (auto simp: guard_New_def split: if_splits)
  have n: "nf_command n = ''nft''" "\<not> nf_armed n" using assms(4) by (auto simp: NewNftables_def split: if_splits)
  have "nft_ready table (n, k)" "nft.in_step (g, n, k)"
    using n g assms(2) by (auto simp: nft_ready_def nft.in_step_def zero_Settings_def)
  then have run: "nft_ready table (snd (fold (guard_step fw) ops' (g, n, k)))" "nft.in_step (fold (guard_step fw) ops' (g, n, k))" for ops'
    using guard_steps_ready [OF assms(1), of "(g, n, k)" ops'] unfolding fw by simp_all
  obtain g' n' k' where st: "fold (guard_step fw) ops (g, n, k) = (g', n', k')" by (metis prod_cases3)
  have now: "nft_ready table (n', k')" "nft.in_step (g', n', k')" using run [of ops] st by auto
  have "\<not> table (snd (snd (snd (guard_Restore fw (g', n', k')))))" if "fst (guard_Restore fw (g', n', k')) = None"
    using nft.guard_Restore_clean [OF now(2), of nft "snd (guard_Restore fw (g', n', k'))"] guard_Restore_ready [OF assms(1), of "(g', n', k')"]
      now(1) that fw by (auto simp: nft_ready_def prod_eq_iff)
  then show ?thesis
    using now st by (simp add: guard_Current_def fw nft_firewall_def nft_Armed_def nft_ready_def nft.in_step_def)
qed

text \<open>A program that keeps the loaded text, and refuses to remove a table that is not there.\<close>

definition tool :: "string option nft_program" where
  "tool command args text k =
     (if text = NftRemove then (if k = None then ((''No such file or directory'', False), k) else (([], True), None))
      else (([], True), Some text))"

lemma Ruleset_not_Remove: "NftRuleset uid bypass blocked \<noteq> NftRemove"
  by (simp add: NftRuleset_def NftRemove_def Let_def)

lemma tool_atomic: "nft_atomic tool (\<lambda>k. k \<noteq> None)"
  using Ruleset_not_Remove Ruleset_not_Remove [symmetric] by (auto simp: nft_atomic_def tool_def split: if_splits)

theorem kill_switch_tracks_kernel_witness:
  "let fw = nft_firewall tool;
       g = \<lparr>gd_EnginePorts = [9090], gd_applied = zero_Settings, gd_restoring = False\<rparr>;
       n = \<lparr>nf_uid = 64, nf_bypass = DefaultBypassNetworks, nf_command = ''nft'', nf_armed = False, nf_blocked = []\<rparr>;
       (g', n', k') = fold (guard_step fw) [GApply (zero_Settings\<lparr>ss_KillSwitch := True\<rparr>)] (g, n, None)
   in k' \<noteq> None"
proof -
  let ?g = "\<lparr>gd_EnginePorts = [9090], gd_applied = zero_Settings, gd_restoring = False\<rparr>"
  let ?n = "\<lparr>nf_uid = 64, nf_bypass = DefaultBypassNetworks, nf_command = ''nft'', nf_armed = False, nf_blocked = []\<rparr>"
  note t = kill_switch_tracks_kernel [OF tool_atomic, of None "[9090]" ?g "nft_firewall tool" 64 "[]" ?n
      "[GApply (zero_Settings\<lparr>ss_KillSwitch := True\<rparr>)]"]
  have "ss_KillSwitch (gd_applied (fst (guard_step (nft_firewall tool) (GApply (zero_Settings\<lparr>ss_KillSwitch := True\<rparr>)) (?g, ?n, None))))"
    by (simp add: guard_Apply_def nft_firewall_def nft_Arm_def nft_apply_def tool_def Ruleset_not_Remove zero_Settings_def
        set_networks_def SetBlockedNetworks_def)
  then show ?thesis
    using t by (auto simp: guard_New_def NewNftables_def guard_Current_def DefaultBypassNetworks_def split: prod.splits)
qed

section \<open>What the rules let out\<close>

text \<open>A packet at the output hook, and the rules as their documented matches and verdicts.\<close>

record packet =
  pk_loopback :: bool
  pk_oifname :: string
  pk_daddr :: addr
  pk_skuid :: int
  pk_l4proto :: string
  pk_dport :: nat
  pk_reply :: bool
  pk_ct_state :: string

datatype nft_rule =
    AcceptLo
  | AcceptDevice string
  | DropTo prefix
  | AcceptUid int
  | DropDNS
  | AcceptReplies
  | AcceptTo string
  | DropAll

definition to_network :: "string \<Rightarrow> addr \<Rightarrow> bool" where
  "to_network text a =
     (case ParsePrefix text of
        Some p \<Rightarrow> prefix_Contains p a
      | None \<Rightarrow> (case ParseAddr text of Some b \<Rightarrow> a = b | None \<Rightarrow> False))"

definition is_dns :: "packet \<Rightarrow> bool" where
  "is_dns p \<longleftrightarrow> pk_l4proto p \<in> {''tcp'', ''udp''} \<and> pk_dport p = 53"

definition is_reply :: "packet \<Rightarrow> bool" where
  "is_reply p \<longleftrightarrow> pk_reply p \<and> pk_ct_state p \<in> {''established'', ''related''}"

fun rule_text :: "nft_rule \<Rightarrow> string" where
  "rule_text AcceptLo = tab @ tab @ ''oif lo accept comment '' @ dq @ ''sora: the local engine is on loopback'' @ dq @ nl"
| "rule_text (AcceptDevice d) = tab @ tab @ ''oifname '' @ dq @ d @ dq @ '' accept comment '' @ dq @ ''sora: through the tunnel'' @ dq @ nl"
| "rule_text (DropTo n) = blocked_line n"
| "rule_text (AcceptUid u) = tab @ tab @ ''meta skuid '' @ itoa u @ '' accept comment '' @ dq @ ''sora: the engine keeps its own traffic'' @ dq @ nl"
| "rule_text DropDNS = tab @ tab @ ''meta l4proto { tcp, udp } th dport 53 counter drop comment '' @ dq @ ''sora: DNS outside the tunnel'' @ dq @ nl"
| "rule_text AcceptReplies = tab @ tab @ ''ct direction reply ct state established,related accept comment '' @ dq @ ''sora: replies to incoming connections'' @ dq @ nl"
| "rule_text (AcceptTo n) = bypass_line n"
| "rule_text DropAll = tab @ tab @ ''counter drop comment '' @ dq @ ''sora: kill switch'' @ dq @ nl"

fun rule_match :: "nft_rule \<Rightarrow> packet \<Rightarrow> bool option" where
  "rule_match AcceptLo p = (if pk_loopback p then Some True else None)"
| "rule_match (AcceptDevice d) p = (if pk_oifname p = d then Some True else None)"
| "rule_match (DropTo n) p = (if prefix_Contains n (pk_daddr p) then Some False else None)"
| "rule_match (AcceptUid u) p = (if pk_skuid p = u then Some True else None)"
| "rule_match DropDNS p = (if is_dns p then Some False else None)"
| "rule_match AcceptReplies p = (if is_reply p then Some True else None)"
| "rule_match (AcceptTo n) p = (if to_network n (pk_daddr p) then Some True else None)"
| "rule_match DropAll p = Some False"

text \<open>The first rule that matches decides; the policy of the chain accepts.\<close>

fun accepts :: "nft_rule list \<Rightarrow> packet \<Rightarrow> bool" where
  "accepts [] p = True"
| "accepts (r # rs) p = (case rule_match r p of Some v \<Rightarrow> v | None \<Rightarrow> accepts rs p)"

definition table_text :: "nft_rule list \<Rightarrow> string" where
  "table_text rs =
     ''table inet '' @ nftTable @ '' {'' @ nl @ tab @ ''chain '' @ nftChain @ '' {'' @ nl @
     tab @ tab @ ''type filter hook output priority filter; policy accept;'' @ nl @
     concat (map rule_text rs) @ tab @ ''}'' @ nl @ ''}'' @ nl"

lemma accepts_drops: "accepts (map DropTo ns @ rs) p \<longleftrightarrow> \<not> (\<exists>n \<in> set ns. prefix_Contains n (pk_daddr p)) \<and> accepts rs p"
  by (induction ns) auto

lemma accepts_bypass: "accepts (map AcceptTo ns @ [DropAll]) p \<longleftrightarrow> (\<exists>n \<in> set ns. to_network n (pk_daddr p))"
  by (induction ns) auto

definition leaves :: "int \<Rightarrow> string list \<Rightarrow> prefix list \<Rightarrow> packet \<Rightarrow> bool" where
  "leaves uid networks blocked p \<longleftrightarrow>
     pk_loopback p \<or> pk_oifname p = TunDevice \<or>
     (\<not> (\<exists>n \<in> set (legacy_network # blocked). prefix_Contains n (pk_daddr p)) \<and>
      (pk_skuid p = uid \<or> (\<not> is_dns p \<and> (is_reply p \<or> (\<exists>n \<in> set networks. to_network n (pk_daddr p))))))"

lemma concat_texts:
  "concat (map rule_text (map DropTo ns)) = concat (map blocked_line ns)"
  "concat (map rule_text (map AcceptTo ts)) = concat (map bypass_line ts)"
  by (simp_all add: comp_def)


end
