(* ===== verification/SessionLifecycle.thy ===== *)
theory SessionLifecycle
  imports SessionRunner KillSwitch
begin

text \<open>
  What a session guarantees over any history of calls and supervision turns: the states a client
  reads in its journal follow the admitted transitions, the kill switch is in force while the
  session runs, and stopping always reaches the resting state.
\<close>

section \<open>Histories\<close>

datatype sess_op =
    OpStart
  | OpStop
  | OpKillSwitch bool
  | OpSelect string string
  | OpCounters
  | OpConnections
  | OpCloseConnection string
  | OpTurn arrival

text \<open>A step of a session together with the variables of its supervision loop, if that runs.\<close>

type_synonym ('g, 'w) live = "supervision option \<times> ('g, 'w) sess"

definition session_step :: "'w System \<Rightarrow> sess_op \<Rightarrow> ('g, 'w) live \<Rightarrow> ('g, 'w) live option" where
  "session_step E op l =
     (let (sv, st) = l in
      case op of
        OpStart \<Rightarrow>
          (case Start E st of
             None \<Rightarrow> None
           | Some (None, st') \<Rightarrow> (case start_supervision E st' of (sv', st'') \<Rightarrow> Some (Some sv', st''))
           | Some (Some e, st') \<Rightarrow> Some (sv, st'))
      | OpStop \<Rightarrow> map_option (\<lambda>(e, st'). (sv, st')) (Stop E st)
      | OpKillSwitch b \<Rightarrow> map_option (\<lambda>(e, st'). (sv, st')) (SetKillSwitch b st)
      | OpSelect gr t \<Rightarrow> map_option (\<lambda>(e, st'). (sv, st')) (Select E gr t st)
      | OpCounters \<Rightarrow> Some (sv, snd (s_Counters st))
      | OpConnections \<Rightarrow> Some (sv, snd (s_Connections st))
      | OpCloseConnection i \<Rightarrow> Some (sv, snd (s_CloseConnection i st))
      | OpTurn a \<Rightarrow> (case sv of None \<Rightarrow> Some l | Some v \<Rightarrow> supervise_turn E a v st))"

fun session_run :: "'w System \<Rightarrow> sess_op list \<Rightarrow> ('g, 'w) live \<Rightarrow> ('g, 'w) live option" where
  "session_run E [] l = Some l"
| "session_run E (op # ops) l = Option.bind (session_step E op l) (session_run E ops)"

section \<open>Legal journals\<close>

text \<open>
  In the retained history, a state event either makes a legal move or reports a selection in the
  unchanged state, and the last one is the session's state.
\<close>

definition state_events :: "Event list \<Rightarrow> Event list" where
  "state_events h = filter (\<lambda>e. ev_Kind e = EventState) h"

definition follows :: "Event \<Rightarrow> Event \<Rightarrow> bool" where
  "follows a b \<longleftrightarrow>
     canTransition (ev_State a) (ev_State b) \<or> (ev_State b = ev_State a \<and> ev_Key b = KeySelectionChanged)"

definition history_ok :: "Event list \<Rightarrow> State \<Rightarrow> bool" where
  "history_ok h x \<longleftrightarrow>
     successively follows (state_events h) \<and> (state_events h \<noteq> [] \<longrightarrow> ev_State (last (state_events h)) = x)"

definition legal :: "('g, 'w) Session \<Rightarrow> bool" where
  "legal s \<longleftrightarrow>
     subs_open (jo_subs (se_log s)) (jo_chans (se_log s)) \<and> st_State (se_status s) = se_state s \<and>
     history_ok (jo_history (se_log s)) (se_state s)"

lemma legal_updates [simp]:
  "legal (s\<lparr>se_guardApplied := b\<rparr>) = legal s"
  "legal (s\<lparr>se_engineSub := sub\<rparr>) = legal s"
  "legal (s\<lparr>se_stopping := b\<rparr>) = legal s"
  "legal (s\<lparr>se_cancel := c\<rparr>) = legal s"
  "legal (s\<lparr>se_done := b\<rparr>) = legal s"
  by (simp_all add: legal_def)

lemma successively_drop: "successively P xs \<Longrightarrow> successively P (drop n xs)"
  by (metis append_take_drop_id successively_append_iff)

lemma state_events_last_n: "\<exists>k. state_events (last_n n h) = drop k (state_events h)"
proof -
  have "state_events h = state_events (take (length h - n) h) @ state_events (last_n n h)"
    by (simp add: state_events_def last_n_def flip: filter_append)
  then show ?thesis by (metis append_eq_conv_conj)
qed

lemma history_ok_last_n: "history_ok h x \<Longrightarrow> history_ok (last_n n h) x"
proof -
  assume h: "history_ok h x"
  obtain k where k: "state_events (last_n n h) = drop k (state_events h)" using state_events_last_n by blast
  have "drop k (state_events h) \<noteq> [] \<Longrightarrow> last (drop k (state_events h)) = last (state_events h)" by (simp add: last_drop)
  moreover have "drop k (state_events h) \<noteq> [] \<Longrightarrow> state_events h \<noteq> []" by auto
  ultimately show ?thesis using h k by (auto simp: history_ok_def successively_drop)
qed

lemma history_ok_other: "history_ok h x \<Longrightarrow> ev_Kind e \<noteq> EventState \<Longrightarrow> history_ok (h @ [e]) x"
  by (simp add: history_ok_def state_events_def)

lemma history_ok_state:
  assumes "history_ok h x" "ev_Kind e = EventState"
    and "canTransition x (ev_State e) \<or> (ev_State e = x \<and> ev_Key e = KeySelectionChanged)"
  shows "history_ok (h @ [e]) (ev_State e)"
  using assms by (auto simp: history_ok_def state_events_def successively_append_iff follows_def)

lemma Append_open:
  assumes "subs_open (jo_subs j) (jo_chans j)"
  shows "\<exists>j'. Append now ev j = Some j' \<and> subs_open (jo_subs j') (jo_chans j')"
  using journal.publish_total [OF assms, of now ev] journal.publish_open [OF assms] by blast

lemma stamp_simps [simp]:
  "ev_Kind (stamp n now ev) = ev_Kind ev" "ev_State (stamp n now ev) = ev_State ev" "ev_Key (stamp n now ev) = ev_Key ev"
  by (simp_all add: stamp_def)

text \<open>Appending, for any session whose journal is in order.\<close>

lemma log_append_cases:
  assumes "subs_open (jo_subs (se_log s)) (jo_chans (se_log s))"
  shows "\<exists>j. log_append E ev (s, g, w) = Some (s\<lparr>se_log := j\<rparr>, g, w) \<and> subs_open (jo_subs j) (jo_chans j) \<and>
     jo_history j = last_n (jo_capacity (se_log s)) (jo_history (se_log s) @ [stamp (jo_next (se_log s) + 1) (sy_Now E w) ev])"
  using Append_open [OF assms, of "sy_Now E w" ev] Append_history(1) by (auto simp: log_append_def)

text \<open>The fields that decide about the guard, which recording never changes.\<close>

definition guard_view :: "('g, 'w) Session \<Rightarrow> 'g GuardOps \<times> bool \<times> bool \<times> bool \<times> Plan" where
  "guard_view s = (se_guard s, se_guardApplied s, se_stopping s, st_KillSwitch (se_status s), se_plan s)"

lemma log_append_other:
  assumes "legal s" "ev_Kind ev \<noteq> EventState"
  shows "\<exists>s'. log_append E ev (s, g, w) = Some (s', g, w) \<and> legal s' \<and> guard_view s' = guard_view s \<and> se_state s' = se_state s"
proof -
  obtain j where j: "log_append E ev (s, g, w) = Some (s\<lparr>se_log := j\<rparr>, g, w)" "subs_open (jo_subs j) (jo_chans j)"
    "jo_history j = last_n (jo_capacity (se_log s)) (jo_history (se_log s) @ [stamp (jo_next (se_log s) + 1) (sy_Now E w) ev])"
    using log_append_cases [of s E ev g w] assms(1) unfolding legal_def by blast
  have "history_ok (jo_history j) (se_state s)"
    unfolding j(3) using assms by (intro history_ok_last_n history_ok_other) (simp_all add: legal_def)
  then show ?thesis using j(1,2) assms(1) by (simp add: legal_def guard_view_def)
qed

lemma log_append_state:
  assumes "subs_open (jo_subs (se_log s)) (jo_chans (se_log s))" "history_ok (jo_history (se_log s)) x"
    and "st_State (se_status s) = se_state s" "ev_Kind ev = EventState" "ev_State ev = se_state s"
    and "canTransition x (ev_State ev) \<or> (ev_State ev = x \<and> ev_Key ev = KeySelectionChanged)"
  shows "\<exists>s'. log_append E ev (s, g, w) = Some (s', g, w) \<and> legal s' \<and> guard_view s' = guard_view s \<and> se_state s' = se_state s"
proof -
  obtain j where j: "log_append E ev (s, g, w) = Some (s\<lparr>se_log := j\<rparr>, g, w)" "subs_open (jo_subs j) (jo_chans j)"
    "jo_history j = last_n (jo_capacity (se_log s)) (jo_history (se_log s) @ [stamp (jo_next (se_log s) + 1) (sy_Now E w) ev])"
    using log_append_cases [OF assms(1)] by blast
  have "history_ok (jo_history j) (se_state s)"
    using history_ok_state [OF assms(2), of "stamp (jo_next (se_log s) + 1) (sy_Now E w) ev"] assms(4-6)
    unfolding j(3) by (intro history_ok_last_n) simp
  then show ?thesis using j(1,2) assms(3) by (simp add: legal_def guard_view_def)
qed

lemma setState_legal:
  assumes "legal s"
  shows "\<exists>s'. setState E nxt reason key detail (s, g, w) = Some (s', g, w) \<and> legal s' \<and> guard_view s' = guard_view s \<and>
     se_state s' = (if canTransition (se_state s) nxt then nxt else se_state s)"
proof (cases "canTransition (se_state s) nxt")
  case False
  then show ?thesis using assms by (simp add: setState_def setStateLocked_def)
next
  case True
  define s1 where "s1 = s\<lparr>se_state := nxt,
                   se_status := zero_Status\<lparr>st_State := nxt, st_SessionID := st_SessionID (se_status s), st_Reason := reason, st_Key := key,
                     st_Detail := s_mask s detail, st_ChangedAt := se_Now s w, st_KillSwitch := st_KillSwitch (se_status s),
                     st_Bypass := st_Bypass (se_status s), st_TunnelMode := st_TunnelMode (se_status s)\<rparr>\<rparr>"
  define ev where "ev = (new_Event EventState)\<lparr>ev_State := nxt, ev_Reason := reason, ev_Key := key, ev_Detail := s_mask s detail\<rparr>"
  have "\<exists>s'. log_append E ev (s1, g, w) = Some (s', g, w) \<and> legal s' \<and> guard_view s' = guard_view s1 \<and> se_state s' = se_state s1"
    using True assms by (intro log_append_state [where x = "se_state s"]) (simp_all add: s1_def ev_def legal_def new_Event_def)
  moreover have "setState E nxt reason key detail (s, g, w) = log_append E ev (s1, g, w)"
    using True by (simp add: setState_def setStateLocked_def s1_def ev_def Let_def option.map_comp comp_def option.map_ident)
  moreover have "guard_view s1 = guard_view s" "se_state s1 = nxt" by (simp_all add: s1_def guard_view_def)
  ultimately show ?thesis using True by auto
qed

lemma setStateReconnecting_legal:
  assumes "legal s"
  shows "\<exists>s'. setStateReconnecting E reason key delay (s, g, w) = Some (s', g, w) \<and> legal s' \<and> guard_view s' = guard_view s \<and>
     se_state s' = (if canTransition (se_state s) StateReconnecting then StateReconnecting else se_state s)"
proof (cases "canTransition (se_state s) StateReconnecting")
  case False
  then show ?thesis using assms by (simp add: setStateReconnecting_def reconnecting_locked_def)
next
  case True
  define s1 where "s1 = s\<lparr>se_state := StateReconnecting,
              se_status := (se_status s)\<lparr>st_State := StateReconnecting, st_Reason := reason, st_Key := key,
                st_ChangedAt := se_Now s w, st_RetryAfter := delay\<rparr>\<rparr>"
  define ev where "ev = (new_Event EventState)\<lparr>ev_State := StateReconnecting, ev_Reason := reason, ev_Key := key, ev_RetryAfter := delay\<rparr>"
  have "\<exists>s'. log_append E ev (s1, g, w) = Some (s', g, w) \<and> legal s' \<and> guard_view s' = guard_view s1 \<and> se_state s' = se_state s1"
    using True assms by (intro log_append_state [where x = "se_state s"]) (simp_all add: s1_def ev_def legal_def new_Event_def)
  moreover have "setStateReconnecting E reason key delay (s, g, w) = log_append E ev (s1, g, w)"
    using True by (simp add: setStateReconnecting_def reconnecting_locked_def s1_def ev_def)
  moreover have "guard_view s1 = guard_view s" "se_state s1 = StateReconnecting" by (simp_all add: s1_def guard_view_def)
  ultimately show ?thesis using True by auto
qed

section \<open>Supervision only records\<close>

text \<open>
  A state supervision may lead to: it never leaves a resting state and never enters one by itself,
  except that it may fail.
\<close>

definition onward :: "State \<Rightarrow> State \<Rightarrow> bool" where
  "onward a b \<longleftrightarrow>
     (a \<in> {StateDisconnected, StateFailed} \<longrightarrow> b = a) \<and> (b = StateConnecting \<longrightarrow> a = b) \<and> (b = StateDisconnected \<longrightarrow> a = b)"

lemma onward_refl [simp]: "onward a a"
  by (simp add: onward_def)

lemma onward_trans: "onward a b \<Longrightarrow> onward b c \<Longrightarrow> onward a c"
  by (cases a; cases b; cases c) (simp_all add: onward_def)

lemma onward_rest: "onward a b \<Longrightarrow> a = StateDisconnected \<Longrightarrow> b = StateDisconnected"
  by (cases b) (simp_all add: onward_def)

lemma onward_move: "b \<in> {StateConnected, StateReconnecting, StateFailed} \<Longrightarrow> onward a (if canTransition a b then b else a)"
  by (cases a; cases b) (auto simp: onward_def canTransition_def)

text \<open>The result of an operation that records in the journal and leaves the guard alone.\<close>

definition recorded :: "('g, 'w) sess \<Rightarrow> ('g, 'w) sess option \<Rightarrow> bool" where
  "recorded st r \<longleftrightarrow>
     (\<exists>s' w'. r = Some (s', fst (snd st), w') \<and> legal s' \<and> guard_view s' = guard_view (fst st) \<and>
        onward (se_state (fst st)) (se_state s'))"

lemma recorded_Some: "legal s \<Longrightarrow> recorded (s, g, w) (Some (s, g, w'))"
  by (simp add: recorded_def)

lemma recorded_bind:
  assumes "recorded (s, g, w) r" and "\<And>s' w'. legal s' \<Longrightarrow> recorded (s', g, w') (f (s', g, w'))"
  shows "recorded (s, g, w) (Option.bind r f)"
proof -
  obtain s' w' where r: "r = Some (s', g, w')" "legal s'" "guard_view s' = guard_view s" "onward (se_state s) (se_state s')"
    using assms(1) by (auto simp: recorded_def)
  from assms(2) [OF r(2), of w'] r show ?thesis by (auto simp: recorded_def intro: onward_trans)
qed

lemma recorded_world: "recorded (s, g, w') r \<Longrightarrow> recorded (s, g, w) r"
  by (simp add: recorded_def)

lemma recorded_log: "legal s \<Longrightarrow> ev_Kind ev \<noteq> EventState \<Longrightarrow> recorded (s, g, w) (log_append E ev (s, g, w'))"
  using log_append_other [of s ev E g w'] by (auto simp: recorded_def)

lemma recorded_setState:
  "legal s \<Longrightarrow> nxt \<in> {StateConnected, StateReconnecting, StateFailed} \<Longrightarrow>
     recorded (s, g, w) (setState E nxt reason key detail (s, g, w))"
  unfolding recorded_def fst_conv snd_conv
  by (drule setState_legal [of s E nxt reason key detail g w]) (elim exE conjE, simp add: onward_move del: insert_iff)

lemma recorded_Reconnecting: "legal s \<Longrightarrow> recorded (s, g, w) (setStateReconnecting E reason key delay (s, g, w))"
  using onward_move [of StateReconnecting "se_state s"] unfolding recorded_def fst_conv snd_conv
  by (drule_tac setStateReconnecting_legal [of s E reason key delay g w]) (elim exE conjE, simp)

lemma new_Event_kind [simp]: "ev_Kind (new_Event k) = k"
  by (simp add: new_Event_def)

lemma recorded_fail: "legal s \<Longrightarrow> recorded (s, g, w) (s_fail E e (s, g, w))"
  unfolding s_fail_def
  by (intro recorded_bind recorded_setState recorded_log) (simp_all add: error_event_def)

lemma recorded_done: "recorded st r \<Longrightarrow> recorded st (map_option session_done r)"
  by (auto simp: recorded_def session_done_def legal_def guard_view_def)

lemma engine_event_kind: "ev_Kind (engine_event s ev) \<noteq> EventState"
  by (auto simp: engine_event_def Let_def split: EngineEventKind.splits option.splits)

lemma recorded_renew: "legal s \<Longrightarrow> recorded (s, g, w) (renewConnections E why (s, g, w))"
  unfolding renewConnections_def
  by (auto intro!: recorded_bind recorded_log recorded_Some split: prod.splits option.splits if_splits)

lemma recorded_counters: "legal s \<Longrightarrow> recorded (s, g, w) (publishCounters E (s, g, w))"
  unfolding publishCounters_def s_Counters_def
  by (auto simp: Let_def split: prod.splits sum.splits intro!: recorded_Some recorded_log)

lemma recorded_notice: "legal s \<Longrightarrow> recorded (s, g, w) (map_option snd (notice_groups E gs seen (s, g, w)))"
proof (induction gs arbitrary: seen s w)
  case Nil
  then show ?case by (simp add: recorded_Some)
next
  case (Cons a gs)
  have bind: "map_option snd (Option.bind r f) = Option.bind r (\<lambda>x. map_option snd (f x))"
    for r :: "('a, 'b) sess option" and f :: "('a, 'b) sess \<Rightarrow> (string go_map \<times> ('a, 'b) sess) option"
    by (cases r) auto
  show ?case
  proof (cases "map_of seen (gs_Name a)")
    case None
    then show ?thesis using Cons by simp
  next
    case (Some prev)
    let ?skip = "gs_Selected a = [] \<or> gs_Selected a = prev \<or>
      (case map_of (gs_LatencyMS a) (gs_Selected a) of None \<Rightarrow> 0 | Some l \<Rightarrow> l) \<le> 0"
    show ?thesis
    proof (cases ?skip)
      case True
      then show ?thesis using Cons Some by simp
    next
      case False
      define r where "r = (if prev \<noteq> [] then
             log_append E ((new_Event EventGroup)\<lparr>ev_Switch :=
               Some \<lparr>sw_Group = gs_Name a, sw_Previous = prev, sw_Selected = gs_Selected a\<rparr>\<rparr>) (s, g, w)
           else Some (s, g, w))"
      have "recorded (s, g, w) r"
        unfolding r_def by (cases "prev = []") (simp_all add: Cons.prems recorded_Some recorded_log)
      moreover have "notice_groups E (a # gs) seen (s, g, w) =
        Option.bind r (notice_groups E gs (AList.update (gs_Name a) (gs_Selected a) seen))"
        unfolding notice_groups.simps Some option.case if_not_P [OF False] r_def ..
      ultimately show ?thesis
        by (simp only: bind) (rule recorded_bind, assumption, rule Cons.IH)
    qed
  qed
qed

lemma map_option_bind: "map_option f (Option.bind r h) = Option.bind r (\<lambda>x. map_option f (h x))"
  by (cases r) auto

lemma map_option_snd_Pair: "map_option snd (map_option (Pair a) r) = r"
  by (cases r) auto

lemma recorded_react: "legal s \<Longrightarrow> recorded (s, g, w) (map_option snd (react E ev sv (s, g, w)))"
proof -
  assume l: "legal s"
  have fatal: "map_option snd (map_option (\<lambda>st'. (None, session_done st')) r) = map_option session_done r" for r :: "('a, 'b) sess option"
    by (cases r) auto
  show ?thesis
    using l
    by (cases "ee_Kind ev")
      (simp_all add: react_def map_option_snd_Pair recorded_Reconnecting recorded_setState recorded_Some fatal recorded_done recorded_fail)
qed

lemma recorded_publish: "legal s \<Longrightarrow> recorded (s, g, w) (publishEngineEvent E ev (s, g, w))"
  unfolding publishEngineEvent_def by (intro recorded_log engine_event_kind)

lemma recorded_fallbacks: "legal s \<Longrightarrow> recorded (s, g, w) (map_option snd (noticeFallbacks E seen (s, g, w)))"
proof -
  assume l: "legal s"
  obtain r w1 where e: "en_Groups (se_eng s) w = (r, w1)" by (cases "en_Groups (se_eng s) w")
  show ?thesis
    using recorded_world [OF recorded_notice [OF l]] recorded_Some [OF l]
    by (cases r) (simp_all add: noticeFallbacks_def e)
qed

lemma recorded_network:
  assumes l: "legal s"
  shows "recorded (s, g, w) (map_option snd (supervise_turn E NetworkLook sv (s, g, w)))"
proof (cases "sv_watch sv")
  case None
  then show ?thesis using recorded_Some [OF l] by (simp add: supervise_turn_def)
next
  case (Some nw)
  note w = this
  show ?thesis
  proof (cases "se_Network s")
    case None
    then show ?thesis using recorded_Some [OF l] w by (simp add: supervise_turn_def)
  next
    case (Some probe)
    obtain why nw1 w1 where c: "changed E probe nw w = (why, nw1, w1)" by (metis prod_cases3)
    show ?thesis
      using recorded_world [OF recorded_renew [OF l]] recorded_Some [OF l]
      by (cases "why = []") (simp_all add: supervise_turn_def w Some c map_option_snd_Pair)
  qed
qed

lemma recorded_turn:
  assumes l: "legal s"
  shows "recorded (s, g, w) (map_option snd (supervise_turn E a sv (s, g, w)))"
proof (cases a)
  case FallbackLook
  have "map_option snd (map_option (\<lambda>(seen, st'). (Some (sv\<lparr>sv_fallbacks := seen\<rparr>), st')) r) = map_option snd r"
    for r :: "(string go_map \<times> ('a, 'b) sess) option"
    by (cases r) auto
  then show ?thesis
    using recorded_fallbacks [OF l] recorded_Some [OF l]
    by (cases "sv_fallbacks sv \<noteq> [] \<and> se_state s = StateConnected") (auto simp: supervise_turn_def FallbackLook)
next
  case (Arrived ev)
  show ?thesis
    unfolding supervise_turn_def Arrived arrival.case map_option_bind
    by (intro recorded_bind recorded_publish [OF l] recorded_react)
qed (use recorded_done [OF recorded_Some [OF l]] recorded_counters [OF l] recorded_network [OF l] in
    \<open>simp_all add: supervise_turn_def map_option_snd_Pair\<close>)

text \<open>A selection repeats the state it happens in.\<close>

lemma recorded_select: "legal s \<Longrightarrow> recorded (s, g, w) (map_option snd (Select E gr t (s, g, w)))"
proof -
  assume l: "legal s"
  obtain r w1 where e: "en_Select (se_eng s) gr t w = (r, w1)" by (cases "en_Select (se_eng s) gr t w")
  show ?thesis
  proof (cases r)
    case (Some x)
    then show ?thesis using recorded_Some [OF l] by (simp add: Select_def e)
  next
    case None
    define ev where "ev = (new_Event EventState)\<lparr>ev_State := se_state s, ev_Key := KeySelectionChanged, ev_Detail := gr @ '' -> '' @ t\<rparr>"
    have "\<exists>s'. log_append E ev (s, g, w1) = Some (s', g, w1) \<and> legal s' \<and> guard_view s' = guard_view s \<and> se_state s' = se_state s"
      using l by (intro log_append_state [where x = "se_state s"]) (simp_all add: ev_def legal_def new_Event_def)
    then show ?thesis
      by (elim exE conjE) (simp add: Select_def e None ev_def recorded_def)
  qed
qed

section \<open>Guarded sessions\<close>

text \<open>
  What a session needs of a guard that blocks traffic: a successful apply blocks exactly when the
  settings say so, a failed one changes nothing, and a clean guard blocks nothing.
\<close>

locale blocking_guard = restoring_guard G inv clean
  for G :: "'g GuardOps" and inv and clean +
  fixes blocks :: "'g \<Rightarrow> bool"
  assumes apply_ok: "inv g \<Longrightarrow> gu_Apply G s g = (None, g') \<Longrightarrow> blocks g' \<longleftrightarrow> ss_KillSwitch s"
    and apply_error: "inv g \<Longrightarrow> gu_Apply G s g = (Some e, g') \<Longrightarrow> (blocks g' \<longleftrightarrow> blocks g) \<and> (clean g \<longrightarrow> clean g')"
    and clean_open: "inv g \<Longrightarrow> clean g \<Longrightarrow> \<not> blocks g"
begin

definition guarded :: "State \<Rightarrow> 'g GuardOps \<times> bool \<times> bool \<times> bool \<times> Plan \<Rightarrow> 'g \<Rightarrow> bool" where
  "guarded x v g \<longleftrightarrow>
     (case v of (G', applied, stopping, kill, plan) \<Rightarrow>
        G' = G \<and> inv g \<and> Networks (p_Tun plan) \<noteq> None \<and> (\<not> applied \<longrightarrow> clean g) \<and>
        (x \<in> {StateConnected, StateReconnecting} \<longrightarrow> applied \<and> blocks g = kill) \<and>
        x \<noteq> StateConnecting \<and> (stopping \<longrightarrow> x = StateDisconnected))"

definition held :: "('g, 'w) sess \<Rightarrow> bool" where
  "held st \<longleftrightarrow> legal (fst st) \<and> guarded (se_state (fst st)) (guard_view (fst st)) (fst (snd st))"

text \<open>Recording cannot lose the guard.\<close>

lemma guarded_onward: "guarded a v g \<Longrightarrow> onward a b \<Longrightarrow> guarded b v g"
  by (cases v; cases a; cases b) (simp_all add: guarded_def onward_def)

lemma held_recorded: "held (s, g, w) \<Longrightarrow> recorded (s, g, w) r \<Longrightarrow> \<exists>st'. r = Some st' \<and> held st'"
  unfolding held_def recorded_def fst_conv snd_conv by (elim exE conjE) (simp add: guarded_onward)

lemma restoreGuard_cases:
  assumes "se_guard s = G" "inv g" "\<not> se_guardApplied s \<longrightarrow> clean g"
  shows "\<exists>e b g'. restoreGuard (s, g, w) = (e, s\<lparr>se_guardApplied := b\<rparr>, g', w) \<and> inv g' \<and> (\<not> b \<longrightarrow> clean g') \<and> (e = None \<longrightarrow> \<not> b)"
proof (cases "se_guardApplied s")
  case False
  then have "s\<lparr>se_guardApplied := False\<rparr> = s" by simp
  then show ?thesis using assms False by (intro exI [of _ None] exI [of _ False] exI [of _ g]) (simp add: restoreGuard_def)
next
  case True
  obtain e g' where r: "gu_Restore G g = (e, g')" by (cases "gu_Restore G g")
  have "s\<lparr>se_guardApplied := True\<rparr> = s" using True by simp
  moreover have "inv g'" using restore_inv [OF assms(2)] r by simp
  moreover have "e = None \<Longrightarrow> clean g'" using restore_clean [OF assms(2)] r by simp
  ultimately show ?thesis
    using True r assms(1)
    by (intro exI [of _ e] exI [of _ "e \<noteq> None"] exI [of _ g']) (cases e; simp add: restoreGuard_def)
qed

lemma stop_first_held:
  assumes h: "held (s, g, w)"
  shows "\<exists>e s' g' w'. stop_first E (s, g, w) = Some (e, s', g', w') \<and> held (s', g', w') \<and>
    se_state s' = StateDisconnected \<and> se_stopping s' \<and> (e = None \<longrightarrow> \<not> se_guardApplied s')"
proof -
  define s1 where "s1 = s\<lparr>se_stopping := True, se_cancel := map_option (\<lambda>_. True) (se_cancel s)\<rparr>"
  obtain engErr w1 where eng: "en_Stop (se_eng s1) w = (engErr, w1)" by (cases "en_Stop (se_eng s1) w")
  have gs: "se_guard s1 = G" "inv g" "\<not> se_guardApplied s1 \<longrightarrow> clean g"
    using h by (simp_all add: held_def guarded_def guard_view_def s1_def)
  obtain ge b g2 where r: "restoreGuard (s1, g, w1) = (ge, s1\<lparr>se_guardApplied := b\<rparr>, g2, w1)" "inv g2" "\<not> b \<longrightarrow> clean g2" "ge = None \<longrightarrow> \<not> b"
    using restoreGuard_cases [OF gs, of w1] by blast
  define s2 where "s2 = s1\<lparr>se_guardApplied := b\<rparr>"
  have "legal s2" using h by (simp add: held_def legal_def s2_def s1_def)
  then obtain s3 where s3: "setState E StateDisconnected [] [] [] (s2, g2, w1) = Some (s3, g2, w1)" "legal s3"
    "guard_view s3 = guard_view s2" "se_state s3 = (if canTransition (se_state s2) StateDisconnected then StateDisconnected else se_state s2)"
    using setState_legal [of s2 E StateDisconnected "[]" "[]" "[]" g2 w1] by blast
  have x: "se_state s3 = StateDisconnected" using s3(4) by (simp add: canTransition_rest split: if_splits)
  have v: "guard_view s3 = (G, b, True, st_KillSwitch (se_status s), se_plan s)"
    using s3(3) gs(1) by (simp add: guard_view_def s2_def s1_def)
  have nets: "Networks (p_Tun (se_plan s)) \<noteq> None" using h by (simp add: held_def guarded_def guard_view_def)
  define s4 where "s4 = s3\<lparr>se_engineSub := None\<rparr>"
  have s4: "legal s4" "se_state s4 = StateDisconnected" "guard_view s4 = (G, b, True, st_KillSwitch (se_status s), se_plan s)"
    using s3(2) x v by (simp_all add: s4_def legal_def guard_view_def)
  then have "held (s4, g2, w')" for w' using r(2,3) nets by (simp add: held_def guarded_def)
  moreover have "se_stopping s4" "se_guardApplied s4 = b" using s4(3) by (simp_all add: guard_view_def)
  moreover have "stop_first E (s, g, w) = Some (map_option restore_wrap (if ge \<noteq> None \<and> engErr = None then map_option restore_wrap ge else engErr),
      s4, g2, snd (en_Close (se_eng s3) (case se_engineSub s3 of Some sub \<Rightarrow> en_Unsubscribe (se_eng s3) sub w1 | None \<Rightarrow> w1)))"
    unfolding stop_first_def prod.case Let_def s1_def [symmetric] eng r(1) s2_def [symmetric] s3(1) bind.bind_lunit s4_def [symmetric] ..
  moreover have "map_option restore_wrap (if ge \<noteq> None \<and> engErr = None then map_option restore_wrap ge else engErr) = None \<Longrightarrow> \<not> b"
    using r(4) by (cases ge; cases engErr) simp_all
  ultimately show ?thesis using s4(2) by simp
qed

lemma stop_again_held:
  assumes h: "held (s, g, w)" and st: "se_stopping s"
  shows "\<exists>e s' g' w'. stop_again (s, g, w) = (e, s', g', w') \<and> held (s', g', w') \<and>
    se_state s' = StateDisconnected \<and> se_stopping s' \<and> (e = None \<longrightarrow> \<not> se_guardApplied s')"
proof -
  have x: "se_state s = StateDisconnected" and gs: "se_guard s = G" "inv g" "\<not> se_guardApplied s \<longrightarrow> clean g"
    using h st by (auto simp: held_def guarded_def guard_view_def)
  obtain err w1 where eng: "(if en_State (se_eng s) w \<noteq> EngineStopped then en_Stop (se_eng s) w else (None, w)) = (err, w1)"
    by (metis surj_pair)
  obtain ge b g2 where r: "restoreGuard (s, g, w1) = (ge, s\<lparr>se_guardApplied := b\<rparr>, g2, w1)" "inv g2" "\<not> b \<longrightarrow> clean g2" "ge = None \<longrightarrow> \<not> b"
    using restoreGuard_cases [OF gs, of w1] by blast
  have h2: "held (s\<lparr>se_guardApplied := b\<rparr>, g2, w1)" "held (s, g, w1)"
    using h r(2,3) x by (simp_all add: held_def guarded_def guard_view_def legal_def)
  show ?thesis
  proof (cases err)
    case (Some e)
    then have "stop_again (s, g, w) = (Some (restore_wrap e), s, g, w1)"
      unfolding stop_again_def Let_def prod.case eng by simp
    then show ?thesis using h2(2) x st by simp
  next
    case None
    then have "stop_again (s, g, w) = (map_option restore_wrap ge, s\<lparr>se_guardApplied := b\<rparr>, g2, w1)"
      unfolding stop_again_def Let_def prod.case eng by (cases ge) (simp_all add: r(1))
    then show ?thesis using h2(1) x st r(4) by (cases ge) simp_all
  qed
qed

lemma Stop_held:
  assumes "held (s, g, w)"
  shows "\<exists>e s' g' w'. Stop E (s, g, w) = Some (e, s', g', w') \<and> held (s', g', w') \<and>
    se_state s' = StateDisconnected \<and> se_stopping s' \<and> (e = None \<longrightarrow> \<not> se_guardApplied s')"
  using stop_first_held [OF assms, of E] stop_again_held [OF assms] by (cases "se_stopping s") (simp_all add: Stop_def)

end

lemma s_fail_failed:
  assumes "legal s" "se_state s = StateConnecting"
  shows "\<exists>s'. s_fail E e (s, g, w) = Some (s', g, w) \<and> legal s' \<and> guard_view s' = guard_view s \<and> se_state s' = StateFailed"
proof -
  have "canTransition (se_state s) StateFailed" using assms(2) by (simp add: canTransition_def)
  then obtain s1 where s1: "setState E StateFailed (CodeOf (Some e)) (KeyOf (Some e)) (s_mask s (Detail (Some e))) (s, g, w) = Some (s1, g, w)"
    "legal s1" "guard_view s1 = guard_view s" "se_state s1 = StateFailed"
    using setState_legal [OF assms(1), of E StateFailed "CodeOf (Some e)" "KeyOf (Some e)" "s_mask s (Detail (Some e))" g w] by auto
  have "ev_Kind (error_event s1 e) \<noteq> EventState" by (simp add: error_event_def)
  from log_append_other [OF s1(2) this, of E g w] s1 show ?thesis
    by (elim exE conjE) (simp add: s_fail_def)
qed

context blocking_guard
begin

text \<open>A session on its way up.\<close>

definition starting :: "('g, 'w) sess \<Rightarrow> bool" where
  "starting st \<longleftrightarrow>
     (case st of (s, g, w) \<Rightarrow>
        legal s \<and> se_state s = StateConnecting \<and> \<not> se_stopping s \<and> se_guard s = G \<and> inv g \<and>
        Networks (p_Tun (se_plan s)) \<noteq> None \<and> (\<not> se_guardApplied s \<longrightarrow> clean g))"

lemma starting_fail:
  assumes "starting (s, g, w)"
  shows "\<exists>st'. s_fail E e (s, g, w) = Some st' \<and> held st'"
proof -
  obtain s' where "s_fail E e (s, g, w) = Some (s', g, w)" "legal s'" "guard_view s' = guard_view s" "se_state s' = StateFailed"
    using s_fail_failed [of s E e g w] assms by (auto simp: starting_def)
  then show ?thesis using assms by (simp add: starting_def held_def guarded_def guard_view_def)
qed

lemma start_failed_held:
  assumes "starting (s, g, w)"
  shows "\<exists>st'. start_failed E e (s, g, w) = Some (Some e, st') \<and> held st'"
proof -
  have gs: "se_guard s = G" "inv g" "\<not> se_guardApplied s \<longrightarrow> clean g" using assms by (simp_all add: starting_def)
  obtain ge b g2 where r: "restoreGuard (s, g, w) = (ge, s\<lparr>se_guardApplied := b\<rparr>, g2, w)" "inv g2" "\<not> b \<longrightarrow> clean g2"
    using restoreGuard_cases [OF gs, of w] by blast
  define s1 where "s1 = s\<lparr>se_guardApplied := b\<rparr>"
  have st1: "starting (s1, g2, w)" using assms r(2,3) by (simp add: starting_def s1_def)
  define r2 where "r2 = (case ge of None \<Rightarrow> Some (s1, g2, w) | Some x \<Rightarrow>
     log_append E ((new_Event EventError)\<lparr>ev_Reason := CodeOf (Some x), ev_Key := KeyGuardRestoreFailed,
                                                       ev_Detail := s_mask s1 (err_text x)\<rparr>) (s1, g2, w))"
  have "\<exists>s2. r2 = Some (s2, g2, w) \<and> starting (s2, g2, w)"
  proof (cases ge)
    case None
    then show ?thesis using st1 by (simp add: r2_def)
  next
    case (Some x)
    define ev where "ev = (new_Event EventError)\<lparr>ev_Reason := CodeOf (Some x), ev_Key := KeyGuardRestoreFailed,
                                                       ev_Detail := s_mask s1 (err_text x)\<rparr>"
    have l: "legal s1" "ev_Kind ev \<noteq> EventState" using st1 by (simp_all add: starting_def ev_def)
    obtain s2 where "log_append E ev (s1, g2, w) = Some (s2, g2, w)" "legal s2" "guard_view s2 = guard_view s1" "se_state s2 = se_state s1"
      using log_append_other [OF l, of E g2 w] by blast
    then show ?thesis using st1 by (simp add: r2_def Some ev_def [symmetric] starting_def guard_view_def)
  qed
  then obtain s2 where s2: "r2 = Some (s2, g2, w)" "starting (s2, g2, w)" by blast
  have "start_failed E e (s, g, w) = Option.bind r2 (\<lambda>st2. Option.bind (s_fail E e st2) (\<lambda>st3. Some (Some e, st3)))"
    unfolding start_failed_def r(1) Let_def prod.case s1_def [symmetric] r2_def fst_conv ..
  then show ?thesis using starting_fail [OF s2(2), of E e] s2(1) by auto
qed

lemma start_engine_world:
  "\<exists>e w'. start_engine (s, g, w) = (e, s, g, w')"
  by (simp add: start_engine_def Let_def split: prod.splits option.splits)

lemma start_guarded_held:
  assumes "starting (s, g, w)"
  shows "\<exists>e st'. start_guarded E (s, g, w) = Some (e, st') \<and> held st' \<and> (e = None \<longrightarrow> se_state (fst st') = StateConnected)"
proof -
  define s1 where "s1 = s\<lparr>se_guardApplied := True\<rparr>"
  obtain settings where set: "settingsLocked s1 = Some settings"
    using assms by (auto simp: settingsLocked_def starting_def s1_def)
  have kill: "ss_KillSwitch settings = st_KillSwitch (se_status s)"
    using set by (auto simp: settingsLocked_def s1_def)
  have s: "legal s1" "se_guard s1 = G" "se_state s1 = StateConnecting" "inv g"
    using assms by (simp_all add: starting_def s1_def)
  obtain ae g1 where a: "gu_Apply G settings g = (ae, g1)" by (cases "gu_Apply G settings g")
  have i: "inv g1" using apply_inv [OF s(4), of settings] a by simp
  have st1: "starting (s1, g1, w')" for w' using assms i by (simp add: starting_def s1_def)
  have start: "start_guarded E (s, g, w) =
     (case ae of
        Some e \<Rightarrow> map_option (\<lambda>st'. (Some (Wrap e CodeFailedPrecondition KeyGuardFirewallFail), st'))
                   (s_fail E (Wrap e CodeFailedPrecondition KeyGuardFirewallFail) (s1, g1, w))
      | None \<Rightarrow>
          (case start_engine (s1, g1, w) of
             (Some e, st2) \<Rightarrow> start_failed E e st2
           | (None, st2) \<Rightarrow>
               Option.bind (setState E StateConnected [] [] [] st2)
                 (\<lambda>(s3, g3, w3). let (sub, w4) = en_Subscribe (se_eng s3) w3 in Some (None, s3\<lparr>se_engineSub := Some sub\<rparr>, g3, w4))))"
    unfolding start_guarded_def Let_def prod.case s1_def [symmetric] set bind.bind_lunit s(2) a by (simp split: option.split)
  show ?thesis
  proof (cases ae)
    case (Some e)
    then show ?thesis using starting_fail [OF st1, of E "Wrap e CodeFailedPrecondition KeyGuardFirewallFail" w] by (auto simp: start)
  next
    case None
    note ae = this
    have b: "blocks g1 = st_KillSwitch (se_status s)" using apply_ok [OF s(4), of settings g1] a None kill by simp
    obtain ee w1 where e: "start_engine (s1, g1, w) = (ee, s1, g1, w1)" using start_engine_world [of s1 g1 w] by (elim exE)
    show ?thesis
    proof (cases ee)
      case (Some x)
      then show ?thesis using start_failed_held [OF st1, of E x w1] by (auto simp: start ae e)
    next
      case None
      have c: "canTransition (se_state s1) StateConnected" using s(3) by (simp add: canTransition_def)
      obtain s3 where s3: "setState E StateConnected [] [] [] (s1, g1, w1) = Some (s3, g1, w1)" "legal s3"
        "guard_view s3 = guard_view s1" "se_state s3 = StateConnected"
        using setState_legal [OF s(1), of E StateConnected "[]" "[]" "[]" g1 w1] c by (elim exE conjE) simp
      obtain sub w4 where w4: "en_Subscribe (se_eng s3) w1 = (sub, w4)" by (cases "en_Subscribe (se_eng s3) w1")
      have "held (s3\<lparr>se_engineSub := Some sub\<rparr>, g1, w4)"
        using s3(2-4) b assms i unfolding held_def guarded_def guard_view_def
        by (simp add: starting_def s1_def)
      then show ?thesis using s3(1,4) w4 by (simp add: start ae e None)
    qed
  qed
qed

end

context blocking_guard
begin

lemma Start_held:
  assumes h: "held (s, g, w)" and d: "se_state s = StateDisconnected" "\<not> se_stopping s" "\<not> se_guardApplied s"
  shows "\<exists>e st'. Start E (s, g, w) = Some (e, st') \<and> held st' \<and> (e = None \<longrightarrow> se_state (fst st') = StateConnected)"
proof -
  define s0 where "s0 = s\<lparr>se_cancel := Some False, se_status := (se_status s)\<lparr>st_SessionID := p_SessionID (se_plan s)\<rparr>\<rparr>"
  have l: "legal s0" "guard_view s0 = guard_view s" "se_state s0 = StateDisconnected"
    using h d by (simp_all add: held_def legal_def guard_view_def s0_def)
  have c: "canTransition (se_state s0) StateConnecting" using l(3) by (simp add: canTransition_def)
  obtain s1 where s1: "setState E StateConnecting [] [] [] (s0, g, w) = Some (s1, g, w)" "legal s1" "guard_view s1 = guard_view s0"
    "se_state s1 = StateConnecting"
    using setState_legal [OF l(1), of E StateConnecting "[]" "[]" "[]" g w] c by (elim exE conjE) simp
  obtain ve w2 where v: "en_Validate (se_eng s1) (se_plan s1) w = (ve, w2)" by (cases "en_Validate (se_eng s1) (se_plan s1) w")
  have st: "starting (s1, g, w2)"
    using s1(2-4) l(2) h d by (simp add: starting_def held_def guarded_def guard_view_def)
  have "Start E (s, g, w) =
     (case ve of
        Some e \<Rightarrow> map_option (\<lambda>st'. (Some (Wrap e CodeInvalidArgument KeyPlanOutbounds), st'))
                   (s_fail E (Wrap e CodeInvalidArgument KeyPlanOutbounds) (s1, g, w2))
      | None \<Rightarrow> start_guarded E (s1, g, w2))"
    unfolding Start_def Let_def prod.case s0_def [symmetric] s1(1) bind.bind_lunit v using d(1) by (simp split: option.split)
  then show ?thesis
    using starting_fail [OF st, of E "Wrap (the ve) CodeInvalidArgument KeyPlanOutbounds"] start_guarded_held [OF st, of E]
    by (cases ve) (elim exE conjE, simp)+
qed

lemma SetKillSwitch_held:
  assumes h: "held (s, g, w)"
  shows "\<exists>e st'. SetKillSwitch b (s, g, w) = Some (e, st') \<and> held st' \<and> se_state (fst st') = se_state s"
proof (cases "se_stopping s \<or> (b \<and> terminal (se_state s)) \<or> (\<not> b \<and> se_state s = StateDisconnected)")
  case True
  then show ?thesis using h by (simp add: SetKillSwitch_def)
next
  case False
  have i: "inv g" "se_guard s = G" "Networks (p_Tun (se_plan s)) \<noteq> None" "legal s"
    using h by (simp_all add: held_def guarded_def guard_view_def)
  obtain settings where set: "settingsLocked s = Some settings" using i(3) by (auto simp: settingsLocked_def)
  obtain ae g1 where a: "gu_Apply G (settings\<lparr>ss_KillSwitch := b\<rparr>) g = (ae, g1)" by (metis surj_pair)
  have i1: "inv g1" using apply_inv [OF i(1), of "settings\<lparr>ss_KillSwitch := b\<rparr>"] a by simp
  have run: "SetKillSwitch b (s, g, w) = (case ae of
      Some e \<Rightarrow> Some (Some (Wrap e CodeInternal KeyGuardFirewallFail), s, g1, w)
    | None \<Rightarrow> Some (None, s\<lparr>se_guardApplied := True, se_status := (se_status s)\<lparr>st_KillSwitch := b\<rparr>\<rparr>, g1, w))"
    unfolding SetKillSwitch_def Let_def prod.case if_not_P [OF False] set bind.bind_lunit i(2) a by (simp split: option.split)
  show ?thesis
  proof (cases ae)
    case (Some e)
    then have "blocks g1 = blocks g" "clean g \<longrightarrow> clean g1" using apply_error [OF i(1)] a by auto
    then have "held (s, g1, w)" using h i1 by (simp add: held_def guarded_def guard_view_def)
    then show ?thesis by (simp add: run Some)
  next
    case None
    then have "blocks g1 = b" using apply_ok [OF i(1)] a by auto
    then have "held (s\<lparr>se_guardApplied := True, se_status := (se_status s)\<lparr>st_KillSwitch := b\<rparr>\<rparr>, g1, w)"
      using h i1 False by (simp add: held_def guarded_def guard_view_def legal_def)
    then show ?thesis by (simp add: run None)
  qed
qed

lemma supervision_start_held: "held st \<Longrightarrow> held (snd (start_supervision E st))"
  by (cases st) (simp add: start_supervision_def Let_def held_def split: prod.splits)

lemma held_world: "held (s, g, w) \<Longrightarrow> held (s, g, w')"
  by (simp add: held_def)

lemma reads_held:
  assumes "held st"
  shows "held (snd (s_Counters st))" "held (snd (s_Connections st))" "held (snd (s_CloseConnection i st))"
  using assms
  by (cases st; simp add: s_Counters_def s_Connections_def s_CloseConnection_def Let_def held_def split: prod.splits option.splits)+

lemma held_after:
  assumes h: "held (s, g, w)" and r: "recorded (s, g, w) (map_option snd r)"
  shows "\<exists>x st'. r = Some (x, st') \<and> held st' \<and> (se_state s = StateDisconnected \<longrightarrow> se_state (fst st') = StateDisconnected)"
proof -
  obtain s' w' where m: "map_option snd r = Some (s', g, w')" "legal s'" "guard_view s' = guard_view s" "onward (se_state s) (se_state s')"
    using r by (auto simp: recorded_def)
  obtain x where x: "r = Some (x, s', g, w')" using m(1) by (cases r) auto
  have "held (s', g, w')" using h m(2,3) guarded_onward [OF _ m(4)] by (simp add: held_def)
  then show ?thesis using x onward_rest [OF m(4)] by simp
qed

text \<open>Every step but a start is total and keeps the guard held.\<close>

lemma session_step_held:
  assumes h: "held st" and op: "op \<noteq> OpStart"
  shows "\<exists>sv' st'. session_step E op (sv, st) = Some (sv', st') \<and> held st' \<and>
    (se_state (fst st) = StateDisconnected \<longrightarrow> se_state (fst st') = StateDisconnected)"
proof -
  obtain s g w where st: "st = (s, g, w)" by (cases st)
  have l: "legal s" using h st by (simp add: held_def)
  show ?thesis
  proof (cases op)
    case OpStop
    then show ?thesis using Stop_held [OF h [unfolded st], of E] by (auto simp: session_step_def st)
  next
    case (OpKillSwitch b)
    then show ?thesis using SetKillSwitch_held [OF h [unfolded st], of b] by (auto simp: session_step_def st)
  next
    case (OpSelect gr t)
    then show ?thesis using held_after [OF h [unfolded st] recorded_select [OF l, of g w E gr t]] by (auto simp: session_step_def st)
  next
    case (OpTurn a)
    then show ?thesis
      using held_after [OF h [unfolded st] recorded_turn [OF l, of g w E a "the sv"]] h by (cases sv) (auto simp: session_step_def st)
  qed (use h reads_held [OF h] in \<open>simp_all add: session_step_def st op s_Counters_def s_Connections_def s_CloseConnection_def Let_def held_def
      split: prod.splits option.splits\<close>)
qed

lemma session_run_held:
  assumes "held st" "OpStart \<notin> set ops"
  shows "\<exists>sv' st'. session_run E ops (sv, st) = Some (sv', st') \<and> held st' \<and>
    (se_state (fst st) = StateDisconnected \<longrightarrow> se_state (fst st') = StateDisconnected)"
  using assms
proof (induction ops arbitrary: sv st)
  case (Cons op ops)
  then obtain sv1 st1 where 1: "session_step E op (sv, st) = Some (sv1, st1)" "held st1"
    "se_state (fst st) = StateDisconnected \<longrightarrow> se_state (fst st1) = StateDisconnected"
    using session_step_held [OF Cons.prems(1), of op E sv] by auto
  from Cons.IH [OF 1(2), of sv1] Cons.prems(2) 1 show ?case by auto
qed auto

lemma started_run_held:
  assumes "held (s, g, w)" "se_state s = StateDisconnected" "\<not> se_stopping s" "\<not> se_guardApplied s" "OpStart \<notin> set ops"
  shows "\<exists>sv' st'. session_run E (OpStart # ops) (sv, s, g, w) = Some (sv', st') \<and> held st'"
proof -
  obtain e st1 where s: "Start E (s, g, w) = Some (e, st1)" "held st1" using Start_held [OF assms(1-4)] by blast
  obtain sv1 st3 where v: "start_supervision E st1 = (sv1, st3)" by (cases "start_supervision E st1")
  have "held st3" using supervision_start_held [OF s(2), of E] v by simp
  then have "\<exists>sv2 st2. session_step E OpStart (sv, s, g, w) = Some (sv2, st2) \<and> held st2"
    using s v by (cases e) (simp_all add: session_step_def)
  then obtain sv2 st2 where 2: "session_step E OpStart (sv, s, g, w) = Some (sv2, st2)" "held st2" by blast
  from session_run_held [OF 2(2) assms(5), of E sv2] 2(1) show ?thesis by auto
qed

end

interpretation nft_session: blocking_guard "guard_ops (nft_firewall prog)" "nft.in_step"
  "\<lambda>gw. gd_applied (fst gw) = zero_Settings \<and> \<not> nf_armed (fst (snd gw))" "\<lambda>gw. nf_armed (fst (snd gw))"
  for prog :: "'k nft_program"
proof unfold_locales
  fix g :: "Guard \<times> Nftables \<times> 'k" and s g'
  assume i: "nft.in_step g" and a: "gu_Apply (guard_ops (nft_firewall prog)) s g = (None, g')"
  have a: "guard_Apply (nft_firewall prog) s g = (None, g')" using a by (simp add: guard_ops_def)
  have "nft.in_step g'" using nft.guard_Apply_in_step [OF i, of prog s] a by simp
  then show "nf_armed (fst (snd g')) = ss_KillSwitch s"
    using nft.guard_Apply_ok [OF a] by (simp add: nft.in_step_def)
next
  fix g :: "Guard \<times> Nftables \<times> 'k" and s e g'
  assume "gu_Apply (guard_ops (nft_firewall prog)) s g = (Some e, g')"
  then show "nf_armed (fst (snd g')) = nf_armed (fst (snd g)) \<and>
    (gd_applied (fst g) = zero_Settings \<and> \<not> nf_armed (fst (snd g)) \<longrightarrow> gd_applied (fst g') = zero_Settings \<and> \<not> nf_armed (fst (snd g')))"
    using nft.guard_Apply_error [of prog s g e g'] by (simp add: guard_ops_def)
qed simp

text \<open>A new session with a journal of its own, guarded by a freshly built Linux kill switch.\<close>

definition fresh_linux ::
  "'w System \<Rightarrow> 'k nft_program \<Rightarrow> (Guard \<times> Nftables \<times> 'k, 'w) Config \<Rightarrow> 'w \<Rightarrow> (Guard \<times> Nftables \<times> 'k, 'w) Session \<Rightarrow>
     Guard \<Rightarrow> Nftables \<Rightarrow> bool" where
  "fresh_linux E nft cfg w s gd n \<longleftrightarrow>
     (\<exists>ports. guard_New ports (Some (nft_firewall nft)) = Inr (gd, nft_firewall nft)) \<and>
     (\<exists>uid bypass. NewNftables uid bypass = Inr n) \<and>
     session_New E cfg w = Inr s \<and> cf_Guard cfg = Some (guard_ops (nft_firewall nft)) \<and> cf_Journal cfg = None \<and>
     Networks (p_Tun (se_plan s)) \<noteq> None"

lemma fresh_linux_held:
  assumes "fresh_linux E nft cfg w s gd n"
  shows "nft_session.held nft (s, (gd, n, k), w) \<and> se_state s = StateDisconnected \<and> \<not> se_stopping s \<and> \<not> se_guardApplied s"
proof -
  have g: "\<not> gd_restoring gd" "gd_applied gd = zero_Settings" and n: "\<not> nf_armed n"
    using assms by (auto simp: fresh_linux_def guard_New_def NewNftables_def split: if_splits)
  have s: "se_guard s = guard_ops (nft_firewall nft)" "se_log s = NewJournal (cf_JournalCapacity cfg)" "se_state s = StateDisconnected"
    "st_State (se_status s) = StateDisconnected" "\<not> se_stopping s" "\<not> se_guardApplied s"
    using assms by (auto simp: fresh_linux_def session_New_def Let_def zero_Status_def split: option.splits if_splits)
  have "legal s"
    by (simp add: legal_def s history_ok_def state_events_def NewJournal_def subs_open_def)
  moreover have "nft.in_step (gd, n, k)" using g n by (simp add: nft.in_step_def zero_Settings_def)
  ultimately show ?thesis
    using s g n assms by (simp add: nft_session.held_def nft_session.guarded_def guard_view_def fresh_linux_def)
qed

lemma linux_run:
  assumes "fresh_linux E nft cfg w s gd n" "OpStart \<notin> set ops"
  shows "\<exists>sv s' g' n' k' w'. session_run E (OpStart # ops) (None, s, (gd, n, k), w) = Some (sv, s', (g', n', k'), w') \<and>
    nft_session.held nft (s', (g', n', k'), w')"
proof -
  note f = fresh_linux_held [OF assms(1), of k]
  then obtain sv st where "session_run E (OpStart # ops) (None, s, (gd, n, k), w) = Some (sv, st)" "nft_session.held nft st"
    using nft_session.started_run_held [of nft s "(gd, n, k)" w ops E None] assms(2) by blast
  moreover obtain s' g' n' k' w' where "st = (s', (g', n', k'), w')" by (cases st) auto
  ultimately show ?thesis by simp
qed


text \<open>A session on a sample plan whose engine always succeeds, over a clock.\<close>

definition sample_system :: "nat System" where
  "sample_system = \<lparr>sy_Now = int, sy_Mono = int, sy_interfaceUp = (\<lambda>d w. (None, w)), sy_plan_text = (\<lambda>es. [])\<rparr>"

definition sample_engine :: "nat Engine" where
  "sample_engine =
     \<lparr>en_State = (\<lambda>w. EngineRunning), en_Validate = (\<lambda>p w. (None, w)), en_Apply = (\<lambda>p w. (None, w + 1)),
      en_Stop = (\<lambda>w. (None, w + 1)), en_Close = (\<lambda>w. (None, w)), en_Groups = (\<lambda>w. (Inr [], w)),
      en_Select = (\<lambda>gr t w. (None, w)), en_Counters = (\<lambda>w. (Inr zero_Counters, w)), en_Subscribe = (\<lambda>w. (0, w)),
      en_Unsubscribe = (\<lambda>i w. w), en_Tracker = None\<rparr>"

definition sample_config :: "(Guard \<times> Nftables \<times> string option, nat) Config" where
  "sample_config =
     \<lparr>cf_Plan = Some sample_plan, cf_Engine = Some sample_engine, cf_Guard = Some (guard_ops (nft_firewall tool)), cf_Journal = None,
      cf_JournalCapacity = 0, cf_StatsInterval = 0, cf_StopGrace = 0, cf_Network = None, cf_NetworkInterval = 0,
      cf_Settings = zero_Settings\<lparr>ss_KillSwitch := True\<rparr>, cf_Redactor = None, cf_Now = None, cf_TunUp = None\<rparr>"

definition sample_session :: "(Guard \<times> Nftables \<times> string option, nat) Session" where
  "sample_session = projr (session_New sample_system sample_config 0)"

definition sample_guard :: Guard where
  "sample_guard = \<lparr>gd_EnginePorts = [9090], gd_applied = zero_Settings, gd_restoring = False\<rparr>"

definition sample_nft :: Nftables where
  "sample_nft = \<lparr>nf_uid = 64, nf_bypass = DefaultBypassNetworks, nf_command = ''nft'', nf_armed = False, nf_blocked = []\<rparr>"

lemma sample_session_new: "session_New sample_system sample_config 0 = Inr sample_session"
  unfolding sample_session_def
  by (simp add: session_New_def sample_config_def sample_plan_validates Let_def)

lemma sample_session_plan: "se_plan sample_session = sample_plan"
  unfolding sample_session_def
  by (simp add: session_New_def sample_config_def sample_plan_validates Let_def)

lemma sample_fresh: "fresh_linux sample_system tool sample_config 0 sample_session sample_guard sample_nft"
  unfolding fresh_linux_def
proof (intro conjI)
  show "\<exists>ports. guard_New ports (Some (nft_firewall tool)) = Inr (sample_guard, nft_firewall tool)"
    by (rule exI [of _ "[9090]"]) (simp add: guard_New_def sample_guard_def)
  show "\<exists>uid bypass. NewNftables uid bypass = Inr sample_nft"
    by (rule exI [of _ 64], rule exI [of _ "[]"]) (simp add: NewNftables_def sample_nft_def)
  show "Networks (p_Tun (se_plan sample_session)) \<noteq> None"
    unfolding sample_session_plan by (simp add: Networks_def sample_plan_def zero_defs)
  show "session_New sample_system sample_config 0 = Inr sample_session" by (rule sample_session_new)
qed (simp_all add: sample_config_def)







section \<open>A late event\<close>

definition bare_config :: "(unit, nat) Config" where
  "bare_config =
     \<lparr>cf_Plan = Some sample_plan, cf_Engine = Some sample_engine, cf_Guard = None, cf_Journal = None, cf_JournalCapacity = 0,
      cf_StatsInterval = 0, cf_StopGrace = 0, cf_Network = None, cf_NetworkInterval = 0, cf_Settings = zero_Settings,
      cf_Redactor = None, cf_Now = None, cf_TunUp = None\<rparr>"

definition late_append :: "(unit, nat) Session \<Rightarrow> bool" where
  "late_append s \<longleftrightarrow>
     (case reconnecting_locked sample_system CodeUnavailable KeyEngineStopped 0 (s, (), 0) of
        (Some ev, st1) \<Rightarrow>
          (case Stop sample_system st1 of
             Some (e, st2) \<Rightarrow>
               (case log_append sample_system ev st2 of
                  Some (s3, _) \<Rightarrow>
                    se_state s3 = StateDisconnected \<and> ev_State (last (state_events (jo_history (se_log s3)))) = StateReconnecting \<and>
                    \<not> successively follows (state_events (jo_history (se_log s3)))
                | None \<Rightarrow> False)
           | None \<Rightarrow> False)
      | _ \<Rightarrow> False)"

lemma late_append_run:
  "case session_New sample_system bare_config 0 of
     Inr s \<Rightarrow> (case Start sample_system (s, (), 0) of
                 Some (None, s1, _) \<Rightarrow> legal s1 \<and> se_state s1 = StateConnected \<and> late_append s1
               | _ \<Rightarrow> False)
   | Inl _ \<Rightarrow> False"
  by code_simp

text \<open>
  C38.  The journal can end in a state the session has left.  The engine goes down, supervision
  changes the state to reconnecting and releases the lock; the user's \<open>Stop\<close> runs to its end, and
  only then the event is appended.  The session is disconnected, and the last state a client reads
  in the journal is reconnecting, which is no legal successor of the one before it.
\<close>

theorem reconnecting_recorded_late:
  "\<exists>(s :: (unit, nat) Session) ev st1 e st2 s3 rest.
     legal s \<and> se_state s = StateConnected \<and>
     reconnecting_locked sample_system CodeUnavailable KeyEngineStopped 0 (s, (), 0) = (Some ev, st1) \<and>
     Stop sample_system st1 = Some (e, st2) \<and> log_append sample_system ev st2 = Some (s3, rest) \<and>
     se_state s3 = StateDisconnected \<and> ev_State (last (state_events (jo_history (se_log s3)))) = StateReconnecting \<and>
     \<not> successively follows (state_events (jo_history (se_log s3)))"
proof -
  obtain s where s: "legal s" "se_state s = StateConnected" "late_append s"
    using late_append_run by (auto split: sum.splits option.splits prod.splits)
  obtain ev st1 where r: "reconnecting_locked sample_system CodeUnavailable KeyEngineStopped 0 (s, (), 0) = (Some ev, st1)"
    using s(3) unfolding late_append_def by (cases "reconnecting_locked sample_system CodeUnavailable KeyEngineStopped 0 (s, (), 0)")
      (auto split: option.splits)
  obtain e st2 where p: "Stop sample_system st1 = Some (e, st2)"
    using s(3) unfolding late_append_def r by (cases "Stop sample_system st1") auto
  obtain s3 rest where a: "log_append sample_system ev st2 = Some (s3, rest)"
    using s(3) unfolding late_append_def r by (cases "log_append sample_system ev st2") (auto simp: p)
  show ?thesis
    using s(3) unfolding late_append_def r
    by (intro exI [of _ s] exI [of _ ev] exI [of _ st1] exI [of _ e] exI [of _ st2] exI [of _ s3] exI [of _ rest])
      (simp add: s(1,2) r p a)
qed

end
