(* ===== verification/SessionManager.thy ===== *)
theory SessionManager
  imports SessionLifecycle
begin

text \<open>
  The manager of sessions, \<open>session/manager.go\<close>: it owns at most one session and stops the old one
  before the new one touches the system.  The manager's lock and its \<open>busy\<close> flag let one connect or
  disconnect run at a time, so each is one step.  The session's supervision loop is kept beside the
  current session.
\<close>

text \<open>What a caller brings: the interface addresses of the system, the wording of adapter errors, its context.\<close>

record 'w Caller =
  ca_InterfaceAddrs :: "'w \<Rightarrow> string list option"
  ca_tun_text :: "tun_err \<Rightarrow> string"
  ca_Err :: "'w \<Rightarrow> goerr option"

record ('g, 'w) ManagerConfig =
  mc_Factory :: "(Plan \<Rightarrow> 'w \<Rightarrow> (goerr + 'w Engine) \<times> 'w) option"
  mc_Guard :: "'g GuardOps option"
  mc_JournalCapacity :: int
  mc_StatsInterval :: Duration
  mc_StopGrace :: Duration
  mc_Redactor :: "Redactor option"
  mc_Now :: "('w \<Rightarrow> Time) option"
  mc_TunUp :: "(string \<Rightarrow> 'w \<Rightarrow> goerr option \<times> 'w) option"
  mc_Network :: "('w \<Rightarrow> string \<times> 'w) option"

text \<open>A manager with the defaults of its configuration filled in.\<close>

record ('g, 'w) Manager =
  mg_Factory :: "Plan \<Rightarrow> 'w \<Rightarrow> (goerr + 'w Engine) \<times> 'w"
  mg_Guard :: "'g GuardOps"
  mg_JournalCapacity :: int
  mg_StatsInterval :: Duration
  mg_StopGrace :: Duration
  mg_Redactor :: "Redactor option"
  mg_Now :: "'w \<Rightarrow> Time"
  mg_TunUp :: "(string \<Rightarrow> 'w \<Rightarrow> goerr option \<times> 'w) option"
  mg_Network :: "('w \<Rightarrow> string \<times> 'w) option"
  mg_current :: "('g, 'w) Session option"
  mg_loop :: "supervision option"
  mg_last :: Status
  mg_busy :: bool

definition NewManager :: "'w System \<Rightarrow> ('g, 'w) ManagerConfig \<Rightarrow> 'w \<Rightarrow> ('g, 'w) Manager option" where
  "NewManager E cfg w =
     (case mc_Factory cfg of
        None \<Rightarrow> None
      | Some factory \<Rightarrow>
          let now = (case mc_Now cfg of None \<Rightarrow> sy_Now E | Some f \<Rightarrow> f) in
          Some \<lparr>mg_Factory = factory,
                mg_Guard = (case mc_Guard cfg of None \<Rightarrow> NoopGuard | Some g \<Rightarrow> g),
                mg_JournalCapacity = (if mc_JournalCapacity cfg \<le> 0 then DefaultJournalCapacity else mc_JournalCapacity cfg),
                mg_StatsInterval = (if mc_StatsInterval cfg \<le> 0 then DefaultStatsInterval else mc_StatsInterval cfg),
                mg_StopGrace = (if mc_StopGrace cfg \<le> 0 then DefaultStopGrace else mc_StopGrace cfg),
                mg_Redactor = mc_Redactor cfg, mg_Now = now, mg_TunUp = mc_TunUp cfg, mg_Network = mc_Network cfg,
                mg_current = None, mg_loop = None,
                mg_last = zero_Status\<lparr>st_State := StateDisconnected, st_ChangedAt := now w\<rparr>, mg_busy = False\<rparr>)"

type_synonym ('g, 'w) mgr = "('g, 'w) Manager \<times> 'g \<times> 'w"

definition busy_error :: goerr where
  "busy_error = Newf CodeFailedPrecondition KeySessionBusy ''session: another connect or disconnect is running''"

definition release :: "('g, 'w) Manager \<Rightarrow> ('g, 'w) Manager" where
  "release m = m\<lparr>mg_busy := False\<rparr>"

definition setLast :: "Status \<Rightarrow> ('g, 'w) Manager \<Rightarrow> ('g, 'w) Manager" where
  "setLast status m = m\<lparr>mg_last := status\<rparr>"

definition session_config :: "('g, 'w) Manager \<Rightarrow> Plan \<Rightarrow> 'w Engine \<Rightarrow> Settings \<Rightarrow> ('g, 'w) Config" where
  "session_config m plan built settings =
     \<lparr>cf_Plan = Some plan, cf_Engine = Some built, cf_Guard = Some (mg_Guard m),
      cf_Journal = Some (NewJournal (mg_JournalCapacity m)), cf_JournalCapacity = 0,
      cf_StatsInterval = mg_StatsInterval m, cf_StopGrace = mg_StopGrace m, cf_Network = mg_Network m, cf_NetworkInterval = 0,
      cf_Settings = settings, cf_Redactor = mg_Redactor m, cf_Now = Some (mg_Now m), cf_TunUp = mg_TunUp m\<rparr>"

text \<open>Stop the session there is; only if that succeeds nothing is current any more.\<close>

definition stop_previous :: "'w System \<Rightarrow> ('g, 'w) mgr \<Rightarrow> (goerr option \<times> ('g, 'w) mgr) option" where
  "stop_previous E st =
     (let (m, g, w) = st in
      case mg_current m of
        None \<Rightarrow> Some (None, m, g, w)
      | Some previous \<Rightarrow>
          do {
            (err, s, g1, w1) \<leftarrow> Stop E (previous, g, w);
            let m1 = setLast (se_status s) (m\<lparr>mg_current := Some s\<rparr>);
            Some (err, (if err = None then m1\<lparr>mg_current := None, mg_loop := None\<rparr> else m1), g1, w1)
          })"

text \<open>Start the new session; a failed start is cleaned up, and stays current if that fails too.\<close>

definition start_created :: "'w System \<Rightarrow> ('g, 'w) Session \<Rightarrow> ('g, 'w) mgr \<Rightarrow> (goerr option \<times> ('g, 'w) mgr) option" where
  "start_created E created st =
     (let (m, g, w) = st in
      do {
        (err, s1, g1, w1) \<leftarrow> Start E (created, g, w);
        (case err of
           None \<Rightarrow>
             (case start_supervision E (s1, g1, w1) of
                (sv, s2, g2, w2) \<Rightarrow>
                  Some (None, m\<lparr>mg_current := Some s2, mg_loop := Some sv, mg_last := se_status s2\<rparr>, g2, w2))
         | Some e \<Rightarrow>
             do {
               (cleanupErr, s2, g2, w2) \<leftarrow> Stop E (s1, g1, w1);
               Some (case cleanupErr of
                       None \<Rightarrow> (Some e, setLast (se_status s1) m, g2, w2)
                     | Some c \<Rightarrow>
                         (map_option (\<lambda>j. Wrap j (CodeOf (Some c)) (KeyOf (Some c))) (err_join [Some e, Some c]),
                          setLast (se_status s1) (m\<lparr>mg_current := Some s2, mg_loop := None\<rparr>), g2, w2))
             })
      })"

definition close_built :: "'w Engine \<Rightarrow> 'w \<Rightarrow> 'w" where
  "close_built eng w = snd (en_Close eng w)"

text \<open>Everything that can be refused before the system is touched.\<close>

definition prepare_connect ::
  "'w System \<Rightarrow> 'w Caller \<Rightarrow> ('g, 'w) Manager \<Rightarrow> Plan option \<Rightarrow> Settings \<Rightarrow> 'w \<Rightarrow> (goerr + ('g, 'w) Session) \<times> 'w" where
  "prepare_connect E C m plan settings w =
     (case PrepareTun (ca_InterfaceAddrs C w) plan of
        (_, Some e) \<Rightarrow> (Inl (Wrap (TextE (ca_tun_text C e)) CodeFailedPrecondition KeyPlanTunnel), w)
      | (None, None) \<Rightarrow> (Inl (Wrap (TextE (ca_tun_text C TunNilPlan)) CodeFailedPrecondition KeyPlanTunnel), w)
      | (Some prepared, None) \<Rightarrow>
          (case mg_Factory m prepared w of
             (Inl e, w1) \<Rightarrow> (Inl e, w1)
           | (Inr built, w1) \<Rightarrow>
               (case session_New E (session_config m prepared built settings) w1 of
                  Inl e \<Rightarrow> (Inl e, close_built built w1)
                | Inr created \<Rightarrow>
                    (case en_Validate built prepared w1 of
                       (Some e, w2) \<Rightarrow> (Inl (Wrap e CodeInvalidArgument KeyPlanOutbounds), close_built built w2)
                     | (None, w2) \<Rightarrow>
                         (case ca_Err C w2 of
                            Some e \<Rightarrow> (Inl e, close_built built w2)
                          | None \<Rightarrow> (Inr created, w2))))))"

definition Connect ::
  "'w System \<Rightarrow> 'w Caller \<Rightarrow> Plan option \<Rightarrow> Settings \<Rightarrow> ('g, 'w) mgr \<Rightarrow> (goerr option \<times> ('g, 'w) mgr) option" where
  "Connect E C plan settings st =
     (let (m, g, w) = st in
      if mg_busy m then Some (Some busy_error, st)
      else
        let m0 = m\<lparr>mg_busy := True\<rparr> in
        (case prepare_connect E C m0 plan settings w of
           (Inl e, w1) \<Rightarrow> Some (Some e, release m0, g, w1)
         | (Inr created, w1) \<Rightarrow>
             do {
               (err, m1, g1, w2) \<leftarrow> stop_previous E (m0, g, w1);
               (case err of
                  Some e \<Rightarrow> Some (Some e, release m1, g1, close_built (se_eng created) w2)
                | None \<Rightarrow>
                    do {
                      (err2, m2, g2, w3) \<leftarrow> start_created E created (m1, g1, w2);
                      Some (err2, release m2, g2, w3)
                    })
             }))"

definition Disconnect :: "'w System \<Rightarrow> ('g, 'w) mgr \<Rightarrow> (goerr option \<times> ('g, 'w) mgr) option" where
  "Disconnect E st =
     (let (m, g, w) = st in
      if mg_busy m then Some (Some busy_error, st)
      else
        case mg_current m of
          None \<Rightarrow> Some (None, release (setLast (zero_Status\<lparr>st_State := StateDisconnected, st_ChangedAt := mg_Now m w\<rparr>) m), g, w)
        | Some current \<Rightarrow>
            do {
              (err, m1, g1, w1) \<leftarrow> stop_previous E (m\<lparr>mg_busy := True\<rparr>, g, w);
              Some (err, release m1, g1, w1)
            })"

definition Shutdown :: "'w System \<Rightarrow> ('g, 'w) mgr \<Rightarrow> (goerr option \<times> ('g, 'w) mgr) option" where
  "Shutdown E st = Disconnect E st"

definition manager_Status :: "('g, 'w) Manager \<Rightarrow> Status" where
  "manager_Status m = (case mg_current m of Some s \<Rightarrow> se_status s | None \<Rightarrow> mg_last m)"

section \<open>Histories\<close>

datatype mgr_op = MConnect "Plan option" Settings | MDisconnect | MSession sess_op

text \<open>Clients reach the current session with any call but those the manager makes itself.\<close>

definition manager_step :: "'w System \<Rightarrow> 'w Caller \<Rightarrow> mgr_op \<Rightarrow> ('g, 'w) mgr \<Rightarrow> ('g, 'w) mgr option" where
  "manager_step E C op st =
     (let (m, g, w) = st in
      case op of
        MConnect plan settings \<Rightarrow> map_option snd (Connect E C plan settings st)
      | MDisconnect \<Rightarrow> map_option snd (Disconnect E st)
      | MSession sop \<Rightarrow>
          (case mg_current m of
             None \<Rightarrow> Some st
           | Some s \<Rightarrow>
               if sop \<in> {OpStart, OpStop} then Some st
               else map_option (\<lambda>(sv, s', g', w'). (m\<lparr>mg_current := Some s', mg_loop := sv\<rparr>, g', w'))
                      (session_step E sop (mg_loop m, s, g, w))))"

fun manager_run :: "'w System \<Rightarrow> 'w Caller \<Rightarrow> mgr_op list \<Rightarrow> ('g, 'w) mgr \<Rightarrow> ('g, 'w) mgr option" where
  "manager_run E C [] st = Some st"
| "manager_run E C (op # ops) st = Option.bind (manager_step E C op st) (manager_run E C ops)"

section \<open>Nothing is left behind\<close>

text \<open>The networks of every plan that is connected can be read back after its adapter was prepared.\<close>

definition readable_networks :: "'w Caller \<Rightarrow> Plan option \<Rightarrow> bool" where
  "readable_networks C plan \<longleftrightarrow>
     (\<forall>w prepared. PrepareTun (ca_InterfaceAddrs C w) plan = (Some prepared, None) \<longrightarrow> Networks (p_Tun prepared) \<noteq> None)"

lemma prepare_connect_created:
  assumes "prepare_connect E C m plan settings w = (Inr created, w')"
  shows "\<exists>prepared built w1. PrepareTun (ca_InterfaceAddrs C w) plan = (Some prepared, None) \<and>
    session_New E (session_config m prepared built settings) w1 = Inr created"
  using assms by (auto simp: prepare_connect_def split: prod.splits option.splits sum.splits)

lemma session_New_fields:
  assumes "session_New E (session_config m plan built settings) w = Inr s"
  shows "se_plan s = plan \<and> se_guard s = mg_Guard m \<and> legal s \<and> se_state s = StateDisconnected \<and> \<not> se_stopping s \<and> \<not> se_guardApplied s"
  using assms
  by (auto simp: session_New_def session_config_def Let_def legal_def zero_Status_def NewJournal_def subs_open_def
      history_ok_def state_events_def split: if_splits)

context blocking_guard
begin

definition managed :: "('g, 'w) mgr \<Rightarrow> bool" where
  "managed st \<longleftrightarrow>
     (case st of (m, g, w) \<Rightarrow>
        mg_Guard m = G \<and> inv g \<and> (case mg_current m of None \<Rightarrow> clean g | Some s \<Rightarrow> held (s, g, w)))"

lemma held_clean: "held (s, g, w) \<Longrightarrow> \<not> se_guardApplied s \<Longrightarrow> clean g"
  by (simp add: held_def guarded_def guard_view_def)

lemma held_inv: "held (s, g, w) \<Longrightarrow> inv g"
  by (simp add: held_def guarded_def guard_view_def)

lemma stop_previous_managed:
  assumes "managed (m, g, w)"
  shows "\<exists>err m' g' w'. stop_previous E (m, g, w) = Some (err, m', g', w') \<and> managed (m', g', w') \<and>
    (err = None \<longrightarrow> mg_current m' = None) \<and> mg_busy m' = mg_busy m"
proof (cases "mg_current m")
  case None
  then show ?thesis using assms by (simp add: stop_previous_def)
next
  case (Some s)
  then have h: "held (s, g, w)" using assms by (simp add: managed_def)
  obtain e s' g' w' where st: "Stop E (s, g, w) = Some (e, s', g', w')" "held (s', g', w')" "e = None \<longrightarrow> \<not> se_guardApplied s'"
    using Stop_held [OF h, of E] by (elim exE conjE)
  define m1 where "m1 = setLast (se_status s') (m\<lparr>mg_current := Some s'\<rparr>)"
  have run: "stop_previous E (m, g, w) = Some (e, (if e = None then m1\<lparr>mg_current := None, mg_loop := None\<rparr> else m1), g', w')"
    by (simp add: stop_previous_def Some st(1) m1_def Let_def)
  have "managed (if e = None then m1\<lparr>mg_current := None, mg_loop := None\<rparr> else m1, g', w')"
    using assms st(2,3) held_clean [OF st(2)] held_inv [OF st(2)] by (simp add: managed_def m1_def setLast_def)
  then show ?thesis using run by (simp add: m1_def setLast_def)
qed

lemma start_created_managed:
  assumes "managed (m, g, w)" "mg_current m = None" "held (created, g, w)"
    and "se_state created = StateDisconnected" "\<not> se_stopping created" "\<not> se_guardApplied created"
  shows "\<exists>err m' g' w'. start_created E created (m, g, w) = Some (err, m', g', w') \<and> managed (m', g', w') \<and> mg_busy m' = mg_busy m"
proof -
  obtain e s1 g1 w1 where s: "Start E (created, g, w) = Some (e, s1, g1, w1)" "held (s1, g1, w1)"
    using Start_held [OF assms(3-6), of E] by auto
  show ?thesis
  proof (cases e)
    case None
    obtain sv s2 g2 w2 where v: "start_supervision E (s1, g1, w1) = (sv, s2, g2, w2)" by (cases "start_supervision E (s1, g1, w1)") auto
    have "held (s2, g2, w2)" using supervision_start_held [OF s(2), of E] v by simp
    then show ?thesis using assms(1) s(1) None v held_inv by (simp add: start_created_def managed_def)
  next
    case (Some x)
    obtain c s2 g2 w2 where p: "Stop E (s1, g1, w1) = Some (c, s2, g2, w2)" "held (s2, g2, w2)" "c = None \<longrightarrow> \<not> se_guardApplied s2"
      using Stop_held [OF s(2), of E] by (elim exE conjE)
    show ?thesis
      using assms(1,2) s(1) Some p(1,3) held_clean [OF p(2)] held_inv [OF p(2)] p(2)
      by (cases c) (simp_all add: start_created_def managed_def setLast_def)
  qed
qed

lemma managed_release [simp]: "managed (release m, g, w) = managed (m, g, w)"
  by (simp add: managed_def release_def)

lemma managed_world: "managed (m, g, w) \<Longrightarrow> managed (m, g, w')"
  using held_world by (auto simp: managed_def split: option.splits)

lemma managed_busy [simp]: "managed (m\<lparr>mg_busy := b\<rparr>, g, w) = managed (m, g, w)"
  by (simp add: managed_def)

lemma Connect_managed:
  assumes m: "managed (m, g, w)" and n: "readable_networks C plan"
  shows "\<exists>err m' g' w'. Connect E C plan settings (m, g, w) = Some (err, m', g', w') \<and> managed (m', g', w')"
proof (cases "mg_busy m")
  case True
  then show ?thesis using m by (simp add: Connect_def)
next
  case False
  define m0 where "m0 = m\<lparr>mg_busy := True\<rparr>"
  obtain r w1 where p: "prepare_connect E C m0 plan settings w = (r, w1)" by (cases "prepare_connect E C m0 plan settings w")
  have m1: "managed (m0, g, w1)" using managed_world [OF m] by (simp add: m0_def)
  show ?thesis
  proof (cases r)
    case (Inl e)
    then show ?thesis using m1 p False by (simp add: Connect_def m0_def [symmetric])
  next
    case (Inr created)
    obtain err m2 g2 w2 where q: "stop_previous E (m0, g, w1) = Some (err, m2, g2, w2)" "managed (m2, g2, w2)" "err = None \<longrightarrow> mg_current m2 = None"
      using stop_previous_managed [OF m1, of E] by (elim exE conjE)
    obtain prepared built w0 where c: "PrepareTun (ca_InterfaceAddrs C w) plan = (Some prepared, None)"
      "session_New E (session_config m0 prepared built settings) w0 = Inr created"
      using prepare_connect_created [OF p [unfolded Inr]] by (elim exE conjE)
    note f = session_New_fields [OF c(2)]
    have nets: "Networks (p_Tun (se_plan created)) \<noteq> None" using n c(1) f unfolding readable_networks_def by metis
    show ?thesis
    proof (cases err)
      case (Some e)
      then show ?thesis using q managed_world [OF q(2)] p Inr False by (simp add: Connect_def m0_def [symmetric])
    next
      case None
      have cl: "clean g2" "inv g2" using q(2,3) None by (simp_all add: managed_def)
      have h: "held (created, g2, w2)"
        using f nets cl m by (simp add: held_def guarded_def guard_view_def managed_def m0_def)
      have cur: "mg_current m2 = None" using q(3) None by simp
      have "\<exists>err m' g' w'. start_created E created (m2, g2, w2) = Some (err, m', g', w') \<and> managed (m', g', w') \<and> mg_busy m' = mg_busy m2"
        using f by (intro start_created_managed q(2) cur h) simp_all
      then show ?thesis using q(1) None p Inr False by (elim exE conjE) (simp add: Connect_def m0_def [symmetric])
    qed
  qed
qed

lemma Disconnect_managed:
  assumes "managed (m, g, w)"
  shows "\<exists>err m' g' w'. Disconnect E (m, g, w) = Some (err, m', g', w') \<and> managed (m', g', w') \<and> (err = None \<longrightarrow> mg_current m' = None)"
proof (cases "mg_busy m \<or> mg_current m = None")
  case True
  then show ?thesis
    using assms by (cases "mg_busy m") (simp_all add: Disconnect_def managed_def setLast_def release_def busy_error_def)
next
  case False
  have "managed (m\<lparr>mg_busy := True\<rparr>, g, w)" using assms by simp
  from stop_previous_managed [OF this, of E] show ?thesis
    using False by (elim exE conjE) (auto simp: Disconnect_def release_def [abs_def] managed_def)
qed

lemma manager_step_managed:
  assumes m: "managed (m, g, w)" and n: "\<And>plan settings. op = MConnect plan settings \<Longrightarrow> readable_networks C plan"
  shows "\<exists>st'. manager_step E C op (m, g, w) = Some st' \<and> managed st'"
proof (cases op)
  case (MConnect plan settings)
  then show ?thesis
    using Connect_managed [OF m n [OF MConnect], of E settings] by (elim exE conjE) (simp add: manager_step_def)
next
  case MDisconnect
  then show ?thesis using Disconnect_managed [OF m, of E] by (elim exE conjE) (simp add: manager_step_def)
next
  case (MSession sop)
  show ?thesis
  proof (cases "mg_current m")
    case None
    then show ?thesis using m MSession by (simp add: manager_step_def)
  next
    case (Some s)
    have h: "held (s, g, w)" using m Some by (simp add: managed_def)
    show ?thesis
    proof (cases "sop \<in> {OpStart, OpStop}")
      case True
      then show ?thesis using m MSession Some by (auto simp: manager_step_def)
    next
      case False
      then have "sop \<noteq> OpStart" by simp
      from session_step_held [OF h this, of E "mg_loop m"] obtain sv' s' g' w'
        where r: "session_step E sop (mg_loop m, s, g, w) = Some (sv', s', g', w')" "held (s', g', w')" by auto
      then have "managed (m\<lparr>mg_current := Some s', mg_loop := sv'\<rparr>, g', w')"
        using m held_inv [OF r(2)] by (simp add: managed_def)
      then show ?thesis using r(1) MSession Some False by (simp add: manager_step_def)
    qed
  qed
qed

lemma manager_run_managed:
  assumes "managed st" "\<And>plan settings. MConnect plan settings \<in> set ops \<Longrightarrow> readable_networks C plan"
  shows "\<exists>st'. manager_run E C ops st = Some st' \<and> managed st'"
  using assms
proof (induction ops arbitrary: st)
  case (Cons op ops)
  obtain m g w where st: "st = (m, g, w)" by (cases st)
  have "\<exists>st1. manager_step E C op (m, g, w) = Some st1 \<and> managed st1"
    using Cons.prems st by (intro manager_step_managed) auto
  then obtain st1 where 1: "manager_step E C op st = Some st1" "managed st1" using st by auto
  have "\<exists>st'. manager_run E C ops st1 = Some st' \<and> managed st'"
    using Cons.prems(2) by (intro Cons.IH [OF 1(2)]) auto
  then show ?case by (simp add: 1(1))
qed simp

end

text \<open>
  C14.  However the client connects, reconnects, changes the kill switch and disconnects, and
  however engines, adapters and \<open>nft\<close> fail along the way, the manager never panics and leaves
  nothing behind: whenever it has no session, the firewall is not armed, and a \<open>Disconnect\<close> that
  reports success leaves it without one.  The hypothesis on the plans is that the prepared adapter's
  networks can be read back from their text.
\<close>

theorem manager_leaves_nothing:
  assumes "NewManager E cfg w = Some m" "mc_Guard cfg = Some (guard_ops (nft_firewall nft))"
    and "guard_New ports (Some (nft_firewall nft)) = Inr (gd, fw)" "NewNftables uid bypass = Inr n"
    and "\<forall>plan settings. MConnect plan settings \<in> set ops \<longrightarrow> readable_networks C plan"
  shows "\<exists>m' g' n' k' w'. manager_run E C ops (m, (gd, n, k), w) = Some (m', (g', n', k'), w') \<and>
    (mg_current m' = None \<longrightarrow> \<not> nf_armed n') \<and>
    (\<exists>err m2 g2 n2 k2 w2. Disconnect E (m', (g', n', k'), w') = Some (err, m2, (g2, n2, k2), w2) \<and>
       (err = None \<longrightarrow> mg_current m2 = None \<and> \<not> nf_armed n2))"
proof -
  have g: "\<not> gd_restoring gd" "gd_applied gd = zero_Settings" and n: "\<not> nf_armed n"
    using assms(3,4) by (auto simp: guard_New_def NewNftables_def split: if_splits)
  have m: "mg_Guard m = guard_ops (nft_firewall nft)" "mg_current m = None"
    using assms(1,2) by (auto simp: NewManager_def Let_def split: option.splits)
  have "nft_session.managed nft (m, (gd, n, k), w)"
    using g n m unfolding nft_session.managed_def by (simp add: nft.in_step_def) (simp add: zero_Settings_def)
  then obtain st where r: "manager_run E C ops (m, (gd, n, k), w) = Some st" "nft_session.managed nft st"
    using nft_session.manager_run_managed [of nft "(m, (gd, n, k), w)" ops C E] assms(5) by blast
  obtain m' g' n' k' w' where st: "st = (m', (g', n', k'), w')" by (cases st) auto
  have a: "mg_current m' = None \<longrightarrow> \<not> nf_armed n'" using r(2) by (simp add: st nft_session.managed_def split: option.splits)
  obtain err m2 g2 w2 where d: "Disconnect E (m', (g', n', k'), w') = Some (err, m2, g2, w2)" "nft_session.managed nft (m2, g2, w2)"
    "err = None \<longrightarrow> mg_current m2 = None"
    using nft_session.Disconnect_managed [OF r(2) [unfolded st], of E] by (elim exE conjE)
  obtain g3 n3 k3 where g2: "g2 = (g3, n3, k3)" by (cases g2)
  have "err = None \<longrightarrow> mg_current m2 = None \<and> \<not> nf_armed n3"
    using d(2,3) by (auto simp: g2 nft_session.managed_def)
  then show ?thesis
    using r(1) st a d(1) g2
    by (intro exI [of _ m'] exI [of _ g'] exI [of _ n'] exI [of _ k'] exI [of _ w'] conjI
        exI [of _ err] exI [of _ m2] exI [of _ g3] exI [of _ n3] exI [of _ k3] exI [of _ w2]) simp_all
qed

definition sample_manager_config :: "(Guard \<times> Nftables \<times> string option, nat) ManagerConfig" where
  "sample_manager_config =
     \<lparr>mc_Factory = Some (\<lambda>plan w. (Inr sample_engine, w)), mc_Guard = Some (guard_ops (nft_firewall tool)), mc_JournalCapacity = 0,
      mc_StatsInterval = 0, mc_StopGrace = 0, mc_Redactor = None, mc_Now = None, mc_TunUp = None, mc_Network = None\<rparr>"

definition sample_caller :: "nat Caller" where
  "sample_caller = \<lparr>ca_InterfaceAddrs = (\<lambda>w. Some []), ca_tun_text = (\<lambda>e. []), ca_Err = (\<lambda>w. None)\<rparr>"

lemma sample_readable: "readable_networks sample_caller (Some sample_plan)"
  by (simp add: readable_networks_def PrepareTun_def sample_plan_def zero_defs Networks_def)

theorem manager_leaves_nothing_witness:
  "\<exists>m' g' n' k' w'. manager_run sample_system sample_caller [MConnect (Some sample_plan) (zero_Settings\<lparr>ss_KillSwitch := True\<rparr>), MDisconnect]
      (the (NewManager sample_system sample_manager_config 0), (sample_guard, sample_nft, None), 0) = Some (m', (g', n', k'), w') \<and>
    (mg_current m' = None \<longrightarrow> \<not> nf_armed n')"
proof -
  have m: "NewManager sample_system sample_manager_config 0 = Some (the (NewManager sample_system sample_manager_config 0))"
    by (simp add: NewManager_def sample_manager_config_def Let_def)
  have c: "mc_Guard sample_manager_config = Some (guard_ops (nft_firewall tool))" by (simp add: sample_manager_config_def)
  have g: "guard_New [9090] (Some (nft_firewall tool)) = Inr (sample_guard, nft_firewall tool)"
    by (simp add: guard_New_def sample_guard_def)
  have n: "NewNftables 64 [] = Inr sample_nft" by (simp add: NewNftables_def sample_nft_def)
  let ?ops = "[MConnect (Some sample_plan) (zero_Settings\<lparr>ss_KillSwitch := True\<rparr>), MDisconnect]"
  have r: "\<forall>plan settings. MConnect plan settings \<in> set ?ops \<longrightarrow> readable_networks sample_caller plan"
    using sample_readable by simp
  show ?thesis
    using manager_leaves_nothing [OF m c g n r, of None] by (elim exE conjE) (intro exI conjI, assumption+)
qed

end
