(* ===== verification/ProcessOutput.thy ===== *)
theory ProcessOutput
  imports EventStreams
begin

text \<open>
  The output of an engine process: the bounded tail kept for crash reports (\<open>supervise/host.go\<close>)
  and the assembly of complete lines from the chunks a pipe delivers (\<open>supervise/process.go\<close>).
  The emitted lines are collected in a list.
\<close>

text \<open>\<open>strings.TrimRight\<close> with a set of one byte.\<close>

definition trim_right :: "char \<Rightarrow> string \<Rightarrow> string" where
  "trim_right c s = rev (dropWhile (\<lambda>x. x = c) (rev s))"

abbreviation newline :: char where "newline \<equiv> CHR 0x0A"
abbreviation return_char :: char where "return_char \<equiv> CHR 0x0D"

section \<open>The tail\<close>

record Tail =
  ta_lines :: "string list"
  ta_max :: nat

definition NewTail :: "int \<Rightarrow> Tail" where
  "NewTail limit = \<lparr>ta_lines = [], ta_max = nat (if limit \<le> 0 then 50 else limit)\<rparr>"

definition tail_line :: "string \<Rightarrow> Tail \<Rightarrow> Tail" where
  "tail_line raw t =
     (let line = trim_right return_char raw in
      if line = [] then t
      else
        let ls = ta_lines t @ [line]
        in t\<lparr>ta_lines := (if length ls > ta_max t then drop (length ls - ta_max t) ls else ls)\<rparr>)"

definition tail_Write :: "string \<Rightarrow> Tail \<Rightarrow> Tail" where
  "tail_Write p t = fold tail_line (Split (trim_right newline p) newline) t"

definition tail_Last :: "int \<Rightarrow> Tail \<Rightarrow> string" where
  "tail_Last n t =
     Join (if 0 \<le> n \<and> int (length (ta_lines t)) > n then drop (length (ta_lines t) - nat n) (ta_lines t) else ta_lines t) [newline]"

definition tail_String :: "Tail \<Rightarrow> string" where
  "tail_String t = tail_Last (int (ta_max t)) t"

section \<open>Lines\<close>

definition maxLine :: nat where
  "maxLine = 65536"

record lineWriter =
  lw_buf :: string
  lw_emitted :: "string list"

function take_lines :: "string \<Rightarrow> string list \<Rightarrow> string list \<times> string" where
  "take_lines buf out =
     (case cut_first (\<lambda>c. c = newline) buf of
        None \<Rightarrow> (out, buf)
      | Some (line, rest) \<Rightarrow> take_lines rest (out @ [trim_right return_char line]))"
  by auto

lemma cut_first_shorter: "cut_first p s = Some (a, b) \<Longrightarrow> length b < length s"
  by (induction s arbitrary: a) (auto split: if_splits)

termination take_lines
  by (relation "measure (\<lambda>(buf, out). length buf)") (auto dest: cut_first_shorter)

declare take_lines.simps [simp del]

definition lw_Write :: "string \<Rightarrow> lineWriter \<Rightarrow> lineWriter" where
  "lw_Write p lw =
     (case take_lines (lw_buf lw @ p) (lw_emitted lw) of
        (out, buf) \<Rightarrow>
          if length buf > maxLine then \<lparr>lw_buf = [], lw_emitted = out @ [buf]\<rparr>
          else \<lparr>lw_buf = buf, lw_emitted = out\<rparr>)"

definition lw_flush :: "lineWriter \<Rightarrow> lineWriter" where
  "lw_flush lw =
     (if lw_buf lw \<noteq> [] then \<lparr>lw_buf = [], lw_emitted = lw_emitted lw @ [lw_buf lw]\<rparr> else lw)"

section \<open>The tail is the end of the output\<close>

definition kept_lines :: "string \<Rightarrow> string list" where
  "kept_lines p = filter (\<lambda>l. l \<noteq> []) (map (trim_right return_char) (Split (trim_right newline p) newline))"

lemma tail_line_last:
  "ta_lines t = last_n (ta_max t) ls \<Longrightarrow>
     ta_max (tail_line raw t) = ta_max t \<and>
     ta_lines (tail_line raw t) = last_n (ta_max t) (ls @ filter (\<lambda>l. l \<noteq> []) [trim_right return_char raw])"
  using last_n_append1 [of "ta_max t" ls "trim_right return_char raw"]
  by (auto simp: tail_line_def Let_def last_n_def)

lemma tail_fold_last:
  "ta_lines t = last_n (ta_max t) ls \<Longrightarrow>
     ta_max (fold tail_line raws t) = ta_max t \<and>
     ta_lines (fold tail_line raws t) = last_n (ta_max t) (ls @ filter (\<lambda>l. l \<noteq> []) (map (trim_right return_char) raws))"
proof (induction raws arbitrary: t ls)
  case (Cons raw raws)
  note step = tail_line_last [OF Cons.prems, of raw]
  then have "ta_lines (tail_line raw t) = last_n (ta_max (tail_line raw t)) (ls @ filter (\<lambda>l. l \<noteq> []) [trim_right return_char raw])"
    by simp
  from Cons.IH [OF this] step show ?case by simp
qed simp

text \<open>However the output is cut into writes, the tail holds the newest non-empty lines of them.\<close>

lemma tail_writes:
  "ta_lines (fold tail_Write ps (NewTail limit)) =
     last_n (ta_max (NewTail limit)) (concat (map kept_lines ps))"
proof -
  have "ta_lines t = last_n (ta_max t) ls \<Longrightarrow>
     ta_max (fold tail_Write ps t) = ta_max t \<and>
     ta_lines (fold tail_Write ps t) = last_n (ta_max t) (ls @ concat (map kept_lines ps))" for t ls
  proof (induction ps arbitrary: t ls)
    case (Cons p ps)
    note step = tail_fold_last [OF Cons.prems, of "Split (trim_right newline p) newline"]
    then have "ta_lines (tail_Write p t) = last_n (ta_max (tail_Write p t)) (ls @ kept_lines p)"
      by (simp add: tail_Write_def kept_lines_def)
    from Cons.IH [OF this] step show ?case by (simp add: tail_Write_def)
  qed simp
  from this [of "NewTail limit" "[]"] show ?thesis by (simp add: NewTail_def last_n_def)
qed

section \<open>Lines do not depend on the chunks\<close>

text \<open>The finished lines of a text and what follows its last newline.\<close>

definition finished :: "string \<Rightarrow> string list" where
  "finished s = map (trim_right return_char) (butlast (Split s newline))"

definition unfinished :: "string \<Rightarrow> string" where
  "unfinished s = last (Split s newline)"

lemma cut_first_Split:
  "cut_first (\<lambda>c. c = sep) s = None \<Longrightarrow> Split s sep = [s]"
  "cut_first (\<lambda>c. c = sep) s = Some (a, b) \<Longrightarrow> Split s sep = a # Split b sep"
  by (induction s arbitrary: a) (auto split: if_splits)

lemma take_lines_Split: "take_lines s out = (out @ finished s, unfinished s)"
proof (induction s out rule: take_lines.induct)
  case (1 s out)
  show ?case
  proof (cases "cut_first (\<lambda>c. c = newline) s")
    case None
    then show ?thesis by (subst take_lines.simps) (simp add: finished_def unfinished_def cut_first_Split(1) [OF None])
  next
    case (Some ab)
    obtain a b where ab: "ab = (a, b)" by (cases ab)
    from 1 [OF Some [unfolded ab] refl] show ?thesis
      by (subst take_lines.simps) (simp add: Some ab finished_def unfinished_def cut_first_Split(2) [OF Some [unfolded ab]])
  qed
qed

lemma Split_append2: "Split (a @ b) sep = butlast (Split a sep) @ Split (last (Split a sep) @ b) sep"
proof (induction a)
  case (Cons c a)
  obtain f fs where f: "Split a sep = f # fs" by (cases "Split a sep") simp_all
  show ?case
  proof (cases "c = sep")
    case False
    have "c \<noteq> sep \<Longrightarrow> Split ((c # x) @ b) sep = (case Split (x @ b) sep of [] \<Rightarrow> [[c]] | y # ys \<Rightarrow> (c # y) # ys)" for x
      by simp
    then show ?thesis using Cons False f by (cases fs) (auto split: list.splits)
  qed (use Cons f in auto)
qed simp

lemma finished_append: "finished (a @ b) = finished a @ finished (unfinished a @ b)"
  by (simp add: finished_def unfinished_def Split_append2 [of a b] butlast_append)

lemma unfinished_append: "unfinished (a @ b) = unfinished (unfinished a @ b)"
  by (simp add: unfinished_def Split_append2 [of a b])

definition short_lines :: "string \<Rightarrow> bool" where
  "short_lines s \<longleftrightarrow> (\<forall>l \<in> set (Split s newline). length l \<le> maxLine)"

lemma Split_long_head: "sep \<notin> set u \<Longrightarrow> \<exists>l ls. Split (u @ b) sep = l # ls \<and> length u \<le> length l"
proof (induction u)
  case Nil
  then show ?case by (cases "Split b sep") auto
qed auto

lemma unfinished_prefix: "\<exists>l \<in> set (Split (a @ b) newline). length (unfinished a) \<le> length l"
proof -
  have "newline \<notin> set (unfinished a)" using Split_no_sep [of "unfinished a" a newline] by (simp add: unfinished_def)
  from Split_long_head [OF this, of b] show ?thesis by (auto simp: Split_append2 [of a b] unfinished_def)
qed

lemma lw_writes:
  assumes "short_lines (concat ps)"
  shows "fold lw_Write ps \<lparr>lw_buf = [], lw_emitted = []\<rparr> =
    \<lparr>lw_buf = unfinished (concat ps), lw_emitted = finished (concat ps)\<rparr>"
proof -
  have "short_lines (pre @ concat ps) \<Longrightarrow> fold lw_Write ps \<lparr>lw_buf = unfinished pre, lw_emitted = finished pre\<rparr> =
    \<lparr>lw_buf = unfinished (pre @ concat ps), lw_emitted = finished (pre @ concat ps)\<rparr>" for pre
  proof (induction ps arbitrary: pre)
    case (Cons p ps)
    have "length (unfinished (pre @ p)) \<le> maxLine"
      using unfinished_prefix [of "pre @ p" "concat ps"] Cons.prems by (auto simp: short_lines_def)
    then have "lw_Write p \<lparr>lw_buf = unfinished pre, lw_emitted = finished pre\<rparr> =
      \<lparr>lw_buf = unfinished (pre @ p), lw_emitted = finished (pre @ p)\<rparr>"
      by (simp add: lw_Write_def take_lines_Split finished_append [of pre p] unfinished_append [of pre p])
    then show ?case using Cons.IH [of "pre @ p"] Cons.prems by simp
  qed simp
  from this [of "[]"] assms show ?thesis by (simp add: finished_def unfinished_def)
qed



end
