(* ===== verification/GoBase64.thy ===== *)
theory GoBase64
  imports GoNetip
begin

text \<open>
  Go's \<open>encoding/base64\<close> and \<open>encoding/hex\<close>.  For base64 there are the standard and the URL alphabet, with padding and without.  The
  decoders are the lenient ones the code uses: line breaks are skipped, and the unused bits of a
  last, short group are not looked at.
\<close>

section \<open>Alphabets\<close>

definition b64_char :: "bool \<Rightarrow> nat \<Rightarrow> char" where
  "b64_char url n =
     (if n < 26 then char_of (65 + n)
      else if n < 52 then char_of (71 + n)
      else if n < 62 then char_of (n - 4)
      else if n = 62 then (if url then CHR ''-'' else CHR ''+'')
      else (if url then CHR ''_'' else CHR ''/''))"

definition b64_value :: "bool \<Rightarrow> char \<Rightarrow> nat option" where
  "b64_value url c =
     (if is_upper c then Some (byte c - 65)
      else if is_lower c then Some (byte c - 71)
      else if is_digit c then Some (byte c + 4)
      else if c = (if url then CHR ''-'' else CHR ''+'') then Some 62
      else if c = (if url then CHR ''_'' else CHR ''/'') then Some 63
      else None)"

text \<open>The pad byte is outside both alphabets.\<close>

abbreviation pad_char :: char where "pad_char \<equiv> CHR ''=''"

section \<open>Encoding\<close>

fun b64_encode :: "bool \<Rightarrow> bool \<Rightarrow> string \<Rightarrow> string" where
  "b64_encode url pad [] = []"
| "b64_encode url pad [x] =
     (let v = byte x * 16 in
      map (b64_char url) [v div 64, v mod 64] @ (if pad then [pad_char, pad_char] else []))"
| "b64_encode url pad [x, y] =
     (let v = (byte x * 256 + byte y) * 4 in
      map (b64_char url) [v div 4096, v div 64 mod 64, v mod 64] @ (if pad then [pad_char] else []))"
| "b64_encode url pad (x # y # z # rest) =
     (let v = byte x * 65536 + byte y * 256 + byte z in
      map (b64_char url) [v div 262144, v div 4096 mod 64, v div 64 mod 64, v mod 64] @ b64_encode url pad rest)"

section \<open>Decoding\<close>

definition b64_group :: "bool \<Rightarrow> string \<Rightarrow> nat option" where
  "b64_group url cs =
     map_option (foldl (\<lambda>v d. v * 64 + d) 0) (those (map (b64_value url) cs))"

fun b64_quanta :: "bool \<Rightarrow> bool \<Rightarrow> string \<Rightarrow> string option" where
  "b64_quanta url pad [] = Some []"
| "b64_quanta url pad [a] = None"
| "b64_quanta url pad [a, b] =
     (if pad then None else map_option (\<lambda>v. [char_of (v div 16)]) (b64_group url [a, b]))"
| "b64_quanta url pad [a, b, c] =
     (if pad then None
      else map_option (\<lambda>v. [char_of (v div 1024), char_of (v div 4 mod 256)]) (b64_group url [a, b, c]))"
| "b64_quanta url pad (a # b # c # d # rest) =
     (if pad \<and> c = pad_char then
        (if d = pad_char \<and> rest = [] then map_option (\<lambda>v. [char_of (v div 16)]) (b64_group url [a, b])
         else None)
      else if pad \<and> d = pad_char then
        (if rest = []
         then map_option (\<lambda>v. [char_of (v div 1024), char_of (v div 4 mod 256)]) (b64_group url [a, b, c])
         else None)
      else
        (case b64_group url [a, b, c, d] of
           None \<Rightarrow> None
         | Some v \<Rightarrow>
             map_option (\<lambda>out. char_of (v div 65536) # char_of (v div 256 mod 256) # char_of (v mod 256) # out)
               (b64_quanta url pad rest)))"

definition DecodeString :: "bool \<Rightarrow> bool \<Rightarrow> string \<Rightarrow> string option" where
  "DecodeString url pad s = b64_quanta url pad (filter (\<lambda>c. c \<noteq> CHR 0x0A \<and> c \<noteq> CHR 0x0D) s)"

text \<open>\<open>hex.EncodeToString\<close>.\<close>

definition EncodeToString :: "string \<Rightarrow> string" where
  "EncodeToString s = concat (map (\<lambda>c. [hex_char (of_char c div 16), hex_char (of_char c mod 16)]) s)"

section \<open>Laws\<close>

lemma b64_value_char: "n < 64 \<Longrightarrow> b64_value url (b64_char url n) = Some n"
  by (cases url) (auto simp: b64_value_def b64_char_def is_upper_def is_lower_def is_digit_def)

text \<open>What an encoder writes is printable, needs no escape and is no line break.\<close>

definition b64_plain :: "char \<Rightarrow> bool" where
  "b64_plain c \<longleftrightarrow> is_upper c \<or> is_lower c \<or> is_digit c \<or> c \<in> set ''+/-_=''"

lemma b64_value_plain: "b64_value url c = Some n \<Longrightarrow> b64_plain c \<and> c \<noteq> pad_char"
  by (auto simp: b64_plain_def b64_value_def is_upper_def is_lower_def is_digit_def split: if_split_asm)

lemma b64_char_plain: "n < 64 \<Longrightarrow> b64_plain (b64_char url n) \<and> b64_char url n \<noteq> pad_char"
  by (rule b64_value_plain [OF b64_value_char])

lemma byte_bound: "byte c < 256"
  using of_char_mod_256 [of c, where ?'a = nat] mod_less_divisor [of 256 "byte c"] by simp

lemma b64_group_map: "list_all (\<lambda>n. n < 64) ns \<Longrightarrow> b64_group url (map (b64_char url) ns) = Some (foldl (\<lambda>v d. v * 64 + d) 0 ns)"
proof -
  assume "list_all (\<lambda>n. n < 64) ns"
  then have "map (b64_value url) (map (b64_char url) ns) = map Some ns"
    by (induction ns) (simp_all add: b64_value_char)
  then show ?thesis by (simp only: b64_group_def those_Some_iff [THEN iffD2] option.map)
qed

lemma digits64:
  fixes v :: nat
  shows "v div 64 * 64 + v mod 64 = v"
    "(v div 4096 * 64 + v div 64 mod 64) * 64 + v mod 64 = v"
    "((v div 262144 * 64 + v div 4096 mod 64) * 64 + v div 64 mod 64) * 64 + v mod 64 = v"
proof -
  have e: "v div 4096 = v div 64 div 64" "v div 262144 = v div 64 div 64 div 64"
    by (simp_all flip: div_mult2_eq)
  show "v div 64 * 64 + v mod 64 = v" by simp
  show "(v div 4096 * 64 + v div 64 mod 64) * 64 + v mod 64 = v"
    unfolding e by (simp only: div_mult_mod_eq)
  show "((v div 262144 * 64 + v div 4096 mod 64) * 64 + v div 64 mod 64) * 64 + v mod 64 = v"
    unfolding e by (simp only: div_mult_mod_eq)
qed

lemma pad_plain: "b64_plain pad_char"
  by (simp add: b64_plain_def)

lemma one_byte:
  fixes x :: nat
  assumes "x < 256" and "v = x * 16"
  shows "v div 64 < 64" "v div 16 = x"
  using assms by (simp_all add: less_mult_imp_div_less)

lemma two_bytes:
  fixes x y :: nat
  assumes "x < 256" "y < 256" and "v = (x * 256 + y) * 4"
  shows "v div 4096 < 64" "v div 1024 = x" "v div 4 mod 256 = y"
proof -
  have q: "v div 4 = x * 256 + y" by (simp add: assms(3))
  show "v div 4096 < 64" using assms by (simp add: less_mult_imp_div_less)
  have "v div 1024 = v div 4 div 256" by (simp flip: div_mult2_eq)
  then show "v div 1024 = x" using assms(2) by (simp add: q)
  show "v div 4 mod 256 = y" using assms(2) by (simp add: q)
qed

lemma three_bytes:
  fixes x y z :: nat
  assumes "x < 256" "y < 256" "z < 256" and "v = x * 65536 + y * 256 + z"
  shows "v div 262144 < 64" "v div 65536 = x" "v div 256 mod 256 = y" "v mod 256 = z"
proof -
  have v: "v = (x * 256 + y) * 256 + z" by (simp add: assms(4))
  have "(w * 256 + z) div 256 = w" "(w * 256 + z) mod 256 = z" for w using assms(3) by simp_all
  from this [of "x * 256 + y"] have q: "v div 256 = x * 256 + y" "v mod 256 = z" by (simp_all only: v)
  show "v div 262144 < 64" using assms by (simp add: less_mult_imp_div_less)
  have "v div 65536 = v div 256 div 256" by (simp flip: div_mult2_eq)
  then show "v div 65536 = x" using assms(2) by (simp add: q)
  show "v div 256 mod 256 = y" using assms(2) by (simp add: q)
  show "v mod 256 = z" by (rule q)
qed

text \<open>Decoding what was encoded, in each of the four variants.\<close>

lemma low_byte: "n mod 256 = byte c \<Longrightarrow> char_of n = c"
  by (metis char_of_mod_256 char_of_char)

lemma b64_quanta_encode: "b64_quanta url pad (b64_encode url pad s) = Some s"
proof (induction url pad s rule: b64_encode.induct)
  case (2 url pad x)
  define v where "v = byte x * 16"
  show ?case unfolding b64_encode.simps v_def [symmetric] Let_def
    using b64_group_map [of "[v div 64, v mod 64]" url] digits64(1) [of v] one_byte [OF byte_bound v_def]
    by (cases pad) simp_all
next
  case (3 url pad x y)
  define v where "v = (byte x * 256 + byte y) * 4"
  show ?case unfolding b64_encode.simps v_def [symmetric] Let_def
    using b64_group_map [of "[v div 4096, v div 64 mod 64, v mod 64]" url] digits64(2) [of v]
      b64_char_plain [of "v mod 64" url] two_bytes [OF byte_bound byte_bound v_def]
      low_byte [of "v div 4" y]
    by (cases pad) simp_all
next
  case (4 url pad x y z rest)
  define v where "v = byte x * 65536 + byte y * 256 + byte z"
  show ?case unfolding b64_encode.simps v_def [symmetric] Let_def
    using b64_group_map [of "[v div 262144, v div 4096 mod 64, v div 64 mod 64, v mod 64]" url]
      digits64(3) [of v] b64_char_plain [of "v mod 64" url] b64_char_plain [of "v div 64 mod 64" url]
      three_bytes [OF byte_bound byte_bound byte_bound v_def] "4.IH"
      low_byte [of "v div 256" y] low_byte [of v z]
    by simp
qed simp

lemma b64_encode_plain: "list_all b64_plain (b64_encode url pad s)"
proof (induction url pad s rule: b64_encode.induct)
  case (2 url pad x)
  define v where "v = byte x * 16"
  show ?case unfolding b64_encode.simps v_def [symmetric] Let_def
    using one_byte [OF byte_bound v_def]
    by (simp add: b64_char_plain pad_plain)
next
  case (3 url pad x y)
  define v where "v = (byte x * 256 + byte y) * 4"
  show ?case unfolding b64_encode.simps v_def [symmetric] Let_def
    using two_bytes [OF byte_bound byte_bound v_def]
    by (simp add: b64_char_plain pad_plain)
next
  case (4 url pad x y z rest)
  define v where "v = byte x * 65536 + byte y * 256 + byte z"
  show ?case unfolding b64_encode.simps v_def [symmetric] Let_def
    using three_bytes [OF byte_bound byte_bound byte_bound v_def] "4.IH"
    by (simp add: b64_char_plain)
qed simp

lemma DecodeString_encode [simp]: "DecodeString url pad (b64_encode url pad s) = Some s"
proof -
  have "filter (\<lambda>c. c \<noteq> CHR 0x0A \<and> c \<noteq> CHR 0x0D) (b64_encode url pad s) = b64_encode url pad s"
    using b64_encode_plain [of url pad s]
    by (intro filter_True) (auto simp: list_all_iff b64_plain_def is_upper_def is_lower_def is_digit_def)
  then show ?thesis by (simp add: DecodeString_def b64_quanta_encode)
qed

lemma b64_encode_length: "length (b64_encode url pad s) \<le> 2 * length s + 2"
  by (induction url pad s rule: b64_encode.induct) (simp_all add: Let_def)

end
