(* ===== verification/Supervisor.thy ===== *)
theory Supervisor
  imports ProcessOutput GoBase64 LogCenter EngineRegistry TunAddressing RestartPolicy SessionGuard
begin

text \<open>
  Supervision of an engine process, \<open>engine/supervise\<close>: \<open>supervisor.go\<close> with the process control of
  \<open>process.go\<close>, the ports and secrets of \<open>host.go\<close>, and the delays of \<open>engine/backoff.go\<close>.  A driver
  and the host are records of operations over the state \<open>'w\<close> of the world.  The supervisor keeps a
  table of every process it started, so that a process it lost is visible; it also keeps the list of
  the events it published and of the lines it logged.  Its lifecycle lock makes \<open>Apply\<close>, \<open>Stop\<close> and
  each half of \<open>watch\<close> one step.
\<close>

section \<open>Host\<close>

record Spec =
  spc_Name :: string
  spc_Path :: string
  spc_Args :: "string list"
  spc_Dir :: string
  spc_Config :: string

text \<open>
  What happens to a live process that is being stopped: whether it takes the interrupt, exits in the
  grace period, is gone when it is killed, what the kill returns, whether its end is seen before the
  context or the timer, and its exit result.
\<close>

record halting =
  ha_interrupted :: bool
  ha_grace :: bool
  ha_gone :: bool
  ha_kill :: "goerr option"
  ha_reaped :: bool
  ha_ctx :: "goerr option"
  ha_exit :: "goerr option"

text \<open>What a poll of a live process finds: its exit result if it exited, and its output since the last poll.\<close>

record 'w Host =
  ho_MkdirAll :: "string \<Rightarrow> 'w \<Rightarrow> goerr option \<times> 'w"
  ho_run :: "Spec \<Rightarrow> 'w \<Rightarrow> (goerr option \<times> string) \<times> 'w"
  ho_spawn :: "Spec \<Rightarrow> 'w \<Rightarrow> goerr option \<times> 'w"
  ho_poll :: "nat \<Rightarrow> 'w \<Rightarrow> (goerr option option \<times> string) \<times> 'w"
  ho_halt :: "nat \<Rightarrow> 'w \<Rightarrow> halting \<times> 'w"
  ho_ctxDone :: "'w \<Rightarrow> bool"
  ho_Int :: "int \<Rightarrow> 'w \<Rightarrow> (goerr + int) \<times> 'w"
  ho_Read :: "nat \<Rightarrow> 'w \<Rightarrow> (goerr + string) \<times> 'w"
  ho_udp :: "int \<Rightarrow> 'w \<Rightarrow> goerr option \<times> 'w"
  ho_tcp :: "int \<Rightarrow> 'w \<Rightarrow> goerr option \<times> 'w"
  ho_addrs :: "'w \<Rightarrow> string list option"
  ho_now :: "'w \<Rightarrow> Time"
  ho_jitter :: "Duration \<Rightarrow> 'w \<Rightarrow> Duration"
  ho_plan_text :: "verr list \<Rightarrow> string"
  ho_tun_text :: "tun_err \<Rightarrow> string"

definition errorf :: "string \<Rightarrow> goerr \<Rightarrow> goerr" where
  "errorf head e = WrapE (head @ err_text e) e"

fun free_port_loop :: "nat \<Rightarrow> goerr option \<Rightarrow> 'w Host \<Rightarrow> 'w \<Rightarrow> (goerr + int) \<times> 'w" where
  "free_port_loop 0 lastErr H w =
     (Inl (case lastErr of
             Some e \<Rightarrow> errorf ''supervise: no shared TCP/UDP port: '' e
           | None \<Rightarrow> TextE ''supervise: no shared TCP/UDP port: %!w(<nil>)''), w)"
| "free_port_loop (Suc n) lastErr H w =
     (case ho_Int H (65536 - 1024) w of
        (Inl e, w1) \<Rightarrow> (Inl (errorf ''supervise: choose a loopback port: '' e), w1)
      | (Inr candidate, w1) \<Rightarrow>
          (let port = 1024 + candidate in
           case ho_udp H port w1 of
             (Some e, w2) \<Rightarrow> free_port_loop n (Some e) H w2
           | (None, w2) \<Rightarrow>
               (case ho_tcp H port w2 of
                  (Some e, w3) \<Rightarrow> free_port_loop n (Some e) H w3
                | (None, w3) \<Rightarrow> (Inr port, w3))))"

definition FreePort :: "'w Host \<Rightarrow> 'w \<Rightarrow> (goerr + int) \<times> 'w" where
  "FreePort H w = free_port_loop 32 None H w"

definition SecretBytes :: nat where
  "SecretBytes = 32"

definition RandomSecret :: "'w Host \<Rightarrow> 'w \<Rightarrow> (goerr + string) \<times> 'w" where
  "RandomSecret H w =
     (case ho_Read H SecretBytes w of
        (Inl e, w1) \<Rightarrow> (Inl (errorf ''supervise: generate controller secret: '' e), w1)
      | (Inr buf, w1) \<Rightarrow> (Inr (EncodeToString buf), w1))"

section \<open>Delays\<close>

text \<open>
  The doubling of \<open>Backoff.Delay\<close> with the values of \<open>DefaultBackoff\<close>, exact in floating point; the
  jitter, a product with a random float, is an argument.
\<close>

fun delay_loop :: "nat \<Rightarrow> Duration \<Rightarrow> Duration \<Rightarrow> Duration" where
  "delay_loop 0 ceiling d = d"
| "delay_loop (Suc n) ceiling d = (if d < ceiling then delay_loop n ceiling (d * 2) else d)"

definition Delay :: "(Duration \<Rightarrow> Duration) \<Rightarrow> int \<Rightarrow> Duration" where
  "Delay jitter n =
     (let ceiling = 2 * Minute;
          d = delay_loop (nat n) ceiling (500 * Millisecond)
      in jitter (if d > ceiling then ceiling else d) div Millisecond * Millisecond)"

text \<open>\<open>time.Duration.String\<close>.\<close>

definition frac_text :: "nat \<Rightarrow> nat \<Rightarrow> string" where
  "frac_text prec v =
     (let ds = nat_digits (v mod 10 ^ prec);
          padded = replicate (prec - length ds) (CHR ''0'') @ ds;
          t = rev (dropWhile (\<lambda>c. c = CHR ''0'') (rev padded))
      in if t = [] then [] else ''.'' @ t)"

definition Duration_String :: "Duration \<Rightarrow> string" where
  "Duration_String d =
     (let u = nat \<bar>d\<bar>; sign = (if d < 0 then ''-'' else []) in
      if u = 0 then ''0s''
      else if u < 1000 then sign @ nat_digits u @ ''ns''
      else if u < 1000000 then sign @ nat_digits (u div 1000) @ frac_text 3 u @ [CHR 0xC2, CHR 0xB5, CHR ''s'']
      else if u < 1000000000 then sign @ nat_digits (u div 1000000) @ frac_text 6 u @ ''ms''
      else
        let secs = u div 1000000000; mins = secs div 60; hours = mins div 60 in
        sign @ (if hours > 0 then nat_digits hours @ ''h'' else []) @ (if mins > 0 then nat_digits (mins mod 60) @ ''m'' else []) @
        nat_digits (secs mod 60) @ frac_text 9 u @ ''s'')"

section \<open>Drivers\<close>

record Runtime =
  rt_HomeDir :: string
  rt_LocalPort :: int
  rt_LocalProxy :: bool
  rt_TunDevice :: string
  rt_ProxyNames :: "string list"
  rt_ControlAddr :: string
  rt_Secret :: string
  rt_ProbeURL :: string

definition zero_Runtime :: Runtime where
  "zero_Runtime =
     \<lparr>rt_HomeDir = [], rt_LocalPort = 0, rt_LocalProxy = False, rt_TunDevice = [], rt_ProxyNames = [], rt_ControlAddr = [],
      rt_Secret = [], rt_ProbeURL = []\<rparr>"

record 'w Router =
  ro_Route :: "Plan \<Rightarrow> 'w \<Rightarrow> goerr option \<times> 'w"
  ro_Unroute :: "'w \<Rightarrow> goerr option \<times> 'w"

record 'w Preparer =
  pp_Prepare :: "Runtime \<Rightarrow> Binary \<Rightarrow> 'w \<Rightarrow> goerr option \<times> 'w"
  pp_PrepareStart :: "Plan \<Rightarrow> Runtime \<Rightarrow> 'w \<Rightarrow> goerr option \<times> 'w"

text \<open>A driver with the optional interfaces the supervisor looks for.\<close>

record 'w Driver =
  dr_Kind :: Kind
  dr_Render :: "Plan \<Rightarrow> Runtime \<Rightarrow> 'w \<Rightarrow> (goerr + string) \<times> 'w"
  dr_RunArgs :: "Runtime \<Rightarrow> string list"
  dr_CheckArgs :: "Runtime \<Rightarrow> string list"
  dr_Handshake :: "Runtime \<Rightarrow> 'w \<Rightarrow> (goerr + string) \<times> 'w"
  dr_Reload :: "Runtime \<Rightarrow> string \<Rightarrow> 'w \<Rightarrow> goerr option \<times> 'w"
  dr_ConfirmStart :: "(Runtime \<Rightarrow> string \<Rightarrow> 'w \<Rightarrow> goerr option \<times> 'w) option"
  dr_ControlAddress :: "(Runtime \<Rightarrow> bool \<Rightarrow> 'w \<Rightarrow> (goerr + string) \<times> 'w) option"
  dr_Router :: "'w Router option"
  dr_PlanNames :: "(Plan \<Rightarrow> string go_map) option"
  dr_ParseLog :: "(string \<Rightarrow> Time \<times> Level \<times> string) option"
  dr_Preparer :: "'w Preparer option"

definition ErrReloadUnsupported :: goerr where
  "ErrReloadUnsupported = TextE ''supervise: engine cannot reload a running configuration''"

definition ErrNotRunning :: goerr where
  "ErrNotRunning = TextE ''supervise: engine is not running''"

section \<open>State\<close>

datatype proc_state = Live | Exited "goerr option"

record process =
  ps_name :: string
  ps_state :: proc_state
  ps_out :: Tail

text \<open>A watcher waits for its process to exit, or for the delay before a restart of a plan.\<close>

datatype watch_state = Waiting | BackingOff Plan

record SupervisorConfig =
  sc_Binary :: Binary
  sc_HomeDir :: string
  sc_LocalPort :: int
  sc_ProbeURL :: string
  sc_StartTimeout :: Duration
  sc_StopGrace :: Duration
  sc_Redactor :: "Redactor option"
  sc_RestartBudget :: int
  sc_RestartWindow :: Duration
  sc_Logs :: bool

record Supervisor =
  sp_cfg :: SupervisorConfig
  sp_redactor :: Redactor
  sp_budget :: RestartBudget
  sp_state :: string
  sp_version :: Version
  sp_rt :: Runtime
  sp_plan :: "Plan option"
  sp_proc :: "nat option"
  sp_stopping :: bool
  sp_routed :: bool
  sp_cancelled :: bool
  sp_procs :: "process list"
  sp_watchers :: "(nat \<times> watch_state) list"
  sp_events :: "EngineEvent list"
  sp_log :: "(Time \<times> Level \<times> string) list"

abbreviation StIdle :: string where "StIdle \<equiv> ''idle''"
abbreviation StStarting :: string where "StStarting \<equiv> ''starting''"
abbreviation StRunning :: string where "StRunning \<equiv> ''running''"
abbreviation StApplying :: string where "StApplying \<equiv> ''applying''"
abbreviation StRecovering :: string where "StRecovering \<equiv> ''recovering''"
abbreviation StStopped :: string where "StStopped \<equiv> ''stopped''"
abbreviation StFailed :: string where "StFailed \<equiv> ''failed''"

type_synonym 'w sup = "Supervisor \<times> 'w"

definition sup_New :: "SupervisorConfig \<Rightarrow> 'w Driver \<Rightarrow> goerr + Supervisor" where
  "sup_New cfg D =
     (if b_Path (sc_Binary cfg) = [] then Inl (TextE (dr_Kind D @ '': engine binary is required''))
      else if sc_HomeDir cfg = [] then Inl (TextE (dr_Kind D @ '': engine home directory is required''))
      else
        let redactor = (case sc_Redactor cfg of None \<Rightarrow> NewRedactor [] | Some r \<Rightarrow> r);
            cfg1 = cfg\<lparr>sc_StartTimeout := (if sc_StartTimeout cfg \<le> 0 then 15 * Second else sc_StartTimeout cfg),
                       sc_StopGrace := (if sc_StopGrace cfg \<le> 0 then 3 * Second else sc_StopGrace cfg),
                       sc_ProbeURL := (if sc_ProbeURL cfg = [] then TestURLProduction else sc_ProbeURL cfg),
                       sc_Redactor := Some redactor,
                       sc_RestartBudget := (if sc_RestartBudget cfg \<le> 0 then 5 else sc_RestartBudget cfg),
                       sc_RestartWindow := (if sc_RestartWindow cfg \<le> 0 then 10 * Minute else sc_RestartWindow cfg)\<rparr>
        in Inr \<lparr>sp_cfg = cfg1, sp_redactor = redactor,
                sp_budget = NewRestartBudget (sc_RestartBudget cfg1) (sc_RestartWindow cfg1),
                sp_state = StIdle, sp_version = b_Version (sc_Binary cfg), sp_rt = zero_Runtime, sp_plan = None, sp_proc = None,
                sp_stopping = False, sp_routed = False, sp_cancelled = False, sp_procs = [], sp_watchers = [], sp_events = [],
                sp_log = []\<rparr>)"

section \<open>Small steps\<close>

definition new_EngineEvent :: "EngineEventKind \<Rightarrow> string \<Rightarrow> EngineEvent" where
  "new_EngineEvent k state =
     \<lparr>ee_Kind = k, ee_State = state, ee_Message = [], ee_Err = None, ee_Counters = zero_Counters, ee_Group = None, ee_At = 0\<rparr>"

definition sup_publish :: "EngineEvent \<Rightarrow> Supervisor \<Rightarrow> Supervisor" where
  "sup_publish ev s = s\<lparr>sp_events := sp_events s @ [ev]\<rparr>"

definition sup_setState :: "string \<Rightarrow> Supervisor \<Rightarrow> Supervisor" where
  "sup_setState state s =
     (if sp_state s \<noteq> state then sup_publish (new_EngineEvent EngState state) (s\<lparr>sp_state := state\<rparr>) else s)"

definition sup_log :: "Level \<Rightarrow> string \<Rightarrow> Supervisor \<Rightarrow> Supervisor" where
  "sup_log level message s = (if sc_Logs (sp_cfg s) then s\<lparr>sp_log := sp_log s @ [(0, level, message)]\<rparr> else s)"

definition logLine :: "'w Driver \<Rightarrow> string \<Rightarrow> Supervisor \<Rightarrow> Supervisor" where
  "logLine D line s =
     (if \<not> sc_Logs (sp_cfg s) then s
      else
        let (at, level, message) = (case dr_ParseLog D of None \<Rightarrow> (0, LevelInfo, line) | Some parse \<Rightarrow> parse line)
        in s\<lparr>sp_log := sp_log s @ [(at, level, Redactor_String (sp_redactor s) message)]\<rparr>)"

text \<open>A masked error keeps its cause, so that \<open>errors.Is\<close> still finds it.\<close>

definition Redactor_Err :: "Redactor \<Rightarrow> goerr \<Rightarrow> goerr" where
  "Redactor_Err r e = WrapE (Redactor_String r (err_text e)) e"

definition exited :: "Supervisor \<Rightarrow> nat \<Rightarrow> bool" where
  "exited s p \<longleftrightarrow> ps_state (sp_procs s ! p) \<noteq> Live"

definition set_exit :: "nat \<Rightarrow> goerr option \<Rightarrow> Supervisor \<Rightarrow> Supervisor" where
  "set_exit p r s =
     (if p < length (sp_procs s) \<and> \<not> exited s p then s\<lparr>sp_procs := (sp_procs s)[p := (sp_procs s ! p)\<lparr>ps_state := Exited r\<rparr>]\<rparr> else s)"

definition add_output :: "nat \<Rightarrow> string \<Rightarrow> Supervisor \<Rightarrow> Supervisor" where
  "add_output p text s = s\<lparr>sp_procs := (sp_procs s)[p := (sp_procs s ! p)\<lparr>ps_out := tail_Write text (ps_out (sp_procs s ! p))\<rparr>]\<rparr>"

definition exitError :: "process \<Rightarrow> goerr option" where
  "exitError pr =
     (case ps_state pr of
        Exited (Some e) \<Rightarrow>
          Some (WrapE (ps_name pr @ '': engine stopped: '' @ err_text e @ '': '' @ tail_Last 8 (ps_out pr)) e)
      | _ \<Rightarrow> None)"

definition proc_Err :: "Supervisor \<Rightarrow> nat \<Rightarrow> goerr option" where
  "proc_Err s p = (if exited s p then exitError (sp_procs s ! p) else None)"

section \<open>Processes\<close>

definition proc_Start :: "'w Host \<Rightarrow> Spec \<Rightarrow> 'w sup \<Rightarrow> (goerr + nat) \<times> 'w sup" where
  "proc_Start H spec sw =
     (let (s, w) = sw in
      if spc_Path spec = [] \<or> spc_Dir spec = [] then
        (Inl (TextE (spc_Name spec @ '': binary and working directory are required'')), sw)
      else case ho_MkdirAll H (spc_Dir spec) w of
             (Some e, w1) \<Rightarrow> (Inl (errorf (spc_Name spec @ '': create engine home: '') e), s, w1)
           | (None, w1) \<Rightarrow>
               (case ho_spawn H spec w1 of
                  (Some e, w2) \<Rightarrow> (Inl (errorf (spc_Name spec @ '': start engine: '') e), s, w2)
                | (None, w2) \<Rightarrow>
                    (Inr (length (sp_procs s)),
                     s\<lparr>sp_procs := sp_procs s @ [\<lparr>ps_name = spc_Name spec, ps_state = Live, ps_out = NewTail 80\<rparr>]\<rparr>, w2)))"

definition halted :: "Duration \<Rightarrow> halting \<Rightarrow> bool" where
  "halted grace h \<longleftrightarrow>
     (grace > 0 \<and> ha_interrupted h \<and> ha_grace h) \<or> ha_gone h \<or> (ha_kill h = None \<and> ha_reaped h)"

definition halt_error :: "string \<Rightarrow> Duration \<Rightarrow> halting \<Rightarrow> goerr option" where
  "halt_error name grace h =
     (if grace > 0 \<and> ha_interrupted h \<and> ha_grace h then None
      else
        case (if ha_gone h then None else ha_kill h) of
          Some e \<Rightarrow> Some (errorf (name @ '': stop engine: '') e)
        | None \<Rightarrow>
            if ha_reaped h then None
            else case ha_ctx h of
                   Some e \<Rightarrow> Some e
                 | None \<Rightarrow> Some (TextE (name @ '': engine did not exit after kill'')))"

definition proc_Stop :: "'w Host \<Rightarrow> nat \<Rightarrow> 'w sup \<Rightarrow> goerr option \<times> 'w sup" where
  "proc_Stop H p sw =
     (let (s, w) = sw in
      if exited s p then (None, sw)
      else
        let (h, w1) = ho_halt H p w;
            grace = sc_StopGrace (sp_cfg s)
        in (halt_error (ps_name (sp_procs s ! p)) grace h,
            if halted grace h then set_exit p (ha_exit h) s else s, w1))"

definition Check :: "'w Host \<Rightarrow> Spec \<Rightarrow> 'w \<Rightarrow> goerr option \<times> 'w" where
  "Check H spec w =
     (case ho_MkdirAll H (spc_Dir spec) w of
        (Some e, w1) \<Rightarrow> (Some (errorf (spc_Name spec @ '': create engine home: '') e), w1)
      | (None, w1) \<Rightarrow>
          (case ho_run H spec w1 of
             ((None, out), w2) \<Rightarrow> (None, w2)
           | ((Some e, out), w2) \<Rightarrow>
               (Some (WrapE (spc_Name spec @ '': configuration rejected: '' @ err_text e @ '': '' @
                        tail_Last 8 (tail_Write out (NewTail 40))) e), w2)))"

section \<open>Admission and configuration\<close>

definition sup_Capabilities :: "bool \<Rightarrow> 'w Driver \<Rightarrow> Supervisor \<Rightarrow> Capabilities" where
  "sup_Capabilities linux D s =
     (BuildCapabilities linux (dr_Kind D) (b_Version (sc_Binary (sp_cfg s))) (b_BuildTags (sc_Binary (sp_cfg s))))
       \<lparr>c_MinVersion := v_Raw (sp_version s)\<rparr>"

definition admit :: "bool \<Rightarrow> 'w Host \<Rightarrow> 'w Driver \<Rightarrow> Plan option \<Rightarrow> Supervisor \<Rightarrow> goerr option" where
  "admit linux H D p s =
     (case p of
        None \<Rightarrow> Some (TextE (dr_Kind D @ '': nil plan''))
      | Some plan \<Rightarrow>
          if Plan_Validate (Some plan) \<noteq> [] then
            Some (Redactor_Err (sp_redactor s) (TextE (ho_plan_text H (Plan_Validate (Some plan)))))
          else
            let missing = Missing (sup_Capabilities linux D s) plan in
            if missing \<noteq> [] then Some (TextE (dr_Kind D @ '': this engine cannot carry '' @ Join missing '', ''))
            else None)"

definition sup_check :: "'w Host \<Rightarrow> 'w Driver \<Rightarrow> Runtime \<Rightarrow> string \<Rightarrow> Supervisor \<Rightarrow> 'w \<Rightarrow> goerr option \<times> 'w" where
  "sup_check H D rt cfg s w =
     (let (err, w1) =
        (case dr_Preparer D of
           None \<Rightarrow> (None, w)
         | Some p \<Rightarrow>
             (case ho_MkdirAll H (rt_HomeDir rt) w of
                (Some e, w') \<Rightarrow> (Some e, w')
              | (None, w') \<Rightarrow>
                  (case pp_Prepare p rt (sc_Binary (sp_cfg s)) w' of
                     (Some e, w'') \<Rightarrow> (Some (errorf (dr_Kind D @ '': prepare engine home: '') e), w'')
                   | (None, w'') \<Rightarrow> (None, w''))))
      in case err of
           Some e \<Rightarrow> (Some e, w1)
         | None \<Rightarrow>
             Check H \<lparr>spc_Name = dr_Kind D, spc_Path = b_Path (sc_Binary (sp_cfg s)), spc_Args = dr_CheckArgs D rt,
                      spc_Dir = sc_HomeDir (sp_cfg s), spc_Config = cfg\<rparr> w1)"

text \<open>The plan with a throw-away adapter name, on which a configuration is validated.\<close>

definition checked_plan :: "'w Host \<Rightarrow> Plan \<Rightarrow> 'w \<Rightarrow> (goerr + Plan) \<times> 'w" where
  "checked_plan H p w =
     (if t_Enabled (p_Tun p) then
        (case RandomSecret H w of
           (Inl e, w1) \<Rightarrow> (Inl e, w1)
         | (Inr token, w1) \<Rightarrow> (Inr (p\<lparr>p_Tun := (p_Tun p)\<lparr>t_DeviceName := ''sora-c'' @ take 9 token\<rparr>\<rparr>), w1))
      else (Inr p, w))"

definition validate_plan :: "bool \<Rightarrow> 'w Host \<Rightarrow> 'w Driver \<Rightarrow> Plan option \<Rightarrow> 'w sup \<Rightarrow> goerr option \<times> 'w" where
  "validate_plan linux H D p sw =
     (let (s, w) = sw in
      case admit linux H D p s of
        Some e \<Rightarrow> (Some e, w)
      | None \<Rightarrow>
          (let rt = zero_Runtime\<lparr>rt_HomeDir := sc_HomeDir (sp_cfg s), rt_LocalPort := 1, rt_ControlAddr := ''127.0.0.1:1'',
                                 rt_Secret := ''validation-only'', rt_ProbeURL := sc_ProbeURL (sp_cfg s)\<rparr> in
           case checked_plan H (the p) w of
             (Inl e, w1) \<Rightarrow> (Some e, w1)
           | (Inr checked, w1) \<Rightarrow>
               (case dr_Render D checked rt w1 of
                  (Inl e, w2) \<Rightarrow> (Some (Redactor_Err (sp_redactor s) e), w2)
                | (Inr cfg, w2) \<Rightarrow>
                    (case sup_check H D rt cfg s w2 of
                       (err, w3) \<Rightarrow> (map_option (Redactor_Err (sp_redactor s)) err, w3)))))"

definition sup_Validate :: "bool \<Rightarrow> 'w Host \<Rightarrow> 'w Driver \<Rightarrow> Plan option \<Rightarrow> 'w sup \<Rightarrow> goerr option \<times> 'w sup" where
  "sup_Validate linux H D p sw =
     (let (s, w) = sw;
          s1 = (case p of None \<Rightarrow> s | Some plan \<Rightarrow> s\<lparr>sp_redactor := Redaction.Add (Plan_Secrets (Some plan)) (sp_redactor s)\<rparr>);
          (err, w1) = validate_plan linux H D p (s1, w)
      in (err, (case err of None \<Rightarrow> s1 | Some e \<Rightarrow> sup_log LevelError (Redactor_String (sp_redactor s1) (err_text e)) s1), w1))"

section \<open>Starting\<close>

definition reserve :: "'w Host \<Rightarrow> 'w Driver \<Rightarrow> bool \<Rightarrow> Supervisor \<Rightarrow> 'w \<Rightarrow> (goerr + Runtime) \<times> 'w" where
  "reserve H D privateControl s w =
     (let (local, w1) = (if sc_LocalPort (sp_cfg s) = 0 then FreePort H w else (Inr (sc_LocalPort (sp_cfg s)), w)) in
      case local of
        Inl e \<Rightarrow> (Inl e, w1)
      | Inr lport \<Rightarrow>
          (case FreePort H w1 of
             (Inl e, w2) \<Rightarrow> (Inl e, w2)
           | (Inr control, w2) \<Rightarrow>
               (case RandomSecret H w2 of
                  (Inl e, w3) \<Rightarrow> (Inl e, w3)
                | (Inr secret, w3) \<Rightarrow>
                    (let rt = zero_Runtime\<lparr>rt_HomeDir := sc_HomeDir (sp_cfg s), rt_LocalPort := lport,
                                           rt_ControlAddr := ''127.0.0.1:'' @ Itoa control, rt_Secret := secret,
                                           rt_ProbeURL := sc_ProbeURL (sp_cfg s)\<rparr> in
                     case dr_ControlAddress D of
                       None \<Rightarrow> (Inr rt, w3)
                     | Some address \<Rightarrow>
                         (case ho_MkdirAll H (rt_HomeDir rt) w3 of
                            (Some e, w4) \<Rightarrow> (Inl e, w4)
                          | (None, w4) \<Rightarrow>
                              (case address rt privateControl w4 of
                                 (Inl e, w5) \<Rightarrow> (Inl e, w5)
                               | (Inr addr, w5) \<Rightarrow> (Inr (rt\<lparr>rt_ControlAddr := addr\<rparr>), w5)))))))"

text \<open>
  \<open>waitReady\<close> polls every 100 milliseconds; its fuel is the number of ticks in the start timeout,
  after which its context is done.
\<close>

fun wait_loop :: "nat \<Rightarrow> 'w Host \<Rightarrow> 'w Driver \<Rightarrow> Runtime \<Rightarrow> nat \<Rightarrow> 'w sup \<Rightarrow> (goerr + string) \<times> 'w sup" where
  "wait_loop fuel H D rt p (s, w) =
     (case dr_Handshake D rt w of
        (Inr version, w1) \<Rightarrow> (Inr version, s, w1)
      | (Inl lastErr, w1) \<Rightarrow>
          (case ho_poll H p w1 of
             ((gone, out), w2) \<Rightarrow>
               (let s1 = add_output p out s;
                    s2 = (case gone of None \<Rightarrow> s1 | Some r \<Rightarrow> set_exit p r s1)
                in if exited s2 p then
                     (Inl (case proc_Err s2 p of
                             Some reason \<Rightarrow> reason
                           | None \<Rightarrow> TextE (dr_Kind D @ '': engine exited with status 0 before readiness: '' @
                                       tail_Last 8 (ps_out (sp_procs s2 ! p)))), s2, w2)
                   else if ho_ctxDone H w2 then
                     (Inl (WrapE (dr_Kind D @ '': engine API did not come up: '' @ err_text lastErr @ '': '' @
                                  tail_Last 5 (ps_out (sp_procs s2 ! p))) lastErr), s2, w2)
                   else case fuel of
                          0 \<Rightarrow> (Inl (WrapE (dr_Kind D @ '': engine API did not come up: '' @ err_text lastErr @ '': '' @
                                       tail_Last 5 (ps_out (sp_procs s2 ! p))) lastErr), s2, w2)
                        | Suc n \<Rightarrow> wait_loop n H D rt p (s2, w2))))"

definition waitReady :: "'w Host \<Rightarrow> 'w Driver \<Rightarrow> Runtime \<Rightarrow> nat \<Rightarrow> 'w sup \<Rightarrow> (goerr + string) \<times> 'w sup" where
  "waitReady H D rt p sw =
     wait_loop (nat (sc_StartTimeout (sp_cfg (fst sw)) div (100 * Millisecond))) H D rt p sw"

text \<open>Routes are given back, and ownership is kept when that fails.\<close>

definition unroute :: "'w Driver \<Rightarrow> 'w sup \<Rightarrow> goerr option \<times> 'w sup" where
  "unroute D sw =
     (let (s, w) = sw in
      if \<not> sp_routed s then (None, sw)
      else case dr_Router D of
             None \<Rightarrow> (None, sw)
           | Some r \<Rightarrow>
               (case ro_Unroute r w of
                  (Some e, w1) \<Rightarrow> (Some e, sup_log LevelWarning (Redactor_String (sp_redactor s) (err_text e)) s, w1)
                | (None, w1) \<Rightarrow> (None, s\<lparr>sp_routed := False\<rparr>, w1)))"

text \<open>From a ready engine to routed traffic: the optional confirmation and the routes.\<close>

definition confirm_route :: "'w Driver \<Rightarrow> Plan \<Rightarrow> Runtime \<Rightarrow> string \<Rightarrow> 'w sup \<Rightarrow> goerr option \<times> 'w sup" where
  "confirm_route D p rt cfg sw =
     (let (s, w) = sw;
          (err, w1) = (case dr_ConfirmStart D of None \<Rightarrow> (None, w) | Some confirm \<Rightarrow> confirm rt cfg w)
      in if err = None \<and> t_Enabled (p_Tun p) then
           (case dr_Router D of
              None \<Rightarrow> (None, s, w1)
            | Some r \<Rightarrow>
                (case ro_Route r p w1 of
                   (Some e, w2) \<Rightarrow> (Some e, s, w2)
                 | (None, w2) \<Rightarrow> (None, s\<lparr>sp_routed := True\<rparr>, w2)))
         else (err, s, w1))"

definition start_undo :: "'w Host \<Rightarrow> 'w Driver \<Rightarrow> nat \<Rightarrow> goerr \<Rightarrow> 'w sup \<Rightarrow> goerr option \<times> 'w sup" where
  "start_undo H D p e sw =
     (let (stopErr, s1, w1) = proc_Stop H p sw;
          s2 = (if stopErr \<noteq> None \<and> \<not> exited s1 p then s1\<lparr>sp_proc := Some p\<rparr> else s1);
          (routeErr, sw3) = unroute D (s2, w1)
      in (err_join [Some e, stopErr, routeErr], sw3))"

definition start_running :: "'w Host \<Rightarrow> 'w Driver \<Rightarrow> Plan \<Rightarrow> Runtime \<Rightarrow> string \<Rightarrow> nat \<Rightarrow> 'w sup \<Rightarrow> goerr option \<times> 'w sup" where
  "start_running H D p rt cfg pid sw =
     (let (ready, sw1) = waitReady H D rt pid sw;
          (err, sw2) = (case ready of Inl e \<Rightarrow> (Some e, sw1) | Inr v \<Rightarrow> confirm_route D p rt cfg sw1)
      in case err of
           Some e \<Rightarrow> start_undo H D pid e sw2
         | None \<Rightarrow>
             (let (s2, w2) = sw2;
                  version = (case ready of Inr reported \<Rightarrow> (case ParseVersion reported of Some v \<Rightarrow> v | None \<Rightarrow> sp_version s2)
                                         | Inl _ \<Rightarrow> sp_version s2);
                  s3 = sup_setState StRunning (s2\<lparr>sp_version := version, sp_proc := Some pid, sp_rt := rt\<rparr>);
                  s4 = sup_publish ((new_EngineEvent EngState StRunning)\<lparr>ee_Message := dr_Kind D @ '' '' @ v_Raw version @ '' is running''\<rparr>) s3
              in (None, s4\<lparr>sp_watchers := sp_watchers s4 @ [(pid, Waiting)]\<rparr>, w2)))"

definition start_runtime :: "'w Driver \<Rightarrow> Plan \<Rightarrow> Runtime \<Rightarrow> Runtime" where
  "start_runtime D p rt =
     rt\<lparr>rt_LocalProxy := lp_Enabled (p_LocalProxy p),
        rt_ProxyNames := (case dr_PlanNames D of None \<Rightarrow> rt_ProxyNames rt | Some names \<Rightarrow> rt_ProxyNames rt @ map fst (names p)),
        rt_TunDevice := (if t_Enabled (p_Tun p) then t_DeviceName (p_Tun p) else rt_TunDevice rt)\<rparr>"

text \<open>Everything up to the launch: ports, configuration, its check, and files of the engine's home.\<close>

definition prepare_start :: "'w Host \<Rightarrow> 'w Driver \<Rightarrow> Plan \<Rightarrow> 'w sup \<Rightarrow> (goerr + Runtime \<times> string) \<times> 'w" where
  "prepare_start H D p sw =
     (let (s, w) = sw in
      case reserve H D (p_PrivateControl p) s w of
        (Inl e, w1) \<Rightarrow> (Inl e, w1)
      | (Inr rt0, w1) \<Rightarrow>
          (let rt = start_runtime D p rt0 in
           case dr_Render D p rt w1 of
             (Inl e, w2) \<Rightarrow> (Inl e, w2)
           | (Inr cfg, w2) \<Rightarrow>
               (case sup_check H D rt cfg s w2 of
                  (Some e, w3) \<Rightarrow> (Inl e, w3)
                | (None, w3) \<Rightarrow>
                    (case dr_Preparer D of
                       None \<Rightarrow> (Inr (rt, cfg), w3)
                     | Some pp \<Rightarrow>
                         (case pp_PrepareStart pp p rt w3 of
                            (Some e, w4) \<Rightarrow> (Inl (errorf (dr_Kind D @ '': prepare persistent state: '') e), w4)
                          | (None, w4) \<Rightarrow> (Inr (rt, cfg), w4))))))"

definition run_spec :: "'w Driver \<Rightarrow> Runtime \<Rightarrow> string \<Rightarrow> Supervisor \<Rightarrow> Spec" where
  "run_spec D rt cfg s =
     \<lparr>spc_Name = dr_Kind D, spc_Path = b_Path (sc_Binary (sp_cfg s)), spc_Args = dr_RunArgs D rt,
      spc_Dir = sc_HomeDir (sp_cfg s), spc_Config = cfg\<rparr>"

definition sup_start :: "'w Host \<Rightarrow> 'w Driver \<Rightarrow> Plan \<Rightarrow> 'w sup \<Rightarrow> goerr option \<times> 'w sup" where
  "sup_start H D p sw =
     (let (s, w) = sw in
      case prepare_start H D p sw of
        (Inl e, w1) \<Rightarrow> (Some e, s, w1)
      | (Inr (rt, cfg), w1) \<Rightarrow>
          (case proc_Start H (run_spec D rt cfg s) (sup_setState StStarting s, w1) of
             (Inl e, sw2) \<Rightarrow> (Some e, sw2)
           | (Inr pid, sw2) \<Rightarrow> start_running H D p rt cfg pid sw2))"

section \<open>Lifecycle\<close>

definition reload :: "'w Driver \<Rightarrow> Runtime \<Rightarrow> Plan \<Rightarrow> 'w sup \<Rightarrow> goerr option \<times> 'w sup" where
  "reload D rt p sw =
     (let (s, w) = sw; s1 = sup_setState StApplying s in
      case dr_Render D p rt w of
        (Inl e, w1) \<Rightarrow> (Some (Redactor_Err (sp_redactor s1) e), sup_setState StRunning s1, w1)
      | (Inr cfg, w1) \<Rightarrow>
          (case dr_Reload D rt cfg w1 of
             (Some e, w2) \<Rightarrow>
               (Some (if err_Is (\<lambda>x. x = ErrReloadUnsupported) e then e
                      else Redactor_Err (sp_redactor s1) (errorf (dr_Kind D @ '': hot apply failed: '') e)),
                sup_setState StRunning s1, w2)
           | (None, w2) \<Rightarrow>
               (None,
                sup_setState StRunning
                  (sup_publish ((new_EngineEvent EngState StRunning)\<lparr>ee_Message := ''plan applied''\<rparr>) s1), w2)))"

text \<open>A start that fails leaves the supervisor failed and tells everyone.\<close>

definition start_or_fail :: "'w Host \<Rightarrow> 'w Driver \<Rightarrow> Plan \<Rightarrow> 'w sup \<Rightarrow> goerr option \<times> 'w sup" where
  "start_or_fail H D p sw =
     (case sup_start H D p sw of
        (None, sw1) \<Rightarrow> (None, sw1)
      | (Some e, s1, w1) \<Rightarrow>
          (let masked = Redactor_Err (sp_redactor s1) e;
               s2 = sup_log LevelError (err_text masked) (sup_setState StFailed s1)
           in (Some masked, sup_publish ((new_EngineEvent EngFatal StFailed)\<lparr>ee_Err := Some masked\<rparr>) s2, w1)))"

definition sup_Apply :: "bool \<Rightarrow> 'w Host \<Rightarrow> 'w Driver \<Rightarrow> Plan option \<Rightarrow> 'w sup \<Rightarrow> goerr option \<times> 'w sup" where
  "sup_Apply linux H D p0 sw =
     (let (s, w) = sw in
      case admit linux H D p0 s of
        Some e \<Rightarrow> (Some e, sw)
      | None \<Rightarrow>
          (case PrepareTun (ho_addrs H w) p0 of
             (_, Some e) \<Rightarrow> (Some (Redactor_Err (sp_redactor s) (TextE (ho_tun_text H e))), sw)
           | (None, None) \<Rightarrow> (Some (TextE (dr_Kind D @ '': nil plan'')), sw)
           | (Some p, None) \<Rightarrow>
               (let s1 = s\<lparr>sp_redactor := Redaction.Add (Plan_Secrets (Some p)) (sp_redactor s), sp_plan := Some p, sp_stopping := False\<rparr> in
                case sp_proc s1 of
                  None \<Rightarrow> start_or_fail H D p (s1, w)
                | Some pid \<Rightarrow>
                    if exited s1 pid then start_or_fail H D p (s1, w)
                    else
                      (case reload D (sp_rt s1) p (s1, w) of
                         (None, sw2) \<Rightarrow> (None, sw2)
                       | (Some e, s2, w2) \<Rightarrow>
                           if \<not> err_Is (\<lambda>x. x = ErrReloadUnsupported) e then (Some e, s2, w2)
                           else
                             (case proc_Stop H pid (s2\<lparr>sp_proc := None\<rparr>, w2) of
                                (Some x, s3, w3) \<Rightarrow> (Some (Redactor_Err (sp_redactor s3) x), s3, w3)
                              | (None, sw3) \<Rightarrow> start_or_fail H D p sw3)))))"

text \<open>Stop the process there was; it stays owned when it cannot be stopped.\<close>

definition stop_current :: "'w Host \<Rightarrow> nat option \<Rightarrow> 'w sup \<Rightarrow> goerr option \<times> 'w sup" where
  "stop_current H proc sw =
     (case proc of
        None \<Rightarrow> (None, sw)
      | Some p \<Rightarrow>
          (case proc_Stop H p sw of
             (e, s', w') \<Rightarrow> (e, (if e \<noteq> None \<and> \<not> exited s' p then s'\<lparr>sp_proc := Some p\<rparr> else s'), w')))"

definition sup_Stop :: "'w Host \<Rightarrow> 'w Driver \<Rightarrow> 'w sup \<Rightarrow> goerr option \<times> 'w sup" where
  "sup_Stop H D sw =
     (let (s, w) = sw;
          (stopErr, s2, w2) = stop_current H (sp_proc s) (s\<lparr>sp_stopping := True, sp_proc := None, sp_plan := None\<rparr>, w);
          (routeErr, s3, w3) = unroute D (s2, w2);
          err = err_join [stopErr, routeErr]
      in (map_option (Redactor_Err (sp_redactor s3)) err, sup_setState (if err = None then StStopped else StFailed) s3, w3))"

definition sup_Close :: "'w Host \<Rightarrow> 'w Driver \<Rightarrow> 'w sup \<Rightarrow> goerr option \<times> 'w sup" where
  "sup_Close H D sw = (case sup_Stop H D sw of (e, s, w) \<Rightarrow> (e, s\<lparr>sp_cancelled := True\<rparr>, w))"

definition sup_Running :: "'w Driver \<Rightarrow> Supervisor \<Rightarrow> goerr + Runtime" where
  "sup_Running D s =
     (case sp_proc s of
        None \<Rightarrow> Inl (errorf (dr_Kind D @ '': '') ErrNotRunning)
      | Some p \<Rightarrow> if exited s p then Inl (errorf (dr_Kind D @ '': '') ErrNotRunning) else Inr (sp_rt s))"

section \<open>Watching\<close>

definition drop_watcher :: "nat \<Rightarrow> Supervisor \<Rightarrow> Supervisor" where
  "drop_watcher p s = s\<lparr>sp_watchers := filter (\<lambda>(q, _). q \<noteq> p) (sp_watchers s)\<rparr>"

definition log_exit :: "nat \<Rightarrow> string \<Rightarrow> Supervisor \<Rightarrow> Supervisor" where
  "log_exit p status s =
     fold (\<lambda>line. sup_log LevelError (Redactor_String (sp_redactor s) line))
       (Split (tail_Last 8 (ps_out (sp_procs s ! p))) newline)
       (sup_log LevelError (''engine exited unexpectedly: '' @ status) s)"

text \<open>The first half of \<open>watch\<close>, up to the delay; \<open>why\<close> is what waiting for the process returned.\<close>

definition watch_exit :: "'w Host \<Rightarrow> 'w Driver \<Rightarrow> nat \<Rightarrow> goerr option \<Rightarrow> string \<Rightarrow> 'w sup \<Rightarrow> 'w sup" where
  "watch_exit H D p why status sw =
     (let (s0, w) = sw; s = drop_watcher p s0 in
      if sp_proc s \<noteq> Some p \<or> sp_stopping s then (s, w)
      else if (case why of Some e \<Rightarrow> err_Is (\<lambda>x. x = CanceledE) e | None \<Rightarrow> False) then (sup_setState StStopped s, w)
      else
        let err = (case why of Some e \<Rightarrow> e | None \<Rightarrow> TextE (dr_Kind D @ '': engine exited unexpectedly with status 0''));
            masked = Redactor_Err (sp_redactor s) err;
            s1 = log_exit p status s;
            s2 = sup_publish ((new_EngineEvent EngDown StRecovering)\<lparr>ee_Err := Some masked,
                   ee_Message := Redactor_String (sp_redactor s) (tail_Last 5 (ps_out (sp_procs s ! p)))\<rparr>) s1
        in case sp_plan s of
             None \<Rightarrow> (sup_setState StStopped s2, w)
           | Some plan \<Rightarrow>
               (let (ok, budget) = Allow (ho_now H w) (ho_now H w) (sp_budget s2); s3 = s2\<lparr>sp_budget := budget\<rparr> in
                if \<not> ok then
                  (let (routeErr, s4, w4) = unroute D (s3, w);
                       fatal = map_option (Redactor_Err (sp_redactor s4)) (err_join [Some err, routeErr])
                   in (sup_publish ((new_EngineEvent EngFatal StFailed)\<lparr>ee_Err := fatal,
                         ee_Message := ''more than '' @ Itoa (sc_RestartBudget (sp_cfg s4)) @ '' restarts within '' @
                           Duration_String (sc_RestartWindow (sp_cfg s4))\<rparr>)
                         (sup_setState StFailed s4), w4))
                else
                  (sup_publish ((new_EngineEvent EngRestart StRecovering)\<lparr>ee_Message := ''restarting in '' @
                       Duration_String (Delay (\<lambda>d. ho_jitter H d w) (int (Used budget) - 1))\<rparr>)
                     ((sup_setState StRecovering s3)\<lparr>sp_watchers := sp_watchers s3 @ [(p, BackingOff plan)]\<rparr>), w)))"

text \<open>The second half of \<open>watch\<close>, after the delay.\<close>

definition watch_restart :: "'w Host \<Rightarrow> 'w Driver \<Rightarrow> nat \<Rightarrow> Plan \<Rightarrow> 'w sup \<Rightarrow> 'w sup" where
  "watch_restart H D p plan sw =
     (let (s0, w) = sw; s = drop_watcher p s0 in
      if sp_proc s \<noteq> Some p \<or> sp_stopping s \<or> sp_cancelled s then (s, w)
      else
        case sup_start H D plan (s, w) of
          (None, sw1) \<Rightarrow> sw1
        | (Some e, s1, w1) \<Rightarrow>
            (sup_publish ((new_EngineEvent EngFatal StFailed)\<lparr>ee_Err := Some (Redactor_Err (sp_redactor s1) e)\<rparr>)
               (sup_setState StFailed (sup_log LevelError (Redactor_String (sp_redactor s1) (err_text e)) s1)), w1))"

lemma Duration_String_examples:
  "map Duration_String [1500 * Millisecond, 10 * Minute, 500 * Millisecond, 3661 * Second] = [''1.5s'', ''10m0s'', ''500ms'', ''1h1m1s'']"
  by (simp add: Duration_String_def frac_text_def duration_defs Let_def nat_digits.simps digit_char_def char_of_def bit_0)

end
