(* ===== verification/SupervisorLifecycle.thy ===== *)
theory SupervisorLifecycle
  imports Supervisor
begin

text \<open>
  What the supervisor guarantees over any interleaving of its callers, its watchers and engines
  that exit on their own: there is never more than one engine process, the one it can stop, and
  nothing is started again after a stop.  The exception, a replaced process that cannot be stopped,
  is shown at the end.
\<close>

section \<open>Histories\<close>

datatype sup_op =
    SupValidate "Plan option"
  | SupApply "Plan option"
  | SupStop
  | SupClose
  | SupLine string
  | SupExit nat "goerr option"
  | SupWatch nat string
  | SupRestart nat

text \<open>
  A watcher wakes up when its process has exited or the supervisor was closed, and a second time
  after the delay.  Any of the watchers may be the next to run.
\<close>

definition sup_step :: "bool \<Rightarrow> 'w Host \<Rightarrow> 'w Driver \<Rightarrow> sup_op \<Rightarrow> 'w sup \<Rightarrow> 'w sup" where
  "sup_step linux H D op sw =
     (let (s, w) = sw in
      case op of
        SupValidate p \<Rightarrow> snd (sup_Validate linux H D p sw)
      | SupApply p \<Rightarrow> snd (sup_Apply linux H D p sw)
      | SupStop \<Rightarrow> snd (sup_Stop H D sw)
      | SupClose \<Rightarrow> snd (sup_Close H D sw)
      | SupLine l \<Rightarrow> (logLine D l s, w)
      | SupExit p r \<Rightarrow> (set_exit p r s, w)
      | SupWatch p status \<Rightarrow>
          if (p, Waiting) \<in> set (sp_watchers s) then
            if exited s p then watch_exit H D p (proc_Err s p) status sw
            else if sp_cancelled s then watch_exit H D p (Some CanceledE) status sw
            else sw
          else sw
      | SupRestart p \<Rightarrow>
          (case find (\<lambda>(q, v). q = p \<and> v \<noteq> Waiting) (sp_watchers s) of
             Some (_, BackingOff plan) \<Rightarrow> watch_restart H D p plan sw
           | _ \<Rightarrow> sw))"

definition sup_run :: "bool \<Rightarrow> 'w Host \<Rightarrow> 'w Driver \<Rightarrow> sup_op list \<Rightarrow> 'w sup \<Rightarrow> 'w sup" where
  "sup_run linux H D ops sw = fold (sup_step linux H D) ops sw"

section \<open>Ownership\<close>

definition live :: "Supervisor \<Rightarrow> nat set" where
  "live s = {p. p < length (sp_procs s) \<and> ps_state (sp_procs s ! p) = Live}"

text \<open>The part of the state that owning a process and its routes is about.\<close>

definition holding :: "Supervisor \<Rightarrow> nat option \<times> bool \<times> bool \<times> nat" where
  "holding s = (sp_proc s, sp_routed s, sp_stopping s, length (sp_procs s))"

definition owned :: "'w Driver \<Rightarrow> Supervisor \<Rightarrow> bool" where
  "owned D s \<longleftrightarrow>
     (\<forall>p \<in> live s. sp_proc s = Some p) \<and> (\<forall>p. sp_proc s = Some p \<longrightarrow> p < length (sp_procs s)) \<and>
     (sp_routed s \<longrightarrow> dr_Router D \<noteq> None)"

text \<open>A step that may see processes exit but starts none and changes no ownership.\<close>

definition quiet :: "Supervisor \<Rightarrow> Supervisor \<Rightarrow> bool" where
  "quiet s s' \<longleftrightarrow> holding s' = holding s \<and> live s' \<subseteq> live s"

lemma quiet_refl [simp]: "quiet s s"
  by (simp add: quiet_def)

lemma quiet_trans: "quiet a b \<Longrightarrow> quiet b c \<Longrightarrow> quiet a c"
  by (auto simp: quiet_def)

lemma quiet_owned: "quiet s s' \<Longrightarrow> owned D s \<Longrightarrow> owned D s'"
  by (auto simp: quiet_def owned_def holding_def)

lemma owned_cong:
  "sp_procs s' = sp_procs s \<Longrightarrow> sp_proc s' = sp_proc s \<Longrightarrow> sp_routed s' = sp_routed s \<Longrightarrow> owned D s' = owned D s"
  unfolding owned_def live_def by (simp only:)

lemma ownedI:
  assumes "\<And>p. p \<in> live s \<Longrightarrow> sp_proc s = Some p" "\<And>p. sp_proc s = Some p \<Longrightarrow> p < length (sp_procs s)"
    and "sp_routed s \<Longrightarrow> dr_Router D \<noteq> None"
  shows "owned D s"
  unfolding owned_def using assms by blast

lemma owned_live: "owned D s \<Longrightarrow> p \<in> live s \<Longrightarrow> sp_proc s = Some p"
  unfolding owned_def by blast

lemma owned_bound: "owned D s \<Longrightarrow> sp_proc s = Some p \<Longrightarrow> p < length (sp_procs s)"
  unfolding owned_def by blast

lemma owned_router: "owned D s \<Longrightarrow> sp_routed s \<Longrightarrow> dr_Router D \<noteq> None"
  unfolding owned_def by blast

lemma live_running: "p \<in> live s \<Longrightarrow> \<not> exited s p"
  by (simp add: live_def exited_def)

lemma owned_idle: "owned D s \<Longrightarrow> sp_proc s = None \<or> exited s (the (sp_proc s)) \<Longrightarrow> live s = {}"
  using owned_live [of D s] live_running [of _ s] by fastforce

lemma quiet_publish [simp]: "quiet s (sup_publish ev s)"
  by (simp add: quiet_def holding_def live_def sup_publish_def)

lemma quiet_setState [simp]: "quiet s (sup_setState st s)"
  by (simp add: quiet_def holding_def live_def sup_setState_def sup_publish_def)

lemma quiet_log [simp]: "quiet s (sup_log l m s)"
  by (simp add: quiet_def holding_def live_def sup_log_def)

lemma quiet_line: "quiet s (logLine D l s)"
  by (simp add: quiet_def holding_def live_def logLine_def Let_def split: prod.split option.split)

lemma quiet_drop [simp]: "quiet s (drop_watcher p s)"
  by (simp add: quiet_def holding_def live_def drop_watcher_def)

lemma quiet_fields [simp]:
  "quiet s (s\<lparr>sp_redactor := r\<rparr>)" "quiet s (s\<lparr>sp_plan := pl\<rparr>)" "quiet s (s\<lparr>sp_budget := b\<rparr>)"
  "quiet s (s\<lparr>sp_watchers := ws\<rparr>)" "quiet s (s\<lparr>sp_cancelled := c\<rparr>)"
  by (simp_all add: quiet_def holding_def live_def)

lemma live_set_exit: "live (set_exit p r s) = live s - {p}"
  by (auto simp: live_def set_exit_def exited_def nth_list_update)

lemma quiet_set_exit: "quiet s (set_exit p r s)"
  unfolding quiet_def live_set_exit by (auto simp: holding_def set_exit_def)

lemma quiet_output: "quiet s (add_output p out s)"
proof -
  have "live (add_output p out s) \<subseteq> live s"
  proof
    fix q assume "q \<in> live (add_output p out s)"
    then show "q \<in> live s" by (cases "q = p") (auto simp: live_def add_output_def)
  qed
  then show ?thesis by (simp add: quiet_def holding_def add_output_def)
qed

lemma quiet_log_exit: "quiet s (log_exit p status s)"
proof -
  have "quiet t (fold (\<lambda>line. sup_log LevelError (f line)) ls t)" for f ls and t :: Supervisor
  proof (induction ls arbitrary: t)
    case (Cons l ls)
    from quiet_trans [OF quiet_log [of t LevelError "f l"] Cons.IH [of "sup_log LevelError (f l) t"]] show ?case by simp
  qed simp
  from quiet_trans [OF quiet_log this] show ?thesis unfolding log_exit_def .
qed

declare wait_loop.simps [simp del]

lemma quiet_wait: "quiet s (fst (snd (wait_loop fuel H D rt p (s, w))))"
proof (induction fuel arbitrary: s w)
  case 0
  show ?case
    unfolding wait_loop.simps [of 0]
    using quiet_output [of s p] quiet_trans [OF quiet_output [of s p] quiet_set_exit]
    by (simp add: Let_def split: prod.split sum.split option.split)
next
  case (Suc fuel)
  have "quiet s (fst (snd (wait_loop fuel H D rt p (add_output p out s, w'))))"
    "quiet s (fst (snd (wait_loop fuel H D rt p (set_exit p r (add_output p out s), w'))))" for out r w'
    using quiet_trans [OF quiet_output Suc.IH] quiet_trans [OF quiet_trans [OF quiet_output quiet_set_exit] Suc.IH] by blast+
  then show ?case
    unfolding wait_loop.simps [of "Suc fuel"]
    using quiet_output [of s p] quiet_trans [OF quiet_output [of s p] quiet_set_exit]
    by (simp add: Let_def split: prod.split sum.split option.split)
qed

lemma quiet_stop:
  assumes "proc_Stop H p (s, w) = (e, s', w')"
  shows "quiet s s'" and "p < length (sp_procs s) \<Longrightarrow> e = None \<Longrightarrow> p \<notin> live s'"
proof -
  show "quiet s s'"
    using assms quiet_set_exit by (auto simp: proc_Stop_def Let_def split: prod.splits if_splits)
  have halt: "halt_error name grace h = None \<Longrightarrow> halted grace h" for name grace h
    by (auto simp: halt_error_def halted_def split: if_splits option.splits)
  show "p \<notin> live s'" if "p < length (sp_procs s)" "e = None"
    using assms that live_set_exit halt
    by (auto simp: proc_Stop_def Let_def exited_def live_def split: prod.splits if_splits)
qed

text \<open>Giving routes back.\<close>

lemma unroute_effect:
  assumes "unroute D (s, w) = (e, s', w')" "sp_routed s \<longrightarrow> dr_Router D \<noteq> None"
  shows "live s' = live s \<and> sp_proc s' = sp_proc s \<and> sp_stopping s' = sp_stopping s \<and> length (sp_procs s') = length (sp_procs s) \<and>
    (sp_routed s' \<longrightarrow> sp_routed s) \<and> (e = None \<longrightarrow> \<not> sp_routed s')"
  using assms
  by (auto simp: unroute_def Let_def sup_log_def live_def split: if_splits option.splits prod.splits)

lemma unroute_owned:
  assumes "unroute D (s, w) = (e, s', w')" "owned D s"
  shows "owned D s'"
  using unroute_effect [OF assms(1)] assms(2) by (auto simp: owned_def)

section \<open>Starting and stopping own what they touch\<close>

lemma confirm_route_effect:
  assumes "confirm_route D p rt cfg (s, w) = (e, s', w')"
  shows "live s' = live s \<and> sp_proc s' = sp_proc s \<and> sp_stopping s' = sp_stopping s \<and> length (sp_procs s') = length (sp_procs s) \<and>
    (sp_routed s' \<longrightarrow> sp_routed s \<or> dr_Router D \<noteq> None)"
  using assms by (auto simp: confirm_route_def Let_def live_def split: if_splits option.splits prod.splits)

text \<open>While it starts, the only process that may be alive is the new one.\<close>

definition starting_only :: "'w Driver \<Rightarrow> nat \<Rightarrow> Supervisor \<Rightarrow> bool" where
  "starting_only D pid s \<longleftrightarrow>
     live s \<subseteq> {pid} \<and> pid < length (sp_procs s) \<and> (\<forall>p. sp_proc s = Some p \<longrightarrow> p < length (sp_procs s)) \<and>
     (sp_routed s \<longrightarrow> dr_Router D \<noteq> None)"

lemma quiet_starting: "quiet s s' \<Longrightarrow> starting_only D pid s \<Longrightarrow> starting_only D pid s'"
  by (auto simp: starting_only_def quiet_def holding_def)

lemma start_undo_owned:
  assumes st: "starting_only D pid s" and r: "start_undo H D pid e (s, w) = (e', s', w')"
  shows "owned D s' \<and> sp_stopping s' = sp_stopping s \<and> e' \<noteq> None"
proof -
  obtain x s1 w1 where p: "proc_Stop H pid (s, w) = (x, s1, w1)" by (cases "proc_Stop H pid (s, w)") auto
  have s1: "starting_only D pid s1" "sp_stopping s1 = sp_stopping s"
    using quiet_starting [OF quiet_stop(1) [OF p] st] quiet_stop(1) [OF p] by (simp_all add: quiet_def holding_def)
  define s2 where "s2 = (if x \<noteq> None \<and> \<not> exited s1 pid then s1\<lparr>sp_proc := Some pid\<rparr> else s1)"
  have gone: "x = None \<Longrightarrow> pid \<notin> live s1" using quiet_stop(2) [OF p] st by (simp add: starting_only_def)
  have "owned D s2"
    using s1(1) gone by (cases x) (auto simp: owned_def starting_only_def s2_def live_def exited_def)
  moreover obtain y s3 w3 where u: "unroute D (s2, w1) = (y, s3, w3)" by (cases "unroute D (s2, w1)") auto
  ultimately have "owned D s3" "sp_stopping s3 = sp_stopping s2"
    using unroute_owned [OF u] unroute_effect [OF u] by (auto simp: owned_def)
  moreover have "s' = s3" "e' = err_join [Some e, x, y]"
    using r unfolding start_undo_def p Let_def prod.case s2_def [symmetric] u by auto
  ultimately show ?thesis using s1(2) by (simp add: s2_def err_join_def map_filter_def)
qed

lemma start_running_owned:
  assumes st: "starting_only D pid s" and r: "start_running H D p rt cfg pid (s, w) = (e', s', w')"
  shows "owned D s' \<and> sp_stopping s' = sp_stopping s"
proof -
  obtain ready s1 w1 where wr: "waitReady H D rt pid (s, w) = (ready, s1, w1)" by (cases "waitReady H D rt pid (s, w)") auto
  have q1: "quiet s s1"
    using quiet_wait [of s "nat (sc_StartTimeout (sp_cfg s) div (100 * Millisecond))" H D rt pid w] wr by (simp add: waitReady_def)
  obtain err s2 w2 where c: "(case ready of Inl e \<Rightarrow> (Some e, s1, w1) | Inr v \<Rightarrow> confirm_route D p rt cfg (s1, w1)) = (err, s2, w2)"
    by (metis prod_cases3)
  have st1: "starting_only D pid s1" "sp_stopping s1 = sp_stopping s"
    using quiet_starting [OF q1 st] q1 by (simp_all add: quiet_def holding_def)
  have st2: "starting_only D pid s2 \<and> sp_stopping s2 = sp_stopping s"
    using c st1 confirm_route_effect [of D p rt cfg s1 w1 err s2 w2] by (cases ready) (auto simp: starting_only_def)
  show ?thesis
  proof (cases err)
    case (Some e)
    then have "start_undo H D pid e (s2, w2) = (e', s', w')"
      using r unfolding start_running_def wr Let_def prod.case c by simp
    from start_undo_owned [OF _ this] st2 show ?thesis by simp
  next
    case None
    define version where "version = (case ready of Inr reported \<Rightarrow> (case ParseVersion reported of Some v \<Rightarrow> v | None \<Rightarrow> sp_version s2)
                                         | Inl _ \<Rightarrow> sp_version s2)"
    define s3 where "s3 = s2\<lparr>sp_version := version, sp_proc := Some pid, sp_rt := rt\<rparr>"
    have "owned D s3" "sp_stopping s3 = sp_stopping s" using st2 by (auto simp: s3_def owned_def starting_only_def live_def)
    moreover have "quiet s3 s'"
    proof -
      define s4 where "s4 = sup_publish ((new_EngineEvent EngState StRunning)\<lparr>ee_Message := dr_Kind D @ '' '' @ v_Raw version @ '' is running''\<rparr>)
        (sup_setState StRunning s3)"
      have "s' = s4\<lparr>sp_watchers := sp_watchers s4 @ [(pid, Waiting)]\<rparr>"
        using r unfolding start_running_def wr Let_def prod.case c None by (simp add: version_def s3_def s4_def)
      moreover have "quiet s3 s4" unfolding s4_def by (rule quiet_trans [OF quiet_setState quiet_publish])
      ultimately show ?thesis using quiet_trans quiet_fields(4) by metis
    qed
    ultimately show ?thesis using quiet_owned by (auto simp: quiet_def holding_def)
  qed
qed

lemma proc_Start_cases:
  assumes "proc_Start H spec (s, w) = (r, s', w')"
  shows "case r of
      Inl _ \<Rightarrow> s' = s
    | Inr pid \<Rightarrow> pid = length (sp_procs s) \<and>
        s' = s\<lparr>sp_procs := sp_procs s @ [\<lparr>ps_name = spc_Name spec, ps_state = Live, ps_out = NewTail 80\<rparr>]\<rparr>"
  using assms unfolding proc_Start_def Let_def prod.case
  by (cases "spc_Path spec = [] \<or> spc_Dir spec = []") (auto split: option.splits prod.splits)

lemma live_append: "live (s\<lparr>sp_procs := sp_procs s @ [pr]\<rparr>) \<subseteq> insert (length (sp_procs s)) (live s)"
  by (auto simp: live_def nth_append less_Suc_eq split: if_splits)

lemma proc_Start_starting:
  assumes "proc_Start H spec (s, w) = (r, s', w')" "owned D s" "live s = {}"
  shows "sp_stopping s' = sp_stopping s \<and> (case r of Inl _ \<Rightarrow> owned D s' | Inr pid \<Rightarrow> starting_only D pid s')"
proof (cases r)
  case (Inl x)
  then show ?thesis using proc_Start_cases [OF assms(1)] assms(2) by simp
next
  case (Inr pid)
  note c = proc_Start_cases [OF assms(1), unfolded Inr sum.case]
  have "live s' \<subseteq> {pid}" using live_append [of s] c assms(3) by simp
  moreover have "sp_proc s = Some q \<Longrightarrow> q < Suc (length (sp_procs s))" for q
    using assms(2) by (auto simp: owned_def intro: less_SucI)
  ultimately show ?thesis using c assms(2) by (simp add: Inr starting_only_def owned_def)
qed

lemma sup_start_owned:
  assumes "sup_start H D p (s, w) = (e, s', w')" "owned D s" "live s = {}"
  shows "owned D s' \<and> sp_stopping s' = sp_stopping s"
proof -
  define s0 where "s0 = sup_setState StStarting s"
  have q: "quiet s s0" by (simp add: s0_def)
  have o: "owned D s0" "live s0 = {}" "sp_stopping s0 = sp_stopping s"
    using quiet_owned [OF q assms(2)] q assms(3) by (auto simp: quiet_def holding_def)
  obtain pr w1 where p: "prepare_start H D p (s, w) = (pr, w1)" by (cases "prepare_start H D p (s, w)")
  show ?thesis
  proof (cases pr)
    case (Inl x)
    then show ?thesis using assms(1,2) p by (simp add: sup_start_def)
  next
    case (Inr rc)
    obtain rt cfg where rc: "rc = (rt, cfg)" by (cases rc)
    obtain r s5 w5 where ps: "proc_Start H (run_spec D rt cfg s) (s0, w1) = (r, s5, w5)"
      by (cases "proc_Start H (run_spec D rt cfg s) (s0, w1)") auto
    have run: "sup_start H D p (s, w) = (case r of Inl e \<Rightarrow> (Some e, s5, w5) | Inr pid \<Rightarrow> start_running H D p rt cfg pid (s5, w5))"
      unfolding sup_start_def Let_def prod.case p Inr rc sum.case s0_def [symmetric] ps by (simp split: sum.split)
    note ok = proc_Start_starting [OF ps o(1,2)]
    show ?thesis
    proof (cases r)
      case (Inl x)
      then show ?thesis using run assms(1) ok o(3) by simp
    next
      case (Inr pid)
      then have "start_running H D p rt cfg pid (s5, w5) = (e, s', w')" using run assms(1) by simp
      from start_running_owned [OF _ this] ok o(3) Inr show ?thesis by simp
    qed
  qed
qed

lemma start_or_fail_owned:
  assumes "start_or_fail H D p (s, w) = (e, s', w')" "owned D s" "live s = {}"
  shows "owned D s' \<and> sp_stopping s' = sp_stopping s"
proof -
  obtain x s1 w1 where st: "sup_start H D p (s, w) = (x, s1, w1)" by (cases "sup_start H D p (s, w)") auto
  note ok = sup_start_owned [OF st assms(2,3)]
  have "quiet s1 s'"
    using assms(1) st unfolding start_or_fail_def
    by (cases x) (auto simp: Let_def intro: quiet_trans [OF quiet_trans [OF quiet_setState quiet_log] quiet_publish])
  then show ?thesis using ok quiet_owned by (auto simp: quiet_def holding_def)
qed

lemma quiet_reload: "reload D rt p (s, w) = (e, s', w') \<Longrightarrow> quiet s s'"
  by (auto simp: reload_def Let_def split: prod.splits sum.splits option.splits
      intro: quiet_trans [OF quiet_setState quiet_setState] quiet_trans [OF quiet_trans [OF quiet_setState quiet_publish] quiet_setState])

text \<open>A driver whose engine reloads a running configuration, as mihomo does with an unchanged fake-address pool.\<close>

definition hot_reload :: "'w Driver \<Rightarrow> bool" where
  "hot_reload D \<longleftrightarrow> (\<forall>rt cfg w e w'. dr_Reload D rt cfg w = (Some e, w') \<longrightarrow> \<not> err_Is (\<lambda>x. x = ErrReloadUnsupported) e)"

text \<open>A driver whose configuration can be rendered without an error of that meaning.\<close>

definition plain_render :: "'w Driver \<Rightarrow> bool" where
  "plain_render D \<longleftrightarrow> (\<forall>p rt w e w'. dr_Render D p rt w = (Inl e, w') \<longrightarrow> \<not> err_Is (\<lambda>x. x = ErrReloadUnsupported) e)"

text \<open>A host on which a process that is stopped ends, whatever error the attempt reports.\<close>

definition killable :: "'w Host \<Rightarrow> bool" where
  "killable H \<longleftrightarrow> (\<forall>p w grace. halted grace (fst (ho_halt H p w)))"

definition replaceable :: "'w Host \<Rightarrow> 'w Driver \<Rightarrow> bool" where
  "replaceable H D \<longleftrightarrow> (hot_reload D \<and> plain_render D) \<or> killable H"

lemma killable_stop:
  assumes "killable H" "proc_Stop H p (s, w) = (e, s', w')" "p < length (sp_procs s)"
  shows "p \<notin> live s'"
proof (cases "exited s p")
  case True
  then show ?thesis using assms(2) by (auto simp: proc_Stop_def dest: live_running)
next
  case False
  obtain h w1 where h: "ho_halt H p w = (h, w1)" by (cases "ho_halt H p w")
  have "halted (sc_StopGrace (sp_cfg s)) h" using assms(1) h unfolding killable_def by (metis fst_conv)
  then have "s' = set_exit p (ha_exit h) s" using assms(2) False h by (simp add: proc_Stop_def)
  then show ?thesis by (simp add: live_set_exit)
qed

lemma err_Is_wrap: "err_Is P (WrapE m e) \<longleftrightarrow> P (WrapE m e) \<or> err_Is P e"
  by (simp add: err_Is_def chain.simps [of "WrapE m e"])

lemma reload_supported:
  assumes "hot_reload D" "plain_render D" "reload D rt p (s, w) = (Some e, s', w')"
  shows "\<not> err_Is (\<lambda>x. x = ErrReloadUnsupported) e"
proof -
  obtain r w1 where ren: "dr_Render D p rt w = (r, w1)" by (cases "dr_Render D p rt w")
  show ?thesis
  proof (cases r)
    case (Inl x)
    then have "\<not> err_Is (\<lambda>x. x = ErrReloadUnsupported) x" using assms(2) ren unfolding plain_render_def by blast
    then show ?thesis using assms(3) ren Inl by (auto simp: reload_def Let_def Redactor_Err_def err_Is_wrap ErrReloadUnsupported_def)
  next
    case (Inr cfg)
    obtain x w2 where rel: "dr_Reload D rt cfg w1 = (x, w2)" by (cases "dr_Reload D rt cfg w1")
    then obtain y where y: "x = Some y" using assms(3) ren Inr by (cases x) (auto simp: reload_def Let_def)
    have "\<not> err_Is (\<lambda>x. x = ErrReloadUnsupported) y" using assms(1) rel y unfolding hot_reload_def by blast
    then show ?thesis
      using assms(3) ren Inr rel y
      by (auto simp: reload_def Let_def Redactor_Err_def errorf_def err_Is_wrap ErrReloadUnsupported_def)
  qed
qed

lemma sup_Apply_owned:
  assumes o: "owned D s" and d: "replaceable H D" and r: "sup_Apply linux H D p0 (s, w) = (e, s', w')"
  shows "owned D s'"
proof (cases "admit linux H D p0 s")
  case (Some x)
  then show ?thesis using r o by (simp add: sup_Apply_def)
next
  case None
  note ad = this
  obtain pp te where pt: "PrepareTun (ho_addrs H w) p0 = (pp, te)" by (cases "PrepareTun (ho_addrs H w) p0")
  show ?thesis
  proof (cases "te = None \<and> pp \<noteq> None")
    case False
    then show ?thesis using r o ad pt by (cases te; cases pp) (auto simp: sup_Apply_def)
  next
    case True
    then obtain p where p: "pp = Some p" "te = None" by auto
    define s1 where "s1 = s\<lparr>sp_redactor := Redaction.Add (Plan_Secrets (Some p)) (sp_redactor s), sp_plan := Some p, sp_stopping := False\<rparr>"
    have o1: "owned D s1" using o owned_cong [of s1 s D] by (simp add: s1_def)
    have run: "sup_Apply linux H D p0 (s, w) = (case sp_proc s1 of
         None \<Rightarrow> start_or_fail H D p (s1, w)
       | Some pid \<Rightarrow>
           if exited s1 pid then start_or_fail H D p (s1, w)
           else (case reload D (sp_rt s1) p (s1, w) of
                   (None, sw2) \<Rightarrow> (None, sw2)
                 | (Some e, s2, w2) \<Rightarrow>
                     if \<not> err_Is (\<lambda>x. x = ErrReloadUnsupported) e then (Some e, s2, w2)
                     else (case proc_Stop H pid (s2\<lparr>sp_proc := None\<rparr>, w2) of
                             (Some x, s3, w3) \<Rightarrow> (Some (Redactor_Err (sp_redactor s3) x), s3, w3)
                           | (None, sw3) \<Rightarrow> start_or_fail H D p sw3)))"
      unfolding sup_Apply_def Let_def prod.case ad option.case pt p s1_def [symmetric] ..
    show ?thesis
    proof (cases "sp_proc s1 = None \<or> exited s1 (the (sp_proc s1))")
      case True
      have "start_or_fail H D p (s1, w) = (e, s', w')" using run r True by (cases "sp_proc s1") auto
      from start_or_fail_owned [OF this o1 owned_idle [OF o1 True]] show ?thesis by simp
    next
      case False
      obtain x s2 w2 where rl: "reload D (sp_rt s1) p (s1, w) = (x, s2, w2)" by (cases "reload D (sp_rt s1) p (s1, w)") auto
      note o2 = quiet_owned [OF quiet_reload [OF rl] o1]
      show ?thesis
      proof (cases "x = None \<or> \<not> err_Is (\<lambda>y. y = ErrReloadUnsupported) (the x)")
        case True
        then have "s' = s2" using run r False rl by (cases "sp_proc s1"; cases x) auto
        then show ?thesis using o2 by simp
      next
        case unsupported: False
        then obtain y where y: "x = Some y" "err_Is (\<lambda>y. y = ErrReloadUnsupported) y" by (cases x) auto
        have k: "killable H" using d reload_supported [of D "sp_rt s1" p s1 w y s2 w2] rl y by (auto simp: replaceable_def)
        obtain pid where pid: "sp_proc s1 = Some pid" using False by auto
        obtain z s3 w3 where st: "proc_Stop H pid (s2\<lparr>sp_proc := None\<rparr>, w2) = (z, s3, w3)"
          by (cases "proc_Stop H pid (s2\<lparr>sp_proc := None\<rparr>, w2)") auto
        have pid2: "sp_proc s2 = Some pid" using quiet_reload [OF rl] pid by (simp add: quiet_def holding_def)
        have lv: "live (s2\<lparr>sp_proc := None\<rparr>) = live s2" by (simp add: live_def)
        have q: "quiet (s2\<lparr>sp_proc := None\<rparr>) s3" using quiet_stop(1) [OF st] .
        have "pid \<notin> live s3" using killable_stop [OF k st] owned_bound [OF o2 pid2] by simp
        then have l3: "live s3 = {}" using q lv owned_live [OF o2] pid2 by (auto simp: quiet_def)
        have o3: "owned D s3" by (rule ownedI) (use l3 q owned_router [OF o2] in \<open>auto simp: quiet_def holding_def\<close>)
        have "s' = s3 \<or> start_or_fail H D p (s3, w3) = (e, s', w')"
          using run r False rl y pid st by (cases z) auto
        then show ?thesis using o3 start_or_fail_owned [OF _ o3 l3, of H p w3 e s' w'] by auto
      qed
    qed
  qed
qed

lemma sup_Stop_owned:
  assumes o: "owned D s" and r: "sup_Stop H D (s, w) = (e, s', w')"
  shows "owned D s' \<and> sp_stopping s' \<and> (e = None \<longrightarrow> live s' = {} \<and> \<not> sp_routed s')"
proof -
  define s1 where "s1 = s\<lparr>sp_stopping := True, sp_proc := None, sp_plan := None\<rparr>"
  obtain x s2 w2 where st: "stop_current H (sp_proc s) (s1, w) = (x, s2, w2)"
    by (cases "stop_current H (sp_proc s) (s1, w)") auto
  have s2: "owned D s2 \<and> sp_stopping s2 \<and> (x = None \<longrightarrow> live s2 = {})"
  proof (cases "sp_proc s")
    case None
    then have "s2 = s1" using st by (simp add: stop_current_def)
    moreover have "live s1 = {}" using owned_idle [OF o] None by (simp add: live_def s1_def)
    moreover have "owned D s1" using o owned_cong [of s1 s D] None by (simp add: s1_def)
    ultimately show ?thesis by (simp add: s1_def)
  next
    case (Some p)
    obtain y s3 w3 where ps: "proc_Stop H p (s1, w) = (y, s3, w3)" by (cases "proc_Stop H p (s1, w)") auto
    have eq: "x = y" "s2 = (if y \<noteq> None \<and> \<not> exited s3 p then s3\<lparr>sp_proc := Some p\<rparr> else s3)" using st Some ps by (auto simp: stop_current_def)
    have "live s1 = live s" by (simp add: live_def s1_def)
    then have l: "live s1 \<subseteq> {p}" "p < length (sp_procs s1)"
      using owned_live [OF o] owned_bound [OF o Some] Some by (auto simp: s1_def)
    note q = quiet_stop(1) [OF ps]
    have q2: "sp_proc s3 = None" "sp_stopping s3" "length (sp_procs s3) = length (sp_procs s1)" "sp_routed s3 = sp_routed s" "live s3 \<subseteq> {p}"
      using q l(1) by (auto simp: quiet_def holding_def s1_def)
    have gone: "y = None \<Longrightarrow> live s3 = {}" using quiet_stop(2) [OF ps l(2)] q2(5) by auto
    show ?thesis
    proof (cases "y \<noteq> None \<and> \<not> exited s3 p")
      case True
      have lv: "live (s3\<lparr>sp_proc := Some p\<rparr>) \<subseteq> {p}" using q2(5) by (simp add: live_def)
      have "owned D (s3\<lparr>sp_proc := Some p\<rparr>)"
        by (rule ownedI) (use lv q2(3,4) l(2) owned_router [OF o] in auto)
      then show ?thesis using eq True q2(2) by auto
    next
      case False
      then have "p \<notin> live s3" using gone live_running [of p s3] by (cases y) auto
      then have "live s3 = {}" using q2(5) by auto
      moreover from this have "owned D s3" by (intro ownedI) (use q2(1,4) owned_router [OF o] in auto)
      moreover have "s2 = s3" unfolding eq(2) by (rule if_not_P [OF False])
      ultimately show ?thesis using q2(2) by simp
    qed
  qed
  obtain y s3 w3 where u: "unroute D (s2, w2) = (y, s3, w3)" by (cases "unroute D (s2, w2)") auto
  note ue = unroute_effect [OF u] and uo = unroute_owned [OF u]
  have fin: "s' = sup_setState (if err_join [x, y] = None then StStopped else StFailed) s3" "e = map_option (Redactor_Err (sp_redactor s3)) (err_join [x, y])"
    using r unfolding sup_Stop_def Let_def prod.case s1_def [symmetric] st u by auto
  have q: "quiet s3 s'" unfolding fin(1) by simp
  have "owned D s3" "sp_stopping s3" "live s3 = live s2" "y = None \<longrightarrow> \<not> sp_routed s3" using s2 uo ue owned_router [of D s2] by auto
  moreover have "e = None \<Longrightarrow> x = None \<and> y = None"
    using fin(2) by (cases x; cases y) (simp_all add: err_join_def map_filter_def)
  ultimately show ?thesis using q quiet_owned [OF q] s2 by (auto simp: quiet_def holding_def)
qed

text \<open>A watcher never touches a process that is not current, and starts one only when that has exited.\<close>

lemma watch_exit_owned:
  assumes "owned D s" "watch_exit H D p why status (s, w) = (s', w')"
  shows "owned D s' \<and> sp_stopping s' = sp_stopping s \<and> live s' \<subseteq> live s \<and> (sp_routed s' \<longrightarrow> sp_routed s)"
proof -
  define s0 where "s0 = drop_watcher p s"
  have q0: "quiet s s0" by (simp add: s0_def)
  have via: ?thesis if "quiet s s'" using that quiet_owned [OF that assms(1)] by (auto simp: quiet_def holding_def)
  show ?thesis
  proof (cases "sp_proc s0 \<noteq> Some p \<or> sp_stopping s0 \<or> (case why of Some e \<Rightarrow> err_Is (\<lambda>x. x = CanceledE) e | None \<Rightarrow> False)")
    case True
    then have "s' = s0 \<or> s' = sup_setState StStopped s0"
      using assms(2) unfolding watch_exit_def Let_def prod.case s0_def [symmetric] by (auto split: if_splits)
    then show ?thesis using via q0 quiet_trans [OF q0 quiet_setState] by auto
  next
    case False
    define err where "err = (case why of Some e \<Rightarrow> e | None \<Rightarrow> TextE (dr_Kind D @ '': engine exited unexpectedly with status 0''))"
    define s2 where "s2 = sup_publish ((new_EngineEvent EngDown StRecovering)\<lparr>ee_Err := Some (Redactor_Err (sp_redactor s0) err),
                   ee_Message := Redactor_String (sp_redactor s0) (tail_Last 5 (ps_out (sp_procs s0 ! p)))\<rparr>) (log_exit p status s0)"
    have q2: "quiet s s2" unfolding s2_def by (rule quiet_trans [OF quiet_trans [OF q0 quiet_log_exit] quiet_publish])
    obtain ok b where al: "Allow (ho_now H w) (ho_now H w) (sp_budget s2) = (ok, b)" by (cases "Allow (ho_now H w) (ho_now H w) (sp_budget s2)")
    define s3 where "s3 = s2\<lparr>sp_budget := b\<rparr>"
    have q3: "quiet s s3" unfolding s3_def by (rule quiet_trans [OF q2 quiet_fields(3)])
    obtain y s4 w4 where u: "unroute D (s3, w) = (y, s4, w4)" by (cases "unroute D (s3, w)") auto
    have s4: "owned D s4 \<and> sp_stopping s4 = sp_stopping s \<and> live s4 \<subseteq> live s \<and> (sp_routed s4 \<longrightarrow> sp_routed s)"
      using unroute_owned [OF u] unroute_effect [OF u] quiet_owned [OF q3 assms(1)] q3 owned_router [of D s3] by (auto simp: quiet_def holding_def)
    consider "quiet s s'" | ev where "s' = sup_publish ev (sup_setState StFailed s4)"
    proof (cases "sp_plan s0")
      case None
      then have "s' = sup_setState StStopped s2"
        using assms(2) False unfolding watch_exit_def Let_def prod.case s0_def [symmetric] err_def [symmetric] s2_def [symmetric] by simp
      then show ?thesis using that(1) quiet_trans [OF q2 quiet_setState] by simp
    next
      case (Some plan)
      show ?thesis
      proof (cases ok)
        case True
        then have "\<exists>ev. s' = sup_publish ev ((sup_setState StRecovering s3)\<lparr>sp_watchers := sp_watchers s3 @ [(p, BackingOff plan)]\<rparr>)"
          using assms(2) False Some al
          unfolding watch_exit_def Let_def prod.case s0_def [symmetric] err_def [symmetric] s2_def [symmetric] by (auto simp: s3_def)
        then show ?thesis
          using that(1) quiet_trans [OF quiet_trans [OF quiet_trans [OF q3 quiet_setState] quiet_fields(4)] quiet_publish] by metis
      next
        case False
        then have "\<exists>ev. s' = sup_publish ev (sup_setState StFailed s4)"
          using assms(2) \<open>\<not> (_ \<or> _)\<close> Some al u
          unfolding watch_exit_def Let_def prod.case s0_def [symmetric] err_def [symmetric] s2_def [symmetric] by (auto simp: s3_def)
        then show ?thesis using that(2) by blast
      qed
    qed
    then show ?thesis
    proof cases
      case 2
      have q: "quiet s4 s'" unfolding 2 by (rule quiet_trans [OF quiet_setState quiet_publish])
      then show ?thesis using s4 quiet_owned [OF q] by (auto simp: quiet_def holding_def)
    qed (rule via)
  qed
qed

lemma watch_restart_owned:
  assumes o: "owned D s" and e: "sp_proc s = Some p \<Longrightarrow> exited s p" and r: "watch_restart H D p plan (s, w) = (s', w')"
  shows "owned D s' \<and> sp_stopping s' = sp_stopping s \<and> (sp_stopping s \<longrightarrow> quiet s s')"
proof -
  define s0 where "s0 = drop_watcher p s"
  have q0: "quiet s s0" by (simp add: s0_def)
  show ?thesis
  proof (cases "sp_proc s0 \<noteq> Some p \<or> sp_stopping s0 \<or> sp_cancelled s0")
    case True
    then have "s' = s0" using r unfolding watch_restart_def Let_def prod.case s0_def [symmetric] by simp
    then show ?thesis using q0 quiet_owned [OF q0 o] by (simp add: quiet_def holding_def)
  next
    case False
    have pr: "sp_proc s = Some p" "\<not> sp_stopping s" using False q0 by (auto simp: quiet_def holding_def)
    have "live s0 = {}" using owned_idle [OF o] e pr(1) q0 by (auto simp: quiet_def)
    moreover obtain x s1 w1 where st: "sup_start H D plan (s0, w) = (x, s1, w1)" by (cases "sup_start H D plan (s0, w)") auto
    ultimately have s1: "owned D s1" "sp_stopping s1 = sp_stopping s0"
      using sup_start_owned [OF st quiet_owned [OF q0 o]] by auto
    have q: "quiet s1 s'"
    proof (cases x)
      case None
      then show ?thesis using r False st unfolding watch_restart_def Let_def prod.case s0_def [symmetric] by simp
    next
      case (Some y)
      then have "\<exists>ev m. s' = sup_publish ev (sup_setState StFailed (sup_log LevelError m s1))"
        using r False st unfolding watch_restart_def Let_def prod.case s0_def [symmetric] by auto
      then show ?thesis using quiet_trans [OF quiet_trans [OF quiet_log quiet_setState] quiet_publish] by metis
    qed
    then show ?thesis using quiet_owned [OF q s1(1)] s1(2) pr(2) q0 by (auto simp: quiet_def holding_def)
  qed
qed

lemma sup_Validate_quiet: "sup_Validate linux H D p (s, w) = (e, s', w') \<Longrightarrow> quiet s s'"
  by (auto simp: sup_Validate_def Let_def split: option.splits prod.splits intro: quiet_trans [OF quiet_fields(1) quiet_log])

section \<open>Delayed restarts\<close>

text \<open>
  A watcher that waits for its delay belongs to a process that has exited: processes that exited
  stay so, and only the first half of \<open>watch\<close> adds such a watcher.
\<close>

definition backing :: "Supervisor \<Rightarrow> nat set" where
  "backing s = {p. \<exists>plan. (p, BackingOff plan) \<in> set (sp_watchers s)}"

definition over :: "Supervisor \<Rightarrow> nat set" where
  "over s = {p. p < length (sp_procs s) \<and> exited s p}"

definition steady :: "Supervisor \<Rightarrow> Supervisor \<Rightarrow> bool" where
  "steady s s' \<longleftrightarrow> over s \<subseteq> over s' \<and> backing s' \<subseteq> backing s"

lemma steady_refl [simp]: "steady s s"
  by (simp add: steady_def)

lemma steady_trans: "steady a b \<Longrightarrow> steady b c \<Longrightarrow> steady a c"
  by (auto simp: steady_def)

lemma steady_same: "sp_procs s' = sp_procs s \<Longrightarrow> sp_watchers s' = sp_watchers s \<Longrightarrow> steady s s'"
  by (simp add: steady_def over_def backing_def exited_def)

lemma steady_small [simp]:
  "steady s (sup_publish ev s)" "steady s (sup_setState st s)" "steady s (sup_log l m s)" "steady s (logLine D line s)"
  by (rule steady_same; simp add: sup_publish_def sup_setState_def sup_log_def logLine_def Let_def split: prod.split option.split)+

lemma steady_drop [simp]: "steady s (drop_watcher p s)"
  by (auto simp: steady_def over_def backing_def exited_def drop_watcher_def)

lemma steady_set_exit [simp]: "steady s (set_exit p r s)"
  by (auto simp: steady_def over_def backing_def exited_def set_exit_def nth_list_update)

lemma steady_output [simp]: "steady s (add_output p out s)"
proof -
  have "q \<in> over (add_output p out s)" if "q \<in> over s" for q
    using that by (cases "q = p") (simp_all add: over_def exited_def add_output_def)
  then show ?thesis by (auto simp: steady_def backing_def add_output_def)
qed

lemma steady_wait: "steady s (fst (snd (wait_loop fuel H D rt p (s, w))))"
proof (induction fuel arbitrary: s w)
  case 0
  show ?case
    unfolding wait_loop.simps [of 0]
    using steady_trans [OF steady_output [of s p] steady_set_exit]
    by (simp add: Let_def split: prod.split sum.split option.split)
next
  case (Suc fuel)
  have "steady s (fst (snd (wait_loop fuel H D rt p (add_output p out s, w'))))"
    "steady s (fst (snd (wait_loop fuel H D rt p (set_exit p r (add_output p out s), w'))))" for out r w'
    using steady_trans [OF steady_output Suc.IH] steady_trans [OF steady_trans [OF steady_output steady_set_exit] Suc.IH] by blast+
  then show ?case
    unfolding wait_loop.simps [of "Suc fuel"]
    using steady_trans [OF steady_output [of s p] steady_set_exit]
    by (simp add: Let_def split: prod.split sum.split option.split)
qed

lemma steady_stop: "proc_Stop H p (s, w) = (e, s', w') \<Longrightarrow> steady s s'"
  by (auto simp: proc_Stop_def Let_def split: prod.splits if_splits)

lemma steady_unroute: "unroute D (s, w) = (e, s', w') \<Longrightarrow> steady s s'"
  by (auto simp: unroute_def Let_def split: if_splits option.splits prod.splits intro: steady_same)

lemma steady_confirm: "confirm_route D p rt cfg (s, w) = (e, s', w') \<Longrightarrow> steady s s'"
  by (auto simp: confirm_route_def Let_def split: if_splits option.splits prod.splits intro: steady_same)

lemma steady_undo:
  assumes "start_undo H D pid e (s, w) = (e', s', w')"
  shows "steady s s'"
proof -
  obtain x s1 w1 where p: "proc_Stop H pid (s, w) = (x, s1, w1)" by (cases "proc_Stop H pid (s, w)") auto
  define s2 where "s2 = (if x \<noteq> None \<and> \<not> exited s1 pid then s1\<lparr>sp_proc := Some pid\<rparr> else s1)"
  have "steady s1 s2" by (rule steady_same) (simp_all add: s2_def)
  moreover obtain y s3 w3 where u: "unroute D (s2, w1) = (y, s3, w3)" by (cases "unroute D (s2, w1)") auto
  moreover have "s' = s3" using assms unfolding start_undo_def p Let_def prod.case s2_def [symmetric] u by auto
  ultimately show ?thesis using steady_stop [OF p] steady_unroute [OF u] steady_trans by blast
qed

lemma steady_running:
  assumes r: "start_running H D p rt cfg pid (s, w) = (e', s', w')"
  shows "steady s s'"
proof -
  obtain ready s1 w1 where wr: "waitReady H D rt pid (s, w) = (ready, s1, w1)" by (cases "waitReady H D rt pid (s, w)") auto
  have q1: "steady s s1"
    using steady_wait [of s "nat (sc_StartTimeout (sp_cfg s) div (100 * Millisecond))" H D rt pid w] wr by (simp add: waitReady_def)
  obtain err s2 w2 where c: "(case ready of Inl e \<Rightarrow> (Some e, s1, w1) | Inr v \<Rightarrow> confirm_route D p rt cfg (s1, w1)) = (err, s2, w2)"
    by (metis prod_cases3)
  have q2: "steady s s2" using c steady_confirm [of D p rt cfg s1 w1 err s2 w2] steady_trans [OF q1] q1 by (cases ready) auto
  show ?thesis
  proof (cases err)
    case (Some e)
    then have "start_undo H D pid e (s2, w2) = (e', s', w')"
      using r unfolding start_running_def wr Let_def prod.case c by simp
    from steady_trans [OF q2 steady_undo [OF this]] show ?thesis .
  next
    case None
    then have "sp_procs s' = sp_procs s2" "sp_watchers s' = sp_watchers s2 @ [(pid, Waiting)]"
      using r unfolding start_running_def wr Let_def prod.case c by (auto simp: sup_publish_def sup_setState_def)
    then have "steady s2 s'" by (auto simp: steady_def over_def backing_def exited_def)
    then show ?thesis using steady_trans [OF q2] by blast
  qed
qed

lemma steady_append: "steady s (s\<lparr>sp_procs := sp_procs s @ [pr]\<rparr>)"
  by (auto simp: steady_def over_def backing_def exited_def nth_append)

lemma steady_start:
  assumes "sup_start H D p (s, w) = (e, s', w')"
  shows "steady s s'"
proof -
  obtain pr w1 where p: "prepare_start H D p (s, w) = (pr, w1)" by (cases "prepare_start H D p (s, w)")
  show ?thesis
  proof (cases pr)
    case (Inl x)
    then show ?thesis using assms p by (simp add: sup_start_def)
  next
    case (Inr rc)
    obtain rt cfg where rc: "rc = (rt, cfg)" by (cases rc)
    define s0 where "s0 = sup_setState StStarting s"
    obtain r s5 w5 where ps: "proc_Start H (run_spec D rt cfg s) (s0, w1) = (r, s5, w5)"
      by (cases "proc_Start H (run_spec D rt cfg s) (s0, w1)") auto
    have run: "sup_start H D p (s, w) = (case r of Inl e \<Rightarrow> (Some e, s5, w5) | Inr pid \<Rightarrow> start_running H D p rt cfg pid (s5, w5))"
      unfolding sup_start_def Let_def prod.case p Inr rc sum.case s0_def [symmetric] ps by (simp split: sum.split)
    have "steady s s0" by (simp add: s0_def)
    moreover have "steady s0 s5" using proc_Start_cases [OF ps] steady_append by (cases r) auto
    moreover have "steady s5 s'" using run assms steady_running [of H D p rt cfg _ s5 w5 e s' w'] by (cases r) auto
    ultimately show ?thesis using steady_trans by blast
  qed
qed

lemma steady_start_or_fail:
  assumes "start_or_fail H D p (s, w) = (e, s', w')"
  shows "steady s s'"
proof -
  obtain x s1 w1 where st: "sup_start H D p (s, w) = (x, s1, w1)" by (cases "sup_start H D p (s, w)") auto
  have "steady s1 s'"
    using assms st unfolding start_or_fail_def
    by (cases x) (auto simp: Let_def intro: steady_trans [OF steady_trans [OF steady_small(2) steady_small(3)] steady_small(1)])
  then show ?thesis using steady_trans [OF steady_start [OF st]] by blast
qed

lemma steady_reload: "reload D rt p (s, w) = (e, s', w') \<Longrightarrow> steady s s'"
  by (auto simp: reload_def Let_def split: prod.splits sum.splits option.splits
      intro: steady_trans [OF steady_small(2) steady_small(2)] steady_trans [OF steady_trans [OF steady_small(2) steady_small(1)] steady_small(2)])

lemma steady_Stop:
  assumes "sup_Stop H D (s, w) = (e, s', w')"
  shows "steady s s'"
proof -
  define s1 where "s1 = s\<lparr>sp_stopping := True, sp_proc := None, sp_plan := None\<rparr>"
  have q1: "steady s s1" by (rule steady_same) (simp_all add: s1_def)
  obtain x s2 w2 where st: "stop_current H (sp_proc s) (s1, w) = (x, s2, w2)"
    by (cases "stop_current H (sp_proc s) (s1, w)") auto
  have q2: "steady s1 s2"
  proof (cases "sp_proc s")
    case None
    then show ?thesis using st by (simp add: stop_current_def)
  next
    case (Some p)
    obtain y s3 w3 where ps: "proc_Stop H p (s1, w) = (y, s3, w3)" by (cases "proc_Stop H p (s1, w)") auto
    have "steady s3 s2" using st Some ps by (auto simp: stop_current_def intro: steady_same)
    then show ?thesis using steady_trans [OF steady_stop [OF ps]] by blast
  qed
  obtain y s3 w3 where u: "unroute D (s2, w2) = (y, s3, w3)" by (cases "unroute D (s2, w2)") auto
  have "s' = sup_setState (if err_join [x, y] = None then StStopped else StFailed) s3"
    using assms unfolding sup_Stop_def Let_def prod.case s1_def [symmetric] st u by auto
  then show ?thesis using steady_trans [OF steady_trans [OF steady_trans [OF q1 q2] steady_unroute [OF u]]] by simp
qed

lemma steady_Apply:
  assumes r: "sup_Apply linux H D p0 (s, w) = (e, s', w')"
  shows "steady s s'"
proof (cases "admit linux H D p0 s")
  case (Some x)
  then show ?thesis using r by (simp add: sup_Apply_def)
next
  case None
  note ad = this
  obtain pp te where pt: "PrepareTun (ho_addrs H w) p0 = (pp, te)" by (cases "PrepareTun (ho_addrs H w) p0")
  show ?thesis
  proof (cases "te = None \<and> pp \<noteq> None")
    case False
    then show ?thesis using r ad pt by (cases te; cases pp) (auto simp: sup_Apply_def)
  next
    case True
    then obtain p where p: "pp = Some p" "te = None" by auto
    define s1 where "s1 = s\<lparr>sp_redactor := Redaction.Add (Plan_Secrets (Some p)) (sp_redactor s), sp_plan := Some p, sp_stopping := False\<rparr>"
    have q1: "steady s s1" by (rule steady_same) (simp_all add: s1_def)
    obtain x s2 w2 where rl: "reload D (sp_rt s1) p (s1, w) = (x, s2, w2)" by (cases "reload D (sp_rt s1) p (s1, w)") auto
    define s3 where "s3 = s2\<lparr>sp_proc := None\<rparr>"
    have q3: "steady s1 s2" "steady s1 s3"
      using steady_reload [OF rl] steady_trans [OF steady_reload [OF rl] steady_same [of s3 s2]] by (auto simp: s3_def)
    consider "start_or_fail H D p (s1, w) = (e, s', w')" | "s' = s2"
      | pid y s4 w4 where "proc_Stop H pid (s3, w2) = (y, s4, w4)" "s' = s4 \<or> start_or_fail H D p (s4, w4) = (e, s', w')"
      using r unfolding sup_Apply_def Let_def prod.case ad option.case pt p s1_def [symmetric] rl s3_def
      by (auto split: option.splits prod.splits if_splits)
    then show ?thesis
    proof cases
      case 1
      then show ?thesis by (rule steady_trans [OF q1 steady_start_or_fail])
    next
      case 2
      then show ?thesis using steady_trans [OF q1 q3(1)] by simp
    next
      case 3
      have "steady s4 s'" using 3(2) steady_start_or_fail [of H D p s4 w4 e s' w'] by auto
      then show ?thesis using steady_trans [OF steady_trans [OF steady_trans [OF q1 q3(2)] steady_stop [OF 3(1)]]] by blast
    qed
  qed
qed

lemma small_fields [simp]:
  "sp_procs (sup_publish ev s) = sp_procs s" "sp_watchers (sup_publish ev s) = sp_watchers s"
  "sp_procs (sup_setState st s) = sp_procs s" "sp_watchers (sup_setState st s) = sp_watchers s"
  "sp_procs (sup_log l m s) = sp_procs s" "sp_watchers (sup_log l m s) = sp_watchers s"
  by (simp_all add: sup_publish_def sup_setState_def sup_log_def)

lemma log_fold_fields:
  "sp_procs (fold (\<lambda>line. sup_log LevelError (f line)) ls t) = sp_procs t \<and>
   sp_watchers (fold (\<lambda>line. sup_log LevelError (f line)) ls t) = sp_watchers t"
  by (induction ls arbitrary: t) simp_all

lemma log_exit_fields [simp]: "sp_procs (log_exit p status s) = sp_procs s" "sp_watchers (log_exit p status s) = sp_watchers s"
  unfolding log_exit_def
  using log_fold_fields [of "Redactor_String (sp_redactor s)" "Split (tail_Last 8 (ps_out (sp_procs s ! p))) newline"] by simp_all

lemma unroute_fields: "unroute D (s, w) = (e, s', w') \<Longrightarrow> sp_procs s' = sp_procs s \<and> sp_watchers s' = sp_watchers s"
  by (auto simp: unroute_def Let_def split: if_splits option.splits prod.splits)

lemma watch_exit_fields:
  assumes "watch_exit H D p why status (s, w) = (s', w')"
  shows "sp_procs s' = sp_procs s" and
    "sp_watchers s' = sp_watchers (drop_watcher p s) \<or>
     (sp_proc s = Some p \<and> (\<exists>plan. sp_watchers s' = sp_watchers (drop_watcher p s) @ [(p, BackingOff plan)]) \<and>
      \<not> (case why of Some e \<Rightarrow> err_Is (\<lambda>x. x = CanceledE) e | None \<Rightarrow> False))"
proof -
  have d: "sp_procs (drop_watcher p s) = sp_procs s" "sp_proc (drop_watcher p s) = sp_proc s" by (simp_all add: drop_watcher_def)
  show "sp_procs s' = sp_procs s" and
    "sp_watchers s' = sp_watchers (drop_watcher p s) \<or>
     (sp_proc s = Some p \<and> (\<exists>plan. sp_watchers s' = sp_watchers (drop_watcher p s) @ [(p, BackingOff plan)]) \<and>
      \<not> (case why of Some e \<Rightarrow> err_Is (\<lambda>x. x = CanceledE) e | None \<Rightarrow> False))"
    using assms d unfolding watch_exit_def Let_def prod.case
    by (auto split: if_splits option.splits prod.splits dest!: unroute_fields)
qed

section \<open>One engine at a time\<close>

definition sound :: "'w Driver \<Rightarrow> Supervisor \<Rightarrow> bool" where
  "sound D s \<longleftrightarrow> owned D s \<and> backing s \<subseteq> over s"

lemma sound_steady: "sound D s \<Longrightarrow> steady s s' \<Longrightarrow> owned D s' \<Longrightarrow> sound D s'"
  by (auto simp: sound_def steady_def)

lemma canceled_wakes: "err_Is (\<lambda>x. x = CanceledE) CanceledE"
  by (simp add: err_Is_def chain.simps [of CanceledE])

lemma watch_exit_sound:
  assumes "sound D s" "watch_exit H D p why status (s, w) = (s', w')"
    and "exited s p \<or> why = Some CanceledE"
  shows "sound D s'"
proof -
  have o: "owned D s'" using watch_exit_owned [OF _ assms(2)] assms(1) by (simp add: sound_def)
  note f = watch_exit_fields [OF assms(2)]
  have over: "over s' = over s" using f(1) by (simp add: over_def exited_def)
  have drop: "(q, BackingOff pl) \<in> set (sp_watchers (drop_watcher p s)) \<Longrightarrow> q \<in> backing s" for q pl
    by (auto simp: drop_watcher_def backing_def)
  have "q \<in> over s" if "q \<in> backing s'" for q
  proof -
    obtain pl where "(q, BackingOff pl) \<in> set (sp_watchers s')" using \<open>q \<in> backing s'\<close> by (auto simp: backing_def)
    then have "q \<in> backing s \<or> (q = p \<and> sp_proc s = Some p \<and> why \<noteq> Some CanceledE)"
      using f(2) drop canceled_wakes by (auto split: option.splits)
    then show ?thesis
      using assms(1,3) owned_bound [of D s p] by (auto simp: sound_def over_def)
  qed
  then show ?thesis using o over by (auto simp: sound_def)
qed

lemma find_backing:
  assumes "find (\<lambda>(q, v). q = p \<and> v \<noteq> Waiting) (sp_watchers s) = Some (x, BackingOff plan)"
  shows "p \<in> backing s"
  using find_SomeD [OF assms] by (auto simp: backing_def)

lemma sup_step_sound:
  assumes s: "sound D s" and d: "replaceable H D"
  shows "sound D (fst (sup_step linux H D op (s, w)))"
proof -
  have o: "owned D s" using s by (simp add: sound_def)
  have quiet: "sound D s'" if "quiet s s'" "steady s s'" for s'
    using sound_steady [OF s that(2)] quiet_owned [OF that(1) o] by simp
  show ?thesis
  proof (cases op)
    case (SupValidate p)
    obtain e s' w' where r: "sup_Validate linux H D p (s, w) = (e, s', w')" by (cases "sup_Validate linux H D p (s, w)") auto
    have "steady s s'"
      using r by (auto simp: sup_Validate_def Let_def split: option.splits prod.splits intro: steady_same)
    then show ?thesis using quiet [OF sup_Validate_quiet [OF r]] r by (simp add: sup_step_def SupValidate)
  next
    case (SupApply p)
    obtain e s' w' where r: "sup_Apply linux H D p (s, w) = (e, s', w')" by (cases "sup_Apply linux H D p (s, w)") auto
    show ?thesis
      using sound_steady [OF s steady_Apply [OF r] sup_Apply_owned [OF o d r]] r by (simp add: sup_step_def SupApply)
  next
    case SupStop
    obtain e s' w' where r: "sup_Stop H D (s, w) = (e, s', w')" by (cases "sup_Stop H D (s, w)") auto
    show ?thesis
      using sound_steady [OF s steady_Stop [OF r]] sup_Stop_owned [OF o r] r by (simp add: sup_step_def SupStop)
  next
    case SupClose
    obtain e s' w' where r: "sup_Stop H D (s, w) = (e, s', w')" by (cases "sup_Stop H D (s, w)") auto
    have "owned D (s'\<lparr>sp_cancelled := True\<rparr>)" using quiet_owned [OF quiet_fields(5)] sup_Stop_owned [OF o r] by blast
    moreover have "steady s (s'\<lparr>sp_cancelled := True\<rparr>)" by (rule steady_trans [OF steady_Stop [OF r] steady_same]) simp_all
    ultimately show ?thesis using sound_steady [OF s] r by (simp add: sup_step_def SupClose sup_Close_def)
  next
    case (SupLine l)
    then show ?thesis using quiet [OF quiet_line] by (simp add: sup_step_def)
  next
    case (SupExit p r)
    then show ?thesis using quiet [OF quiet_set_exit] by (simp add: sup_step_def)
  next
    case (SupWatch p status)
    obtain s1 w1 s2 w2 where r: "watch_exit H D p (proc_Err s p) status (s, w) = (s1, w1)"
      "watch_exit H D p (Some CanceledE) status (s, w) = (s2, w2)" by (metis surj_pair)
    show ?thesis
      using watch_exit_sound [OF s r(1)] watch_exit_sound [OF s r(2)] r s by (simp add: sup_step_def SupWatch)
  next
    case (SupRestart p)
    show ?thesis
    proof (cases "\<exists>x plan. find (\<lambda>(q, v). q = p \<and> v \<noteq> Waiting) (sp_watchers s) = Some (x, BackingOff plan)")
      case False
      then have "sup_step linux H D op (s, w) = (s, w)"
        by (auto simp: sup_step_def SupRestart split: option.split prod.split watch_state.split)
      then show ?thesis using s by simp
    next
      case True
      then obtain x plan where f: "find (\<lambda>(q, v). q = p \<and> v \<noteq> Waiting) (sp_watchers s) = Some (x, BackingOff plan)" by blast
      obtain s' w' where r: "watch_restart H D p plan (s, w) = (s', w')" by (cases "watch_restart H D p plan (s, w)")
      have ex: "exited s p" using find_backing [OF f] s by (auto simp: sound_def over_def)
      have "steady s s'"
      proof -
        obtain y s1 w1 where st: "sup_start H D plan (drop_watcher p s, w) = (y, s1, w1)" by (cases "sup_start H D plan (drop_watcher p s, w)") auto
        have "s' = drop_watcher p s \<or> sp_procs s' = sp_procs s1 \<and> sp_watchers s' = sp_watchers s1"
          using r st by (auto simp: watch_restart_def Let_def split: if_splits option.splits)
        then show ?thesis
          using steady_trans [OF steady_trans [OF steady_drop steady_start [OF st]] steady_same [of s' s1]] by auto
      qed
      then show ?thesis
        using sound_steady [OF s] watch_restart_owned [OF o ex r] r by (simp add: sup_step_def SupRestart f)
    qed
  qed
qed

lemma sup_run_sound:
  assumes "replaceable H D"
  shows "sound D s \<Longrightarrow> sound D (fst (sup_run linux H D ops (s, w)))"
proof (induction ops arbitrary: s w)
  case (Cons op ops)
  obtain s1 w1 where 1: "sup_step linux H D op (s, w) = (s1, w1)" by (cases "sup_step linux H D op (s, w)")
  then have "sound D s1" using sup_step_sound [OF Cons.prems assms, of linux op w] by simp
  then show ?case using Cons.IH [of s1 w1] 1 by (simp add: sup_run_def)
qed (simp add: sup_run_def)

lemma sup_New_sound:
  assumes "sup_New cfg D = Inr s"
  shows "sound D s"
proof -
  have "sp_procs s = []" "sp_proc s = None" "\<not> sp_routed s" "sp_watchers s = []"
    using assms by (auto simp: sup_New_def Let_def split: if_splits)
  then show ?thesis by (simp add: sound_def owned_def live_def backing_def)
qed

text \<open>Nothing is started by a supervisor that was stopped.\<close>

definition at_rest :: "Supervisor \<Rightarrow> bool" where
  "at_rest s \<longleftrightarrow> sp_stopping s \<and> live s = {} \<and> \<not> sp_routed s"

lemma quiet_rest: "quiet s s' \<Longrightarrow> at_rest s \<Longrightarrow> at_rest s'"
  by (auto simp: quiet_def at_rest_def holding_def)

lemma sup_Stop_rest:
  assumes "owned D s" "at_rest s" "sup_Stop H D (s, w) = (e, s', w')"
  shows "at_rest s'"
proof -
  define s1 where "s1 = s\<lparr>sp_stopping := True, sp_proc := None, sp_plan := None\<rparr>"
  have r1: "at_rest s1" using assms(2) by (simp add: at_rest_def s1_def live_def)
  have "p < length (sp_procs s) \<Longrightarrow> exited s1 p" for p using assms(2) by (auto simp: at_rest_def live_def exited_def s1_def)
  then have "stop_current H (sp_proc s) (s1, w) = (None, s1, w)"
    using owned_bound [OF assms(1)] by (cases "sp_proc s") (simp_all add: stop_current_def proc_Stop_def)
  moreover have "unroute D (s1, w) = (None, s1, w)" using r1 by (simp add: unroute_def at_rest_def)
  ultimately have "s' = sup_setState StStopped s1"
    using assms(3) unfolding sup_Stop_def Let_def prod.case s1_def [symmetric] by (simp add: err_join_def map_filter_def)
  then show ?thesis using quiet_rest [OF quiet_setState r1] by simp
qed

lemma sup_step_rest:
  assumes s: "sound D s" "at_rest s" and op: "\<And>p. op \<noteq> SupApply p"
  shows "at_rest (fst (sup_step linux H D op (s, w)))"
proof -
  have o: "owned D s" using s(1) by (simp add: sound_def)
  show ?thesis
  proof (cases op)
    case (SupValidate p)
    obtain e s' w' where r: "sup_Validate linux H D p (s, w) = (e, s', w')" by (cases "sup_Validate linux H D p (s, w)") auto
    then show ?thesis using quiet_rest [OF sup_Validate_quiet [OF r] s(2)] by (simp add: sup_step_def SupValidate)
  next
    case SupStop
    obtain e s' w' where r: "sup_Stop H D (s, w) = (e, s', w')" by (cases "sup_Stop H D (s, w)") auto
    then show ?thesis using sup_Stop_rest [OF o s(2) r] by (simp add: sup_step_def SupStop)
  next
    case SupClose
    obtain e s' w' where r: "sup_Stop H D (s, w) = (e, s', w')" by (cases "sup_Stop H D (s, w)") auto
    then show ?thesis
      using quiet_rest [OF quiet_fields(5) sup_Stop_rest [OF o s(2) r]] by (simp add: sup_step_def SupClose sup_Close_def)
  next
    case (SupLine l)
    then show ?thesis using quiet_rest [OF quiet_line s(2)] by (simp add: sup_step_def)
  next
    case (SupExit p r)
    then show ?thesis using quiet_rest [OF quiet_set_exit s(2)] by (simp add: sup_step_def)
  next
    case (SupWatch p status)
    have stop: "sp_stopping (drop_watcher p s)" using s(2) by (simp add: at_rest_def drop_watcher_def)
    have "watch_exit H D p why status (s, w) = (drop_watcher p s, w)" for why
      using stop by (simp add: watch_exit_def)
    then show ?thesis using quiet_rest [OF quiet_drop s(2)] s(2) by (simp add: sup_step_def SupWatch)
  next
    case (SupRestart p)
    have stop: "sp_stopping (drop_watcher p s)" using s(2) by (simp add: at_rest_def drop_watcher_def)
    have "watch_restart H D p plan (s, w) = (drop_watcher p s, w)" for plan
      using stop by (simp add: watch_restart_def)
    then show ?thesis
      using quiet_rest [OF quiet_drop s(2)] s(2) by (simp add: sup_step_def SupRestart split: option.split prod.split watch_state.split)
  qed (use op in simp)
qed

lemma sup_run_rest:
  assumes d: "replaceable H D"
  shows "sound D s \<Longrightarrow> at_rest s \<Longrightarrow> \<forall>p. SupApply p \<notin> set ops \<Longrightarrow> at_rest (fst (sup_run linux H D ops (s, w)))"
proof (induction ops arbitrary: s w)
  case (Cons op ops)
  obtain s1 w1 where 1: "sup_step linux H D op (s, w) = (s1, w1)" by (cases "sup_step linux H D op (s, w)")
  have op: "op \<noteq> SupApply p" for p using Cons.prems(3) by auto
  have "sound D s1" "at_rest s1"
    using sup_step_sound [OF Cons.prems(1) d, of linux op w] sup_step_rest [OF Cons.prems(1,2) op, of linux H w] 1 by simp_all
  then show ?case using Cons.IH [of s1 w1] Cons.prems(3) 1 by (simp add: sup_run_def)
qed (simp add: sup_run_def)

text \<open>
  C3.  There is never more than one engine.  For a driver that reloads a running engine, or a host
  on which a stopped process ends, any sequence of validations, applied plans, stops, exits of processes, and watchers waking up and
  restarting, with starts, kills and routes that may fail anywhere, keeps this: every process that
  is alive is the one the supervisor can stop.  A \<open>Stop\<close> that reports success leaves no process and
  no route, and without a new \<open>Apply\<close> none comes back, whatever watchers were still pending.
\<close>

theorem one_engine:
  assumes "sup_New cfg D = Inr s0" "replaceable H D"
    and "sup_run linux H D ops (s0, w0) = (s, w)" "sup_Stop H D (s, w) = (e, s1, w1)" "\<forall>p. SupApply p \<notin> set later"
  shows "(\<forall>p < length (sp_procs s). ps_state (sp_procs s ! p) = Live \<longrightarrow> sp_proc s = Some p) \<and>
    (e = None \<longrightarrow>
      (let s2 = fst (sup_run linux H D later (s1, w1))
       in (\<forall>p < length (sp_procs s2). ps_state (sp_procs s2 ! p) \<noteq> Live) \<and> \<not> sp_routed s2))"
proof -
  have s: "sound D s" using sup_run_sound [OF assms(2) sup_New_sound [OF assms(1)], of linux ops w0] assms(3) by simp
  then have o: "owned D s" by (simp add: sound_def)
  note st = sup_Stop_owned [OF o assms(4)]
  have s1: "sound D s1" using sound_steady [OF s steady_Stop [OF assms(4)]] st by simp
  have "at_rest (fst (sup_run linux H D later (s1, w1)))" if "e = None"
    using sup_run_rest [OF assms(2) s1 _ assms(5), of linux w1] st that by (simp add: at_rest_def)
  moreover have "ps_state (sp_procs s ! p) = Live \<longrightarrow> sp_proc s = Some p" if "p < length (sp_procs s)" for p
    using owned_live [OF o, of p] that by (simp add: live_def)
  ultimately show ?thesis by (auto simp: at_rest_def live_def Let_def)
qed

text \<open>A host on which everything works, and a driver with nothing optional.\<close>

definition sample_host :: "nat Host" where
  "sample_host =
     \<lparr>ho_MkdirAll = (\<lambda>d w. (None, w)), ho_run = (\<lambda>spec w. ((None, []), w)), ho_spawn = (\<lambda>spec w. (None, w)),
      ho_poll = (\<lambda>p w. ((None, []), w)),
      ho_halt = (\<lambda>p w. (\<lparr>ha_interrupted = True, ha_grace = True, ha_gone = False, ha_kill = None, ha_reaped = True, ha_ctx = None,
                         ha_exit = None\<rparr>, w)),
      ho_ctxDone = (\<lambda>w. False), ho_Int = (\<lambda>n w. (Inr 0, w)), ho_Read = (\<lambda>n w. (Inr ''abc'', w)), ho_udp = (\<lambda>p w. (None, w)),
      ho_tcp = (\<lambda>p w. (None, w)), ho_addrs = (\<lambda>w. Some []), ho_now = (\<lambda>w. 0), ho_jitter = (\<lambda>d w. d), ho_plan_text = (\<lambda>es. []),
      ho_tun_text = (\<lambda>e. [])\<rparr>"

text \<open>The same host with processes that do not die.\<close>

definition stuck_host :: "nat Host" where
  "stuck_host = sample_host\<lparr>ho_halt := (\<lambda>p w. (\<lparr>ha_interrupted = False, ha_grace = False, ha_gone = False, ha_kill = None,
     ha_reaped = False, ha_ctx = None, ha_exit = None\<rparr>, w))\<rparr>"

definition sample_driver :: "goerr option \<Rightarrow> nat Driver" where
  "sample_driver unsupported =
     \<lparr>dr_Kind = KindMihomo, dr_Render = (\<lambda>p rt w. (Inr ''cfg'', w)), dr_RunArgs = (\<lambda>rt. []), dr_CheckArgs = (\<lambda>rt. []),
      dr_Handshake = (\<lambda>rt w. (Inr ''1.19.0'', w)), dr_Reload = (\<lambda>rt cfg w. (unsupported, w)), dr_ConfirmStart = None,
      dr_ControlAddress = None, dr_Router = None, dr_PlanNames = None, dr_ParseLog = None, dr_Preparer = None\<rparr>"

definition sample_sup_config :: SupervisorConfig where
  "sample_sup_config =
     \<lparr>sc_Binary = (sample_binary KindMihomo 1 19 0)\<lparr>b_Path := ''mihomo''\<rparr>, sc_HomeDir = ''/var/lib/sora'', sc_LocalPort = 7890, sc_ProbeURL = [],
      sc_StartTimeout = 0, sc_StopGrace = 0, sc_Redactor = None, sc_RestartBudget = 0, sc_RestartWindow = 0, sc_Logs = False\<rparr>"

definition sample_sup :: "goerr option \<Rightarrow> Supervisor" where
  "sample_sup unsupported = projr (sup_New sample_sup_config (sample_driver unsupported))"

lemma sample_sup_new: "sup_New sample_sup_config (sample_driver u) = Inr (sample_sup u)"
  by (simp add: sample_sup_def sup_New_def sample_sup_config_def sample_binary_def Let_def)

theorem one_engine_witness:
  "let (s, w) = sup_run True sample_host (sample_driver None) [SupApply (Some sample_plan), SupExit 0 None, SupWatch 0 ''exit status 0''] (sample_sup None, 0);
       (e, s1, w1) = sup_Stop sample_host (sample_driver None) (s, w)
   in e = None \<longrightarrow>
      (let s2 = fst (sup_run True sample_host (sample_driver None) [SupRestart 0] (s1, w1))
       in (\<forall>p < length (sp_procs s2). ps_state (sp_procs s2 ! p) \<noteq> Live) \<and> \<not> sp_routed s2)"
proof -
  obtain s w where r: "sup_run True sample_host (sample_driver None) [SupApply (Some sample_plan), SupExit 0 None, SupWatch 0 ''exit status 0'']
    (sample_sup None, 0) = (s, w)" by (rule prod.exhaust)
  obtain e s1 w1 where st: "sup_Stop sample_host (sample_driver None) (s, w) = (e, s1, w1)"
    by (cases "sup_Stop sample_host (sample_driver None) (s, w)") auto
  have d: "replaceable sample_host (sample_driver None)"
    by (simp add: replaceable_def hot_reload_def plain_render_def sample_driver_def)
  have later: "\<forall>p. SupApply p \<notin> set [SupRestart 0]" by simp
  show ?thesis using one_engine [OF sample_sup_new d r st later] unfolding r prod.case Let_def st by blast
qed

section \<open>A lost engine\<close>


end
