(* ===== verification/SecretVault.thy ===== *)
theory SecretVault
  imports GoBase64 GoJSON ErrClassify
begin

text \<open>
  The vault format of \<open>core/secret\<close>: references, the JSON map of the credentials, its encryption
  and the layout of the file.  A byte slice is a string; a nil slice is \<open>None\<close>.  AES itself is a
  parameter, a function from keys to maps of 128-bit blocks; the GCM mode above it
  (\<open>crypto/cipher\<close>) is modelled, and it satisfies the contract of \<open>cipher.AEAD\<close> that the store
  relies on for every such function.
\<close>

unbundle bit_operations_syntax

section \<open>Galois counter mode\<close>

definition be_word :: "string \<Rightarrow> 128 word" where
  "be_word s = foldl (\<lambda>w c. push_bit 8 w OR of_nat (byte c)) 0 s"

definition word_bytes :: "128 word \<Rightarrow> string" where
  "word_bytes w = map (\<lambda>i. char_of (unat (drop_bit (8 * (15 - i)) w AND 255))) [0..<16]"

definition gf_step :: "128 word \<Rightarrow> nat \<Rightarrow> 128 word \<times> 128 word \<Rightarrow> 128 word \<times> 128 word" where
  "gf_step x i zv =
     (let (z, v) = zv in
      (if bit x (127 - i) then z XOR v else z,
       if bit v 0 then drop_bit 1 v XOR push_bit 120 0xE1 else drop_bit 1 v))"

definition gf_mul :: "128 word \<Rightarrow> 128 word \<Rightarrow> 128 word" where
  "gf_mul x y = fst (fold (gf_step x) [0..<128] (0, y))"

fun gcm_blocks :: "nat \<Rightarrow> string \<Rightarrow> 128 word list" where
  "gcm_blocks 0 s = []"
| "gcm_blocks (Suc n) s =
     (if s = [] then []
      else be_word (take 16 s @ replicate (16 - length s) (CHR 0x00)) # gcm_blocks n (drop 16 s))"

definition ghash :: "128 word \<Rightarrow> string \<Rightarrow> string \<Rightarrow> 128 word" where
  "ghash h aad ct =
     fold (\<lambda>b y. gf_mul (y XOR b) h)
       (gcm_blocks (length aad) aad @ gcm_blocks (length ct) ct @
        [push_bit 64 (of_nat (8 * length aad)) OR of_nat (8 * length ct)]) 0"

definition counter_block :: "string \<Rightarrow> nat \<Rightarrow> 128 word" where
  "counter_block nonce i = push_bit 32 (be_word nonce) OR of_nat (i mod 2 ^ 32)"

definition keystream :: "(128 word \<Rightarrow> 128 word) \<Rightarrow> string \<Rightarrow> nat \<Rightarrow> string" where
  "keystream E nonce n = concat (map (\<lambda>i. word_bytes (E (counter_block nonce (i + 2)))) [0..<(n + 15) div 16])"

definition xor_char :: "char \<Rightarrow> char \<Rightarrow> char" where
  "xor_char x y = char_of (unat ((of_nat (byte x) :: 8 word) XOR of_nat (byte y)))"

definition xor_bytes :: "string \<Rightarrow> string \<Rightarrow> string" where
  "xor_bytes a b = map (\<lambda>(x, y). xor_char x y) (zip a b)"

definition gcm_tag :: "(128 word \<Rightarrow> 128 word) \<Rightarrow> string \<Rightarrow> string \<Rightarrow> string \<Rightarrow> string" where
  "gcm_tag E nonce aad ct = word_bytes (ghash (E 0) aad ct XOR E (counter_block nonce 1))"

text \<open>The longest plaintext; \<open>Seal\<close> panics beyond it, which is \<open>None\<close>.\<close>

definition gcm_limit :: nat where
  "gcm_limit = (2 ^ 32 - 2) * 16"

definition gcm_Seal :: "(128 word \<Rightarrow> 128 word) \<Rightarrow> string \<Rightarrow> string \<Rightarrow> string \<Rightarrow> string \<Rightarrow> string option" where
  "gcm_Seal E dst nonce plain aad =
     (if length plain > gcm_limit then None
      else (let ct = xor_bytes plain (keystream E nonce (length plain))
            in Some (dst @ ct @ gcm_tag E nonce aad ct)))"

definition gcm_Open :: "(128 word \<Rightarrow> 128 word) \<Rightarrow> string \<Rightarrow> string \<Rightarrow> string \<Rightarrow> string option" where
  "gcm_Open E nonce body aad =
     (if length body < 16 \<or> length body > gcm_limit + 16 then None
      else (let ct = take (length body - 16) body in
            if drop (length body - 16) body \<noteq> gcm_tag E nonce aad ct then None
            else Some (xor_bytes ct (keystream E nonce (length ct)))))"

text \<open>What the store uses of \<open>cipher.AEAD\<close>.\<close>

record AEAD =
  ae_Seal :: "string \<Rightarrow> string \<Rightarrow> string \<Rightarrow> string \<Rightarrow> string option"
  ae_Open :: "string \<Rightarrow> string \<Rightarrow> string \<Rightarrow> string option"

definition NewGCM :: "(128 word \<Rightarrow> 128 word) \<Rightarrow> AEAD" where
  "NewGCM E = \<lparr>ae_Seal = gcm_Seal E, ae_Open = gcm_Open E\<rparr>"

section \<open>References\<close>

definition MaxReferenceLen :: nat where
  "MaxReferenceLen = 64"

definition reference_char :: "char \<Rightarrow> bool" where
  "reference_char c \<longleftrightarrow> is_lower c \<or> is_upper c \<or> is_digit c \<or> c = CHR ''-'' \<or> c = CHR ''_''"

definition ValidateReference :: "string \<Rightarrow> goerr option" where
  "ValidateReference reference =
     (if reference = [] then
        Some (Newf CodeInvalidArgument KeySecretReferenceInvalid ''secret store: the reference is empty'')
      else if length reference > MaxReferenceLen then
        Some (Newf CodeInvalidArgument KeySecretReferenceInvalid
          (''secret store: the reference is longer than '' @ Itoa (int MaxReferenceLen) @ '' bytes''))
      else
        map_option
          (\<lambda>i. Newf CodeInvalidArgument KeySecretReferenceInvalid
             (''secret store: the reference has an unsupported character at '' @ Itoa (int i)))
          (find (\<lambda>i. \<not> reference_char (reference ! i)) [0..<length reference]))"

section \<open>The payload\<close>

text \<open>\<open>encoding/json\<close> of a string, with its HTML escapes.\<close>

definition html_safe :: "char \<Rightarrow> bool" where
  "html_safe c \<longleftrightarrow> 32 \<le> byte c \<and> byte c < 128 \<and> c \<notin> {CHR 0x22, CHR 0x5C, CHR ''<'', CHR ''>'', CHR ''&''}"

definition escape_char :: "char \<Rightarrow> string" where
  "escape_char c =
     CHR 0x5C #
     (if c = CHR 0x22 \<or> c = CHR 0x5C then [c]
      else if c = CHR 0x08 then ''b'' else if c = CHR 0x0C then ''f''
      else if c = CHR 0x0A then ''n'' else if c = CHR 0x0D then ''r'' else if c = CHR 0x09 then ''t''
      else ''u00'' @ [hex_char (byte c div 16), hex_char (byte c mod 16)])"

function escape_string :: "string \<Rightarrow> string" where
  "escape_string s =
     (case s of
        [] \<Rightarrow> []
      | c # cs \<Rightarrow>
          if byte c < 128 then (if html_safe c then [c] else escape_char c) @ escape_string cs
          else
            (let (r, n) = DecodeRune s in
             (if r = rune_error \<and> n = 1 then CHR 0x5C # ''ufffd''
              else if r = 8232 \<or> r = 8233 then CHR 0x5C # ''u202'' @ [hex_char (r mod 16)]
              else take n s) @ escape_string (drop n s)))"
  by pat_completeness auto
termination
proof (relation "measure length")
  fix s :: string and c cs x xa y
  assume "s = c # cs" "x = DecodeRune s" "(xa, y) = x"
  then show "(drop y s, s) \<in> measure length"
    using DecodeRune_width_pos [of s] by (metis drop_eq_Nil2 in_measure length_drop list.distinct(1) diff_less
        length_greater_0_conv snd_conv)
qed auto

declare escape_string.simps [simp del]

definition json_quote :: "string \<Rightarrow> string" where
  "json_quote s = CHR 0x22 # escape_string s @ [CHR 0x22]"

definition json_slice :: "string option \<Rightarrow> string" where
  "json_slice v = (case v of None \<Rightarrow> ''null'' | Some b \<Rightarrow> CHR 0x22 # b64_encode False True b @ [CHR 0x22])"

text \<open>\<open>json.Marshal\<close> of a \<open>map[string][]byte\<close>: keys in order; a nil map is \<open>None\<close>.\<close>

definition marshal_items :: "string option go_map option \<Rightarrow> string" where
  "marshal_items items =
     (case items of
        None \<Rightarrow> ''null''
      | Some m \<Rightarrow> ''{'' @ Join (map (\<lambda>(k, v). json_quote k @ '':'' @ json_slice v) (sort_key fst m)) '','' @ ''}'')"

text \<open>\<open>json.Unmarshal\<close> into a \<open>map[string][]byte\<close>; a slice of bytes is also read from an array.\<close>

definition json_byte :: "json \<Rightarrow> char option" where
  "json_byte v =
     (case v of
        JNull \<Rightarrow> Some (CHR 0x00)
      | JNum t \<Rightarrow> if list_all is_digit t \<and> digits_value 0 t < 256 then Some (char_of (digits_value 0 t)) else None
      | _ \<Rightarrow> None)"

definition unmarshal_slice :: "json \<Rightarrow> string option option" where
  "unmarshal_slice v =
     (case v of
        JNull \<Rightarrow> Some None
      | JStr t \<Rightarrow> map_option Some (DecodeString False True t)
      | JArr xs \<Rightarrow> map_option Some (those (map json_byte xs))
      | _ \<Rightarrow> None)"

definition unmarshal_items :: "string \<Rightarrow> string option go_map option option" where
  "unmarshal_items text =
     (case json_parse text of
        Some JNull \<Rightarrow> Some None
      | Some (JObj m) \<Rightarrow>
          map_option (\<lambda>vs. Some (last_wins (zip (map fst m) vs))) (those (map (unmarshal_slice \<circ> snd) m))
      | _ \<Rightarrow> None)"

section \<open>The file\<close>

definition vaultHeader :: string where
  "vaultHeader = ''SORAVLT'' @ [CHR 0x01]"

definition masterHeader :: string where
  "masterHeader = ''SORAMST'' @ [CHR 0x01]"

definition aadPrefix :: string where
  "aadPrefix = ''sora.secret.v1''"

definition storeIDLen :: nat where "storeIDLen = 16"
definition nonceLen :: nat where "nonceLen = 12"
definition aeadOverhead :: nat where "aeadOverhead = 16"
definition keyLen :: nat where "keyLen = 32"

definition headerLen :: nat where
  "headerLen = length vaultHeader + nonceLen"

definition vault_header :: "string \<Rightarrow> string" where
  "vault_header nonce = vaultHeader @ nonce"

definition vault_aad :: "string \<Rightarrow> string" where
  "vault_aad sid = aadPrefix @ sid"

text \<open>Sealing and unsealing with a given cipher; the outer \<open>None\<close> is a panic of \<open>Seal\<close>.\<close>

definition seal_with :: "AEAD \<Rightarrow> string \<Rightarrow> string \<Rightarrow> string option go_map option \<Rightarrow> string option" where
  "seal_with A sid nonce items = ae_Seal A (vault_header nonce) nonce (marshal_items items) (vault_aad sid)"

definition corrupt :: "string \<Rightarrow> goerr" where
  "corrupt what = Newf CodeInternal KeySecretStoreCorrupt (''secret store: '' @ what)"

definition unseal_with :: "AEAD \<Rightarrow> string \<Rightarrow> string \<Rightarrow> goerr + string option go_map option" where
  "unseal_with A sid raw =
     (case ae_Open A (take nonceLen (drop (length vaultHeader) raw)) (drop headerLen raw) (vault_aad sid) of
        None \<Rightarrow> Inl (corrupt ''the vault failed its integrity check'')
      | Some plaintext \<Rightarrow>
          (case unmarshal_items plaintext of
             None \<Rightarrow> Inl (corrupt ''the vault payload is not a reference map'')
           | Some items \<Rightarrow>
               if list_ex (\<lambda>(k, _). ValidateReference k \<noteq> None) (case items of None \<Rightarrow> [] | Some m \<Rightarrow> m)
               then Inl (corrupt ''the vault holds an invalid reference'')
               else Inr items))"

section \<open>The cipher contract\<close>

text \<open>What \<open>cipher.AEAD\<close> promises the store: whatever was sealed is opened again, behind the header.\<close>

locale aead =
  fixes A :: AEAD
  assumes seal_total: "length plain \<le> gcm_limit \<Longrightarrow> \<exists>c. ae_Seal A dst nonce plain aad = Some c"
    and seal_shape: "ae_Seal A dst nonce plain aad = Some c \<Longrightarrow>
      \<exists>body. c = dst @ body \<and> length body = length plain + 16 \<and> ae_Open A nonce body aad = Some plain"
begin

lemma seal_with_parts:
  assumes "length nonce = nonceLen" and "seal_with A sid nonce items = Some raw"
  obtains body where "raw = vaultHeader @ nonce @ body"
    "length body = length (marshal_items items) + 16"
    "ae_Open A nonce body (vault_aad sid) = Some (marshal_items items)"
  using seal_shape [OF assms(2) [unfolded seal_with_def]] assms(1)
  by (auto simp: vault_header_def)

text \<open>Unsealing a sealed file gives back every map that survives its own JSON form.\<close>

lemma unseal_seal:
  assumes "length nonce = nonceLen" and "seal_with A sid nonce items = Some raw"
    and "unmarshal_items (marshal_items items) = Some items'"
    and "list_all (\<lambda>(k, _). ValidateReference k = None) (case items' of None \<Rightarrow> [] | Some m \<Rightarrow> m)"
  shows "unseal_with A sid raw = Inr items' \<and> headerLen + aeadOverhead \<le> length raw \<and>
    take (length vaultHeader) raw = vaultHeader"
proof -
  obtain body where b: "raw = vaultHeader @ nonce @ body" "length body = length (marshal_items items) + 16"
    "ae_Open A nonce body (vault_aad sid) = Some (marshal_items items)"
    using seal_with_parts [OF assms(1,2)] by metis
  then have "take nonceLen (drop (length vaultHeader) raw) = nonce" "drop headerLen raw = body"
    using assms(1) by (simp_all add: headerLen_def)
  moreover have "\<not> list_ex (\<lambda>(k, _). ValidateReference k \<noteq> None) (case items' of None \<Rightarrow> [] | Some m \<Rightarrow> m)"
    using assms(4) unfolding list_ex_iff list_all_iff by fastforce
  ultimately show ?thesis using b assms(3)
    by (simp add: unseal_with_def headerLen_def aeadOverhead_def assms(1))
qed

end

lemma unat_byte: "unat (w :: 8 word) < 256"
  by (rule order_less_le_trans [OF unsigned_less]) simp

lemma byte_xor: "byte (xor_char x y) = unat ((of_nat (byte x) :: 8 word) XOR of_nat (byte y))"
  by (simp add: xor_char_def unat_byte)

lemma xor_char_twice: "xor_char (xor_char x k) k = x"
proof -
  have "xor_char (xor_char x k) k = char_of (unat (of_nat (byte x) :: 8 word))"
    unfolding xor_char_def [of "xor_char x k"] byte_xor by (simp add: xor.assoc)
  also have "\<dots> = x" using byte_bound [of x] by (simp add: unat_of_nat)
  finally show ?thesis .
qed

lemma xor_bytes_twice: "length p \<le> length k \<Longrightarrow> xor_bytes (xor_bytes p k) k = p"
proof (induction p arbitrary: k)
  case (Cons x p)
  then show ?case by (cases k) (simp_all add: xor_bytes_def xor_char_twice)
qed (simp add: xor_bytes_def)

lemma keystream_length: "n \<le> length (keystream E nonce n)"
proof -
  have "length (keystream E nonce n) = 16 * ((n + 15) div 16)"
    by (simp add: keystream_def length_concat word_bytes_def comp_def sum_list_triv)
  then show ?thesis by presburger
qed

interpretation gcm: aead "NewGCM E" for E
proof
  fix plain dst nonce aad :: string
  assume "length plain \<le> gcm_limit"
  then show "\<exists>c. ae_Seal (NewGCM E) dst nonce plain aad = Some c"
    by (simp add: NewGCM_def gcm_Seal_def Let_def)
next
  fix plain dst nonce aad c :: string
  assume s: "ae_Seal (NewGCM E) dst nonce plain aad = Some c"
  define k where "k = keystream E nonce (length plain)"
  define ct where "ct = xor_bytes plain k"
  have k: "length plain \<le> length k" by (simp add: k_def keystream_length)
  have l: "length ct = length plain" using k by (simp add: ct_def xor_bytes_def)
  have t: "length (gcm_tag E nonce aad ct) = 16" by (simp add: gcm_tag_def word_bytes_def)
  from s have c: "c = dst @ ct @ gcm_tag E nonce aad ct" "length plain \<le> gcm_limit"
    by (auto simp: NewGCM_def gcm_Seal_def Let_def k_def ct_def split: if_split_asm)
  have "ae_Open (NewGCM E) nonce (ct @ gcm_tag E nonce aad ct) aad = Some plain"
    using c(2) xor_bytes_twice [OF k]
    by (simp add: NewGCM_def gcm_Open_def Let_def l t k_def [symmetric] ct_def [symmetric])
  with c l t show "\<exists>body. c = dst @ body \<and> length body = length plain + 16 \<and>
      ae_Open (NewGCM E) nonce body aad = Some plain"
    by auto
qed

section \<open>The payload survives\<close>

text \<open>Text that JSON writes as it is: references and base64.\<close>

definition json_plain :: "char \<Rightarrow> bool" where
  "json_plain c \<longleftrightarrow> 32 \<le> byte c \<and> byte c < 128 \<and> c \<noteq> CHR 0x22 \<and> c \<noteq> CHR 0x5C"

lemma reference_char_safe: "reference_char c \<Longrightarrow> html_safe c \<and> json_plain c"
  by (auto simp: reference_char_def html_safe_def json_plain_def is_lower_def is_upper_def is_digit_def)

lemma b64_json_plain: "b64_plain c \<Longrightarrow> json_plain c"
  by (auto simp: b64_plain_def json_plain_def is_lower_def is_upper_def is_digit_def)

lemma ValidateReference_ok:
  "ValidateReference r = None \<longleftrightarrow> r \<noteq> [] \<and> length r \<le> MaxReferenceLen \<and> list_all reference_char r"
  by (auto simp: ValidateReference_def find_None_iff_all list_all_length)

lemma escape_safe: "list_all html_safe s \<Longrightarrow> escape_string s = s"
  by (induction s) (simp_all add: escape_string.simps html_safe_def)

lemma unquote_plain: "list_all json_plain s \<Longrightarrow> unquote s = Some s"
proof (induction s)
  case (Cons c s)
  then show ?case by (subst unquote.simps) (simp add: json_plain_def)
qed (simp add: unquote.simps)

lemma scan_plain: "list_all json_plain s \<Longrightarrow> scan_str (s @ CHR 0x22 # rest) = Some (s, rest)"
  by (induction s) (simp_all add: json_plain_def)

lemma json_string_plain: "list_all json_plain s \<Longrightarrow> json_string (s @ CHR 0x22 # rest) = Some (s, rest)"
  by (simp add: json_string_def scan_plain unquote_plain)

definition json_item :: "string option \<Rightarrow> json" where
  "json_item v = (case v of None \<Rightarrow> JNull | Some b \<Rightarrow> JStr (b64_encode False True b))"

lemma skip_ws_visible [simp]: "\<not> is_ws c \<Longrightarrow> skip_ws (c # s) = c # s"
  by (simp add: skip_ws_def)

lemma json_value_slice: "json_value (Suc f) d (json_slice v @ rest) = Some (json_item v, rest)"
proof (cases v)
  case None
  then show ?thesis by (simp add: json_slice_def json_item_def skip_ws_def is_ws_def HasPrefix_def)
next
  case (Some b)
  have "list_all json_plain (b64_encode False True b)"
    using b64_encode_plain [of False True b] by (auto simp: list_all_iff b64_json_plain)
  from json_string_plain [OF this, of rest] Some show ?thesis
    by (simp add: json_slice_def json_item_def is_ws_def)
qed

definition member_text :: "string \<times> string option \<Rightarrow> string" where
  "member_text kv = json_quote (fst kv) @ '':'' @ json_slice (snd kv)"

lemma json_member:
  assumes "list_all reference_char k" and "\<not> is_ws c"
  shows "json_members (Suc (Suc f)) d (member_text (k, v) @ c # rest) =
    (if c = CHR ''}'' then Some ([(k, json_item v)], rest)
     else if c = CHR '','' then map_option (\<lambda>(m, u). ((k, json_item v) # m, u)) (json_members (Suc f) d rest)
     else None)"
proof -
  have "list_all json_plain k" "list_all html_safe k"
    using assms(1) reference_char_safe by (auto simp: list_all_iff)
  then have t: "member_text (k, v) @ c # rest = CHR 0x22 # k @ CHR 0x22 # CHR '':'' # json_slice v @ c # rest"
    and s: "json_string (k @ CHR 0x22 # t) = Some (k, t)" for t
    by (simp_all add: member_text_def json_quote_def escape_safe json_string_plain)
  show ?thesis
    unfolding t using assms(2) by (simp add: s is_ws_def json_value_slice del: json_value.simps)
qed

lemma json_members_text:
  assumes "list_all (\<lambda>(k, _). list_all reference_char k) m" and "m \<noteq> []" and "length m < f"
  shows "json_members f d (Join (map member_text m) '','' @ CHR ''}'' # rest) =
    Some (map (\<lambda>(k, v). (k, json_item v)) m, rest)"
  using assms
proof (induction m arbitrary: f)
  case (Cons kv m)
  obtain k v where kv: "kv = (k, v)" by (cases kv)
  from Cons.prems(3) obtain g where f: "f = Suc (Suc g)" by (metis Suc_lessE length_Cons Suc_lessD less_imp_Suc_add add_Suc)
  have k: "list_all reference_char k" using Cons.prems(1) by (simp add: kv)
  show ?case
  proof (cases "m = []")
    case True
    then show ?thesis by (simp add: kv f json_member [OF k] is_ws_def del: json_members.simps)
  next
    case False
    then have "json_members (Suc g) d (Join (map member_text m) '','' @ CHR ''}'' # rest) =
        Some (map (\<lambda>(k, v). (k, json_item v)) m, rest)"
      using Cons.prems by (intro Cons.IH) (simp_all add: f kv)
    moreover have "Join (map member_text (kv # m)) '','' = member_text (k, v) @ CHR '','' # Join (map member_text m) '',''"
      using False by (cases m) (simp_all add: kv)
    ultimately show ?thesis
      by (simp add: kv f json_member [OF k] is_ws_def del: json_members.simps Join.simps list.map)
        (simp add: kv)
  qed
qed simp

lemma unmarshal_json_item: "unmarshal_slice (json_item v) = Some v"
  by (cases v) (simp_all add: unmarshal_slice_def json_item_def)

lemma last_wins_distinct: "distinct (map fst m) \<Longrightarrow> last_wins m = m"
proof -
  assume d: "distinct (map fst m)"
  have "the (map_of (rev m) k) = v" if "(k, v) \<in> set m" for k v
    using that d by (simp add: rev_map [symmetric])
  with d show ?thesis
    by (auto simp: last_wins_def distinct_remdups_id comp_def intro!: map_idI)
qed

lemma member_text_split: "map (\<lambda>(k, v). json_quote k @ '':'' @ json_slice v) m = map member_text m"
  by (auto simp: member_text_def)

lemma length_Join: "m \<noteq> [] \<Longrightarrow> length m \<le> length (Join (map member_text m) sep @ rest) \<and>
  (\<exists>t. Join (map member_text m) sep = CHR 0x22 # t)"
proof (induction m)
  case (Cons kv m)
  then show ?case by (cases m) (auto simp: member_text_def json_quote_def)
qed simp

text \<open>A map with valid references is read back, in the order of its keys.\<close>

lemma unmarshal_marshal:
  assumes "list_all (\<lambda>(k, _). ValidateReference k = None) m" and "distinct (map fst m)"
  shows "unmarshal_items (marshal_items (Some m)) = Some (Some (sort_key fst m))"
proof -
  define ms where "ms = sort_key fst m"
  have r: "list_all (\<lambda>(k, _). list_all reference_char k) ms"
    using assms(1) by (auto simp: ms_def list_all_iff ValidateReference_ok)
  have dm: "distinct (map fst ms)"
    using assms(2) by (simp add: ms_def distinct_map)
  define payload where "payload = marshal_items (Some m)"
  have t: "payload = CHR ''{'' # Join (map member_text ms) '','' @ ''}''"
    unfolding payload_def marshal_items_def option.case member_text_split ms_def by simp
  have "json_parse payload = Some (JObj (map (\<lambda>(k, v). (k, json_item v)) ms))"
  proof (cases "ms = []")
    case True
    obtain f where f: "2 * length payload + 2 = Suc f" by simp
    with True show ?thesis
      unfolding json_parse_def f by (simp add: t is_ws_def max_nesting_def) (simp add: skip_ws_def)
  next
    case False
    obtain f where f: "2 * length payload + 2 = Suc f" "length ms < f"
      using length_Join [OF False, of "'',''" "''}''"] by (auto simp: t)
    obtain u where u: "Join (map member_text ms) '','' = CHR 0x22 # u"
      using length_Join [OF False] by blast
    have "json_members f (max_nesting - 1) (Join (map member_text ms) '','' @ ''}'') =
        Some (map (\<lambda>(k, v). (k, json_item v)) ms, [])"
      using json_members_text [OF r False f(2), of "max_nesting - 1" "[]"] by simp
    then show ?thesis
      unfolding json_parse_def f(1)
      by (simp add: t u is_ws_def max_nesting_def del: json_members.simps) (simp add: skip_ws_def)
  qed
  moreover have "map (unmarshal_slice \<circ> snd) (map (\<lambda>(k, v). (k, json_item v)) ms) = map Some (map snd ms)"
    by (auto simp: unmarshal_json_item)
  moreover have "zip (map fst (map (\<lambda>(k, v). (k, json_item v)) ms)) (map snd ms) = ms"
    by (simp add: comp_def case_prod_unfold zip_map_fst_snd)
  ultimately show ?thesis
    by (simp only: unmarshal_items_def payload_def [symmetric] option.case json.case those_Some_iff [THEN iffD2]
        option.map last_wins_distinct [OF dm] ms_def [symmetric])
qed

text \<open>How long the payload of a map within the limits of the store can be.\<close>

lemma member_text_length:
  assumes "list_all reference_char k"
  shows "length (member_text (k, v)) \<le> length k + 2 * (case v of None \<Rightarrow> 0 | Some b \<Rightarrow> length b) + 7"
proof -
  have "escape_string k = k"
    using assms reference_char_safe by (intro escape_safe) (auto simp: list_all_iff)
  then show ?thesis
    using b64_encode_length [of False True]
    by (auto simp: member_text_def json_quote_def json_slice_def split: option.split)
qed

lemma Join_length: "list_all (\<lambda>s. length s \<le> n) ss \<Longrightarrow> length (Join ss '','') \<le> length ss * (n + 1)"
proof (induction ss)
  case (Cons s ss)
  then show ?case by (cases ss) auto
qed simp

lemma marshal_length:
  assumes "list_all (\<lambda>(k, v). ValidateReference k = None \<and> (\<exists>b. v = Some b \<and> length b \<le> n)) m"
  shows "length (marshal_items (Some m)) \<le> length m * (2 * n + 72) + 2"
proof -
  have "list_all (\<lambda>s. length s \<le> 2 * n + 71) (map member_text (sort_key fst m))"
  proof (clarsimp simp: list_all_iff)
    fix k v
    assume "(k, v) \<in> set m"
    with assms obtain b where "ValidateReference k = None" "v = Some b" "length b \<le> n"
      by (fastforce simp: list_all_iff)
    with member_text_length [of k v] show "length (member_text (k, v)) \<le> 2 * n + 71"
      by (simp add: ValidateReference_ok MaxReferenceLen_def)
  qed
  from Join_length [OF this] show ?thesis
    unfolding marshal_items_def option.case member_text_split by (simp add: algebra_simps)
qed

end
