(* ===== verification/SecretStore.thy ===== *)
theory SecretStore
  imports SecretVault "HOL-Library.AList"
begin

text \<open>
  The credential store of \<open>core/secret\<close> (\<open>file.go\<close>, \<open>key.go\<close>, \<open>store.go\<close>) with the directory it
  keeps its files in and the memory it keeps material in.  A call gets an environment that says
  what the operating system and the random source answer, so every failure of a system call is a
  branch.  Calls that write return all states the directory passes through, since the process
  may die in any of them.  Locks make every call one step.
\<close>

type_synonym aes = "string \<Rightarrow> 128 word \<Rightarrow> 128 word"

section \<open>The directory\<close>

text \<open>
  A file is synced when its content has reached the disk.  \<open>dk_past\<close> holds the listings since the
  directory itself was flushed: after a loss of power any of them may be the one that is found.
\<close>

record disk_file =
  fl_data :: string
  fl_synced :: bool

record Disk =
  dk_now :: "disk_file go_map"
  dk_past :: "disk_file go_map list"

definition set_listing :: "disk_file go_map \<Rightarrow> Disk \<Rightarrow> Disk" where
  "set_listing m d = d\<lparr>dk_now := m, dk_past := dk_now d # dk_past d\<rparr>"

record WriteEnv =
  we_names :: "string list"
  we_create :: "goerr option"
  we_chmod :: "goerr option"
  we_write :: "(nat \<times> goerr) option"
  we_sync :: "goerr option"
  we_close :: "goerr option"
  we_rename :: "goerr option"
  we_flush :: bool
  we_remove :: bool

record Env =
  ev_mkdir :: "goerr option"
  ev_read :: "string \<Rightarrow> goerr option"
  ev_rand :: "string \<Rightarrow> goerr + (nat \<Rightarrow> char)"
  ev_file :: "string \<Rightarrow> WriteEnv"

definition ReadFile :: "Env \<Rightarrow> string \<Rightarrow> Disk \<Rightarrow> goerr + string" where
  "ReadFile v path d =
     (case ev_read v path of
        Some e \<Rightarrow> Inl e
      | None \<Rightarrow>
          (case map_of (dk_now d) path of
             None \<Rightarrow> Inl (PathE ''open'' path NotExistE)
           | Some f \<Rightarrow> Inr (fl_data f)))"

text \<open>\<open>os.CreateTemp\<close> tries random names until one is free.\<close>

definition CreateTemp :: "WriteEnv \<Rightarrow> string \<Rightarrow> Disk \<Rightarrow> goerr + string \<times> Disk" where
  "CreateTemp v path d =
     (case we_create v of
        Some e \<Rightarrow> Inl e
      | None \<Rightarrow>
          (case find (\<lambda>x. map_of (dk_now d) (path @ ''.tmp-'' @ x) = None) (take 10000 (we_names v)) of
             None \<Rightarrow> Inl (PathE ''createtemp'' (path @ ''.tmp-*'') (TextE ''file already exists''))
           | Some x \<Rightarrow>
               (let tmp = path @ ''.tmp-'' @ x
                in Inr (tmp, set_listing (AList.update tmp \<lparr>fl_data = [], fl_synced = False\<rparr> (dk_now d)) d))))"

definition file_write :: "string \<Rightarrow> string \<Rightarrow> Disk \<Rightarrow> Disk" where
  "file_write path data d = d\<lparr>dk_now := AList.update path \<lparr>fl_data = data, fl_synced = False\<rparr> (dk_now d)\<rparr>"

definition file_sync :: "string \<Rightarrow> Disk \<Rightarrow> Disk" where
  "file_sync path d =
     d\<lparr>dk_now := AList.map_entry path (\<lambda>f. f\<lparr>fl_synced := True\<rparr>) (dk_now d)\<rparr>"

definition os_Rename :: "string \<Rightarrow> string \<Rightarrow> Disk \<Rightarrow> Disk" where
  "os_Rename a b d =
     (case map_of (dk_now d) a of
        None \<Rightarrow> d
      | Some f \<Rightarrow> set_listing (AList.update b f (AList.delete a (dk_now d))) d)"

definition os_Remove :: "WriteEnv \<Rightarrow> string \<Rightarrow> Disk \<Rightarrow> Disk" where
  "os_Remove v path d =
     (if we_remove v \<and> map_of (dk_now d) path \<noteq> None then set_listing (AList.delete path (dk_now d)) d else d)"

definition syncDir :: "WriteEnv \<Rightarrow> Disk \<Rightarrow> Disk" where
  "syncDir v d = (if we_flush v then d\<lparr>dk_past := []\<rparr> else d)"

definition unavailable :: "goerr \<Rightarrow> goerr" where
  "unavailable e = Wrap e CodeInternal KeySecretStoreUnavailable"

definition hardenFile :: "WriteEnv \<Rightarrow> goerr option" where
  "hardenFile v = map_option unavailable (we_chmod v)"

text \<open>The steps once the temporary file exists; its deferred removal comes last.\<close>

definition write_temp :: "WriteEnv \<Rightarrow> string \<Rightarrow> string \<Rightarrow> string \<Rightarrow> Disk \<Rightarrow> goerr option \<times> Disk list" where
  "write_temp v tmp path data d1 =
     (case hardenFile v of
        Some e \<Rightarrow> (Some e, [d1])
      | None \<Rightarrow>
          (case we_write v of
             Some (n, e) \<Rightarrow> (Some (unavailable e), [d1, file_write tmp (take n data) d1])
           | None \<Rightarrow>
               (let d2 = file_write tmp data d1 in
                case we_sync v of
                  Some e \<Rightarrow> (Some (unavailable e), [d1, d2])
                | None \<Rightarrow>
                    (let d3 = file_sync tmp d2 in
                     case we_close v of
                       Some e \<Rightarrow> (Some (unavailable e), [d1, d2, d3])
                     | None \<Rightarrow>
                         (case we_rename v of
                            Some e \<Rightarrow> (Some (unavailable e), [d1, d2, d3])
                          | None \<Rightarrow>
                              (let d4 = os_Rename tmp path d3
                               in (None, [d1, d2, d3, d4, syncDir v d4])))))))"

definition writeFileAtomic :: "WriteEnv \<Rightarrow> string \<Rightarrow> string \<Rightarrow> Disk \<Rightarrow> goerr option \<times> Disk list" where
  "writeFileAtomic v path data d =
     (case CreateTemp v path d of
        Inl e \<Rightarrow> (Some (unavailable e), [d])
      | Inr (tmp, d1) \<Rightarrow>
          (let (e, ds) = write_temp v tmp path data d1
           in (e, d # ds @ [os_Remove v tmp (last ds)])))"

section \<open>The master key\<close>

definition vaultFile :: string where "vaultFile = ''secrets.vault''"
definition masterFile :: string where "masterFile = ''master.key''"
definition idFile :: string where "idFile = ''store.id''"

record Protector =
  pr_Protect :: "string \<Rightarrow> goerr + string"
  pr_Unprotect :: "string \<Rightarrow> goerr + string"
  pr_Name :: string

definition FileProtector :: Protector where
  "FileProtector = \<lparr>pr_Protect = Inr, pr_Unprotect = Inr, pr_Name = ''file''\<rparr>"

definition rand_Read :: "Env \<Rightarrow> string \<Rightarrow> nat \<Rightarrow> goerr + string" where
  "rand_Read v what n = (case ev_rand v what of Inl e \<Rightarrow> Inl (unavailable e) | Inr r \<Rightarrow> Inr (map r [0..<n]))"

definition loadOrCreateID :: "Env \<Rightarrow> Disk \<Rightarrow> (goerr + string) \<times> Disk" where
  "loadOrCreateID v d =
     (case ReadFile v idFile d of
        Inr raw \<Rightarrow>
          (if length raw \<noteq> storeIDLen then
             (Inl (corrupt (''the store id is '' @ Itoa (int (length raw)) @ '' bytes, expected '' @ Itoa (int storeIDLen))), d)
           else (Inr raw, d))
      | Inl e \<Rightarrow>
          if \<not> err_Is is_not_exist e then (Inl (unavailable e), d)
          else
            (case rand_Read v idFile storeIDLen of
               Inl e \<Rightarrow> (Inl e, d)
             | Inr sid \<Rightarrow>
                 (case writeFileAtomic (ev_file v idFile) idFile sid d of
                    (Some e, ds) \<Rightarrow> (Inl e, last ds)
                  | (None, ds) \<Rightarrow> (Inr sid, last ds))))"

definition readMasterFile :: "Env \<Rightarrow> Disk \<Rightarrow> goerr + string" where
  "readMasterFile v d =
     (case ReadFile v masterFile d of
        Inl e \<Rightarrow> Inl e
      | Inr raw \<Rightarrow>
          if length raw < length masterHeader \<or> take (length masterHeader) raw \<noteq> masterHeader
          then Inl (corrupt ''the master key file has an unknown format'')
          else Inr (drop (length masterHeader) raw))"

definition create_key :: "Env \<Rightarrow> Protector \<Rightarrow> string \<Rightarrow> Disk \<Rightarrow> (goerr + string \<times> string) \<times> Disk" where
  "create_key v prot sid d =
     (case rand_Read v masterFile keyLen of
        Inl e \<Rightarrow> (Inl e, d)
      | Inr key \<Rightarrow>
          (case pr_Protect prot key of
             Inl e \<Rightarrow> (Inl e, d)
           | Inr protected \<Rightarrow>
               (case writeFileAtomic (ev_file v masterFile) masterFile (masterHeader @ protected) d of
                  (Some e, ds) \<Rightarrow> (Inl e, last ds)
                | (None, ds) \<Rightarrow> (Inr (key, sid), last ds))))"

definition loadOrCreateKey :: "Env \<Rightarrow> Protector \<Rightarrow> Disk \<Rightarrow> (goerr + string \<times> string) \<times> Disk" where
  "loadOrCreateKey v prot d0 =
     (case loadOrCreateID v d0 of
        (Inl e, d) \<Rightarrow> (Inl e, d)
      | (Inr sid, d) \<Rightarrow>
          (case readMasterFile v d of
             Inr wrapped \<Rightarrow>
               (case pr_Unprotect prot wrapped of
                  Inl e \<Rightarrow> (Inl e, d)
                | Inr key \<Rightarrow>
                    if length key \<noteq> keyLen then
                      (Inl (corrupt (''the master key is '' @ Itoa (int (length key)) @ '' bytes, expected '' @ Itoa (int keyLen))), d)
                    else (Inr (key, sid), d))
           | Inl e \<Rightarrow> if \<not> err_Is is_not_exist e then (Inl e, d) else create_key v prot sid d))"

definition NewReference :: "Env \<Rightarrow> goerr + string" where
  "NewReference v = (case rand_Read v ''reference'' 16 of Inl e \<Rightarrow> Inl e | Inr b \<Rightarrow> Inr (''s1_'' @ EncodeToString b))"

section \<open>The store\<close>

text \<open>
  A slice is a buffer of the heap or nil.  The heap holds every buffer the store has allocated for
  material, also those it no longer refers to, since wiping is about these.  A nil map of items is
  \<open>None\<close>; writing to it panics.
\<close>

type_synonym slice = "nat option"

record Store =
  st_key :: string
  st_id :: string
  st_items :: "slice go_map option"
  st_closed :: bool
  st_heap :: "string list"

definition MaxSecretBytes :: nat where "MaxSecretBytes = 65536"
definition MaxSecrets :: nat where "MaxSecrets = 4096"
definition MaxVaultBytes :: nat where "MaxVaultBytes = 8388608"

definition item_list :: "Store \<Rightarrow> slice go_map" where
  "item_list s = (case st_items s of None \<Rightarrow> [] | Some m \<Rightarrow> m)"

definition slice_of :: "Store \<Rightarrow> slice \<Rightarrow> string option" where
  "slice_of s b = map_option ((!) (st_heap s)) b"

definition slice_len :: "Store \<Rightarrow> slice \<Rightarrow> nat" where
  "slice_len s b = (case slice_of s b of None \<Rightarrow> 0 | Some c \<Rightarrow> length c)"

definition contents :: "Store \<Rightarrow> string option go_map option" where
  "contents s = map_option (map (\<lambda>(k, b). (k, slice_of s b))) (st_items s)"

definition wipe :: "slice \<Rightarrow> Store \<Rightarrow> Store" where
  "wipe b s =
     (case b of
        None \<Rightarrow> s
      | Some i \<Rightarrow> s\<lparr>st_heap := (st_heap s)[i := replicate (length (st_heap s ! i)) (CHR 0x00)]\<rparr>)"

definition alloc :: "string \<Rightarrow> Store \<Rightarrow> nat \<times> Store" where
  "alloc c s = (length (st_heap s), s\<lparr>st_heap := st_heap s @ [c]\<rparr>)"

definition store_aead :: "aes \<Rightarrow> Store \<Rightarrow> goerr + AEAD" where
  "store_aead aes s =
     (if length (st_key s) \<in> {16, 24, 32} then Inr (NewGCM (aes (st_key s)))
      else Inl (unavailable (TextE (''crypto/aes: invalid key size '' @ Itoa (int (length (st_key s)))))))"

definition seal :: "aes \<Rightarrow> Env \<Rightarrow> Store \<Rightarrow> (goerr + string) option" where
  "seal aes v s =
     (case store_aead aes s of
        Inl e \<Rightarrow> Some (Inl e)
      | Inr A \<Rightarrow>
          (case rand_Read v vaultFile nonceLen of
             Inl e \<Rightarrow> Some (Inl e)
           | Inr nonce \<Rightarrow> map_option Inr (seal_with A (st_id s) nonce (contents s))))"

definition unseal :: "aes \<Rightarrow> Store \<Rightarrow> string \<Rightarrow> goerr + string option go_map option" where
  "unseal aes s raw =
     (if length raw < headerLen + aeadOverhead then Inl (corrupt ''the vault is too short to hold a header'')
      else if take (length vaultHeader) raw \<noteq> vaultHeader then Inl (corrupt ''the vault has an unknown format'')
      else (case store_aead aes s of Inl e \<Rightarrow> Inl e | Inr A \<Rightarrow> unseal_with A (st_id s) raw))"

definition writeLocked :: "aes \<Rightarrow> Env \<Rightarrow> Store \<Rightarrow> Disk \<Rightarrow> (goerr option \<times> Disk list) option" where
  "writeLocked aes v s d =
     (case seal aes v s of
        None \<Rightarrow> None
      | Some (Inl e) \<Rightarrow> Some (Some e, [d])
      | Some (Inr sealed) \<Rightarrow>
          if length sealed > MaxVaultBytes then
            Some (Some (Newf CodeResourceExhausted KeySecretTooLarge
              (''secret store: the vault would be '' @ Itoa (int (length sealed)) @ '' bytes, the limit is '' @
               Itoa (int MaxVaultBytes))), [d])
          else Some (writeFileAtomic (ev_file v vaultFile) vaultFile sealed d))"

text \<open>Loading allocates one buffer for every slice that is not nil.\<close>

fun load_items :: "nat \<Rightarrow> string option go_map \<Rightarrow> slice go_map \<times> string list" where
  "load_items n [] = ([], [])"
| "load_items n ((k, None) # m) = (let (xs, h) = load_items n m in ((k, None) # xs, h))"
| "load_items n ((k, Some c) # m) = (let (xs, h) = load_items (Suc n) m in ((k, Some n) # xs, c # h))"

definition store_read :: "aes \<Rightarrow> Env \<Rightarrow> Store \<Rightarrow> Disk \<Rightarrow> goerr + Store" where
  "store_read aes v s d =
     (case ReadFile v vaultFile d of
        Inl e \<Rightarrow> if err_Is is_not_exist e then Inr s else Inl (unavailable e)
      | Inr raw \<Rightarrow>
          (case unseal aes s raw of
             Inl e \<Rightarrow> Inl e
           | Inr None \<Rightarrow> Inr (s\<lparr>st_items := None\<rparr>)
           | Inr (Some m) \<Rightarrow>
               (let (xs, h) = load_items (length (st_heap s)) m
                in Inr (s\<lparr>st_items := Some xs, st_heap := st_heap s @ h\<rparr>))))"

definition Open :: "aes \<Rightarrow> Env \<Rightarrow> string \<Rightarrow> Protector option \<Rightarrow> Disk \<Rightarrow> (goerr + Store) \<times> Disk" where
  "Open aes v dir protector d =
     (if TrimSpace dir = [] then
        (Inl (Newf CodeInvalidArgument KeySecretStoreUnavailable ''secret store: empty directory''), d)
      else
        (case protector of
           None \<Rightarrow> (Inl (Newf CodeInternal KeySecretStoreUnavailable ''secret store: no key protector''), d)
         | Some prot \<Rightarrow>
             (case ev_mkdir v of
                Some e \<Rightarrow> (Inl (unavailable e), d)
              | None \<Rightarrow>
                  (case loadOrCreateKey v prot d of
                     (Inl e, d1) \<Rightarrow> (Inl e, d1)
                   | (Inr (key, sid), d1) \<Rightarrow>
                       (store_read aes v
                          \<lparr>st_key = key, st_id = sid, st_items = Some [], st_closed = False, st_heap = []\<rparr> d1,
                        d1)))))"

subsection \<open>Writing\<close>

text \<open>A call that writes: its error, the store after it, and the states of the directory.\<close>

type_synonym written = "(goerr option \<times> Store \<times> Disk list) option"

definition store_closed :: goerr where
  "store_closed = Newf CodeInternal KeySecretStoreUnavailable ''secret store: closed''"

definition material_error :: "string \<Rightarrow> string \<Rightarrow> goerr option" where
  "material_error reference material =
     (case ValidateReference reference of
        Some e \<Rightarrow> Some e
      | None \<Rightarrow>
          if material = [] then
            Some (Newf CodeInvalidArgument KeySecretReferenceInvalid
              (''secret store: reference '' @ Quote reference @ '' has empty material''))
          else if length material > MaxSecretBytes then
            Some (Newf CodeResourceExhausted KeySecretTooLarge
              (''secret store: reference '' @ Quote reference @ '' holds '' @ Itoa (int (length material)) @
               '' bytes, the limit is '' @ Itoa (int MaxSecretBytes)))
          else None)"

definition put_locked :: "aes \<Rightarrow> Env \<Rightarrow> string \<Rightarrow> string \<Rightarrow> slice go_map \<Rightarrow> Store \<Rightarrow> Disk \<Rightarrow> written" where
  "put_locked aes v reference material m s d =
     (let (i, s1) = alloc material s;
          previous = map_of m reference;
          m1 = AList.update reference (Some i) m;
          s2 = s1\<lparr>st_items := Some m1\<rparr>
      in case writeLocked aes v s2 d of
           None \<Rightarrow> None
         | Some (Some e, ds) \<Rightarrow>
             Some (Some e,
                   wipe (Some i)
                     (s2\<lparr>st_items := Some (case previous of Some b \<Rightarrow> AList.update reference b m1
                                                        | None \<Rightarrow> AList.delete reference m1)\<rparr>), ds)
         | Some (None, ds) \<Rightarrow> Some (None, (case previous of Some b \<Rightarrow> wipe b s2 | None \<Rightarrow> s2), ds))"

definition store_Put :: "aes \<Rightarrow> Env \<Rightarrow> string \<Rightarrow> string \<Rightarrow> Store \<Rightarrow> Disk \<Rightarrow> written" where
  "store_Put aes v reference material s d =
     (case material_error reference material of
        Some e \<Rightarrow> Some (Some e, s, [d])
      | None \<Rightarrow>
          if st_closed s then Some (Some store_closed, s, [d])
          else if map_of (item_list s) reference = None \<and> length (item_list s) \<ge> MaxSecrets then
            Some (Some (Newf CodeResourceExhausted KeySecretStoreUnavailable
              (''secret store: already holds '' @ Itoa (int MaxSecrets) @ '' secrets'')), s, [d])
          else (case st_items s of None \<Rightarrow> None | Some m \<Rightarrow> put_locked aes v reference material m s d))"

definition store_Delete :: "aes \<Rightarrow> Env \<Rightarrow> string \<Rightarrow> Store \<Rightarrow> Disk \<Rightarrow> written" where
  "store_Delete aes v reference s d =
     (case ValidateReference reference of
        Some e \<Rightarrow> Some (Some e, s, [d])
      | None \<Rightarrow>
          if st_closed s then Some (Some store_closed, s, [d])
          else
            (case map_of (item_list s) reference of
               None \<Rightarrow> Some (None, s, [d])
             | Some previous \<Rightarrow>
                 (let m1 = AList.delete reference (item_list s);
                      s1 = s\<lparr>st_items := Some m1\<rparr>
                  in case writeLocked aes v s1 d of
                       None \<Rightarrow> None
                     | Some (Some e, ds) \<Rightarrow>
                         Some (Some e, s1\<lparr>st_items := Some (AList.update reference previous m1)\<rparr>, ds)
                     | Some (None, ds) \<Rightarrow> Some (None, wipe previous s1, ds))))"

text \<open>Every put gets a buffer of its own; the list of puts is one order of the Go map.\<close>

fun put_all :: "string go_map \<Rightarrow> slice go_map \<Rightarrow> Store \<Rightarrow> slice go_map \<times> Store" where
  "put_all [] m s = (m, s)"
| "put_all ((k, c) # puts) m s = (let (i, s1) = alloc c s in put_all puts (AList.update k (Some i) m) s1)"

definition wipe_puts :: "string go_map \<Rightarrow> slice go_map \<Rightarrow> Store \<Rightarrow> Store" where
  "wipe_puts puts m s = fold (\<lambda>(k, _). case map_of m k of Some b \<Rightarrow> wipe b | None \<Rightarrow> id) puts s"

text \<open>The last loop of \<open>Apply\<close>; taking the address of the first byte panics for an empty slice.\<close>

fun wipe_replaced :: "slice go_map \<Rightarrow> slice go_map \<Rightarrow> Store \<Rightarrow> Store option" where
  "wipe_replaced [] next s = Some s"
| "wipe_replaced ((k, b) # previous) next s =
     (case map_of next k of
        None \<Rightarrow> wipe_replaced previous next (wipe b s)
      | Some kept \<Rightarrow>
          if slice_len s kept = 0 \<or> slice_len s b = 0 then None
          else wipe_replaced previous next (if kept \<noteq> b then wipe b s else s))"

definition apply_locked :: "aes \<Rightarrow> Env \<Rightarrow> string go_map \<Rightarrow> string list \<Rightarrow> Store \<Rightarrow> Disk \<Rightarrow> written" where
  "apply_locked aes v puts deletes s d =
     (let (m, s1) = put_all puts (fold AList.delete deletes (item_list s)) s in
      if length m > MaxSecrets then
        Some (Some (Newf CodeResourceExhausted KeySecretStoreUnavailable
          (''secret store: the change would hold '' @ Itoa (int (length m)) @ '' secrets, the limit is '' @
           Itoa (int MaxSecrets))), wipe_puts puts m s1, [d])
      else
        (case writeLocked aes v (s1\<lparr>st_items := Some m\<rparr>) d of
           None \<Rightarrow> None
         | Some (Some e, ds) \<Rightarrow> Some (Some e, wipe_puts puts m s1, ds)
         | Some (None, ds) \<Rightarrow>
             map_option (\<lambda>s2. (None, s2, ds)) (wipe_replaced (item_list s) m (s1\<lparr>st_items := Some m\<rparr>))))"

definition store_Apply :: "aes \<Rightarrow> Env \<Rightarrow> string go_map \<Rightarrow> string list \<Rightarrow> Store \<Rightarrow> Disk \<Rightarrow> written" where
  "store_Apply aes v puts deletes s d =
     (case first_some (\<lambda>(k, c). material_error k c) puts of
        Some e \<Rightarrow> Some (Some e, s, [d])
      | None \<Rightarrow>
          (case first_some ValidateReference deletes of
             Some e \<Rightarrow> Some (Some e, s, [d])
           | None \<Rightarrow>
               if st_closed s then Some (Some store_closed, s, [d])
               else apply_locked aes v puts deletes s d))"

subsection \<open>Reading and closing\<close>

definition store_Get :: "string \<Rightarrow> Store \<Rightarrow> goerr + string" where
  "store_Get reference s =
     (case ValidateReference reference of
        Some e \<Rightarrow> Inl e
      | None \<Rightarrow>
          if st_closed s then Inl store_closed
          else
            (case map_of (item_list s) reference of
               None \<Rightarrow> Inl (Newf CodeNotFound KeySecretNotFound ''secret store: no secret under that reference'')
             | Some b \<Rightarrow> Inr (case slice_of s b of None \<Rightarrow> [] | Some c \<Rightarrow> c)))"

definition store_Has :: "string \<Rightarrow> Store \<Rightarrow> bool" where
  "store_Has reference s \<longleftrightarrow> ValidateReference reference = None \<and> map_of (item_list s) reference \<noteq> None"

definition store_Refs :: "Store \<Rightarrow> string list" where
  "store_Refs s = sort (map fst (item_list s))"

definition store_Len :: "Store \<Rightarrow> nat" where
  "store_Len s = length (item_list s)"

definition store_Close :: "Store \<Rightarrow> Store" where
  "store_Close s =
     (if st_closed s then s
      else (fold (\<lambda>(k, b). wipe b) (item_list s) s)
             \<lparr>st_closed := True, st_key := replicate (length (st_key s)) (CHR 0x00),
              st_id := replicate (length (st_id s)) (CHR 0x00),
              st_items := map_option (\<lambda>_. []) (st_items s)\<rparr>)"

end
