(* ===== verification/SecretStoreSpec.thy ===== *)
theory SecretStoreSpec
  imports SecretStore
begin

text \<open>
  What the credential store guarantees.  In memory: it is a dictionary with all-or-nothing
  updates, and every buffer that no longer holds a current credential is zero.  On disk: closing
  and opening gives the same dictionary, and a process that dies, or a machine that loses power,
  anywhere inside an update leaves the dictionary from before or after that update.
\<close>

section \<open>Memory\<close>

text \<open>\<open>blank I h\<close> is the heap \<open>h\<close> with the buffers \<open>I\<close> zeroed.\<close>

definition zeros :: "string \<Rightarrow> string" where
  "zeros c = replicate (length c) (CHR 0x00)"

definition blank :: "nat set \<Rightarrow> string list \<Rightarrow> string list" where
  "blank I h = map (\<lambda>i. if i \<in> I then zeros (h ! i) else h ! i) [0..<length h]"

lemma length_blank [simp]: "length (blank I h) = length h"
  by (simp add: blank_def)

lemma nth_blank [simp]: "i < length h \<Longrightarrow> blank I h ! i = (if i \<in> I then zeros (h ! i) else h ! i)"
  by (simp add: blank_def)

lemma zeros_twice [simp]: "zeros (zeros c) = zeros c" "length (zeros c) = length c" "zeros c = [] \<longleftrightarrow> c = []"
  by (simp_all add: zeros_def)

lemma blank_blank [simp]: "blank I (blank J h) = blank (I \<union> J) h"
  by (rule nth_equalityI) auto

lemma blank_empty [simp]: "blank {} h = h"
  by (rule nth_equalityI) auto

definition buffers :: "slice list \<Rightarrow> nat set" where
  "buffers bs = {i. Some i \<in> set bs}"

lemma buffers_simps [simp]:
  "buffers [] = {}" "buffers (None # bs) = buffers bs" "buffers (Some i # bs) = insert i (buffers bs)"
  by (auto simp: buffers_def)

lemma wipe_blank: "wipe b s = s\<lparr>st_heap := blank (buffers [b]) (st_heap s)\<rparr>"
proof (cases b)
  case (Some i)
  have "(st_heap s)[i := zeros (st_heap s ! i)] = blank {i} (st_heap s)"
    by (rule nth_equalityI) (auto simp: nth_list_update)
  with Some show ?thesis by (simp add: wipe_def zeros_def)
qed (simp add: wipe_def)

lemma wipe_fold: "fold wipe bs s = s\<lparr>st_heap := blank (buffers bs) (st_heap s)\<rparr>"
proof (induction bs arbitrary: s)
  case (Cons b bs)
  have "buffers bs \<union> buffers [b] = buffers (b # bs)" by (auto simp: buffers_def)
  with Cons show ?case by (simp add: wipe_blank)
qed simp

text \<open>
  A table of slices is sound for a heap when its references are valid, each holds a buffer of its
  own with material within the limits, and every other buffer is zero.
\<close>

definition holds :: "(string \<rightharpoonup> slice) \<Rightarrow> string list \<Rightarrow> bool" where
  "holds f h \<longleftrightarrow>
     (\<forall>k b. f k = Some b \<longrightarrow> ValidateReference k = None \<and>
        (\<exists>i < length h. b = Some i \<and> h ! i \<noteq> [] \<and> length (h ! i) \<le> MaxSecretBytes)) \<and>
     (\<forall>k k' b. f k = Some b \<and> f k' = Some b \<longrightarrow> k = k')"

definition clean :: "(string \<rightharpoonup> slice) \<Rightarrow> string list \<Rightarrow> bool" where
  "clean f h \<longleftrightarrow> (\<forall>i < length h. (\<forall>k. f k \<noteq> Some (Some i)) \<longrightarrow> h ! i = zeros (h ! i))"

lemma holdsE:
  assumes "holds f h" and "f k = Some b"
  obtains i where "b = Some i" "i < length h" "h ! i \<noteq> []" "length (h ! i) \<le> MaxSecretBytes" "ValidateReference k = None"
  using assms by (auto simp: holds_def)

lemma holds_low: "holds f h \<Longrightarrow> f k = Some (Some i) \<Longrightarrow> i < length h"
  by (auto simp: holds_def)

lemma holds_inj: "holds f h \<Longrightarrow> f k = Some b \<Longrightarrow> f k' = Some b \<Longrightarrow> k = k'"
  by (auto simp: holds_def)

text \<open>The dictionary a table and a heap stand for.\<close>

definition values_of :: "(string \<rightharpoonup> slice) \<Rightarrow> string list \<Rightarrow> (string \<rightharpoonup> string)" where
  "values_of f h k = map_option (\<lambda>b. case b of None \<Rightarrow> [] | Some i \<Rightarrow> h ! i) (f k)"

definition stored :: "Store \<Rightarrow> (string \<rightharpoonup> string)" where
  "stored s = values_of (map_of (item_list s)) (st_heap s)"

lemma blank_unused:
  assumes "holds f h" and "\<And>i. i \<in> I \<Longrightarrow> (\<forall>k. f k \<noteq> Some (Some i))"
  shows "holds f (blank I h)" "values_of f (blank I h) = values_of f h" "clean f h \<Longrightarrow> clean f (blank I h)"
proof -
  have keep: "blank I h ! i = h ! i" if "f k = Some (Some i)" "i < length h" for k i
    using that assms(2) [of i] by auto
  show "holds f (blank I h)"
    unfolding holds_def
  proof (intro conjI allI impI)
    fix k b
    assume k: "f k = Some b"
    then obtain i where i: "b = Some i" "i < length h" "h ! i \<noteq> []" "length (h ! i) \<le> MaxSecretBytes"
      and "ValidateReference k = None" using assms(1) by (elim holdsE)
    then show "ValidateReference k = None" by simp
    show "\<exists>i<length (blank I h). b = Some i \<and> blank I h ! i \<noteq> [] \<and> length (blank I h ! i) \<le> MaxSecretBytes"
      using i k keep [of k i] by auto
  next
    fix k k' b
    assume "f k = Some b \<and> f k' = Some b"
    with assms(1) show "k = k'" by (auto intro: holds_inj)
  qed
  show "values_of f (blank I h) = values_of f h"
  proof
    fix k
    show "values_of f (blank I h) k = values_of f h k"
      using assms(1) keep [of k]
      by (cases "f k") (auto simp: values_of_def elim!: holdsE)
  qed
  show "clean f h \<Longrightarrow> clean f (blank I h)"
    by (auto simp: clean_def)
qed

text \<open>Fresh buffers at the end of the heap do not disturb the table.\<close>

lemma append_unused:
  assumes "holds f h"
  shows "holds f (h @ cs)" "values_of f (h @ cs) = values_of f h"
proof -
  show "holds f (h @ cs)"
    using assms by (fastforce simp: holds_def nth_append)
  show "values_of f (h @ cs) = values_of f h"
  proof
    fix k
    show "values_of f (h @ cs) k = values_of f h k"
      using assms by (cases "f k") (auto simp: values_of_def nth_append elim!: holdsE)
  qed
qed

text \<open>
  Every update deletes references and puts material into fresh buffers: \<open>Put\<close> has one put,
  \<open>Delete\<close> one delete.
\<close>

definition new_slices :: "nat \<Rightarrow> string go_map \<Rightarrow> (string \<rightharpoonup> slice)" where
  "new_slices n puts = map_of (zip (map fst puts) (map Some [n..<n + length puts]))"

definition updated :: "(string \<rightharpoonup> slice) \<Rightarrow> nat \<Rightarrow> string go_map \<Rightarrow> string list \<Rightarrow> (string \<rightharpoonup> slice)" where
  "updated f n puts dels = (f |` (- set dels)) ++ new_slices n puts"

definition dropped :: "(string \<rightharpoonup> slice) \<Rightarrow> (string \<rightharpoonup> slice) \<Rightarrow> nat set" where
  "dropped f g = {i. \<exists>k. f k = Some (Some i) \<and> g k \<noteq> Some (Some i)}"

definition puts_ok :: "string go_map \<Rightarrow> bool" where
  "puts_ok puts \<longleftrightarrow> distinct (map fst puts) \<and> list_all (\<lambda>(k, c). material_error k c = None) puts"

lemma material_ok:
  "material_error k c = None \<longleftrightarrow> ValidateReference k = None \<and> c \<noteq> [] \<and> length c \<le> MaxSecretBytes"
  by (auto simp: material_error_def split: option.split)

lemma new_slices_None: "new_slices n puts k = None \<longleftrightarrow> k \<notin> set (map fst puts)"
  by (simp add: new_slices_def map_of_zip_is_None)

lemma new_slices_Some:
  assumes "new_slices n puts k = Some b"
  obtains j where "j < length puts" "k = fst (puts ! j)" "b = Some (n + j)"
proof -
  from assms have "(k, b) \<in> set (zip (map fst puts) (map Some [n..<n + length puts]))"
    unfolding new_slices_def by (rule map_of_SomeD)
  then show ?thesis using that by (auto simp: in_set_zip)
qed

lemma new_slices_nth:
  assumes "distinct (map fst puts)" and "j < length puts"
  shows "new_slices n puts (fst (puts ! j)) = Some (Some (n + j))"
proof -
  have "(fst (puts ! j), Some (n + j)) \<in> set (zip (map fst puts) (map Some [n..<n + length puts]))"
    using assms(2) by (auto simp: in_set_zip intro!: exI [of _ j])
  then show ?thesis
    using assms(1) unfolding new_slices_def by (intro map_of_is_SomeI) simp_all
qed

lemma updated_cases:
  assumes "updated f n puts dels k = Some b"
  obtains (old) "f k = Some b" "k \<notin> set dels" "k \<notin> set (map fst puts)"
  | (put) j where "j < length puts" "k = fst (puts ! j)" "b = Some (n + j)"
proof (cases "new_slices n puts k")
  case None
  with assms show ?thesis
    using old new_slices_None [of n puts k]
    by (auto simp: updated_def restrict_map_def map_add_def split: if_split_asm)
next
  case (Some b')
  then have "b' = b" using assms by (simp add: updated_def)
  with Some put show ?thesis by (auto elim!: new_slices_Some)
qed

lemma updated_holds:
  assumes "holds f h" and "puts_ok puts"
  shows "holds (updated f (length h) puts dels) (h @ map snd puts)"
  unfolding holds_def
proof (intro conjI allI impI)
  fix k b
  assume "updated f (length h) puts dels k = Some b"
  then have "ValidateReference k = None \<and> (\<exists>i<length (h @ map snd puts). b = Some i \<and>
      (h @ map snd puts) ! i \<noteq> [] \<and> length ((h @ map snd puts) ! i) \<le> MaxSecretBytes)"
  proof (cases rule: updated_cases)
    case old
    from assms(1) old(1) obtain i where "b = Some i" "i < length h" "h ! i \<noteq> []"
      "length (h ! i) \<le> MaxSecretBytes" "ValidateReference k = None" by (rule holdsE)
    then show ?thesis by (auto simp: nth_append)
  next
    case (put j)
    then have "material_error k (snd (puts ! j)) = None"
      using assms(2) by (auto simp: puts_ok_def list_all_length case_prod_unfold)
    with put show ?thesis
      unfolding material_ok by (auto simp: nth_append intro!: exI [of _ "length h + j"])
  qed
  then show "ValidateReference k = None"
    and "\<exists>i<length (h @ map snd puts). b = Some i \<and> (h @ map snd puts) ! i \<noteq> [] \<and>
      length ((h @ map snd puts) ! i) \<le> MaxSecretBytes"
    by blast+
next
  fix k k' b
  assume "updated f (length h) puts dels k = Some b \<and> updated f (length h) puts dels k' = Some b"
  then have u: "updated f (length h) puts dels k = Some b" "updated f (length h) puts dels k' = Some b"
    by blast+
  note low = holds_low [OF assms(1)]
  from u(1) show "k = k'"
  proof (cases rule: updated_cases)
    case old
    from u(2) show ?thesis
      using old(1) assms(1) low by (cases rule: updated_cases) (auto intro: holds_inj)
  next
    case (put j)
    from u(2) show ?thesis
      using put low by (cases rule: updated_cases) fastforce+
  qed
qed

lemma updated_values:
  assumes "holds f h" and "puts_ok puts"
  shows "values_of (updated f (length h) puts dels) (h @ map snd puts) = (values_of f h |` (- set dels)) ++ map_of puts"
proof
  fix k
  show "values_of (updated f (length h) puts dels) (h @ map snd puts) k =
      ((values_of f h |` (- set dels)) ++ map_of puts) k"
  proof (cases "new_slices (length h) puts k")
    case None
    then have "map_of puts k = None"
      by (simp add: new_slices_None map_of_eq_None_iff)
    with None show ?thesis
      using append_unused(2) [OF assms(1), of "map snd puts", THEN fun_cong, of k]
      by (auto simp: updated_def values_of_def restrict_map_def map_add_def)
  next
    case (Some b)
    then obtain j where j: "j < length puts" "k = fst (puts ! j)" "b = Some (length h + j)"
      by (rule new_slices_Some)
    have "map_of puts k = Some (snd (puts ! j))"
      using assms(2) j by (intro map_of_is_SomeI) (auto simp: puts_ok_def in_set_conv_nth intro!: exI [of _ j])
    with Some j show ?thesis by (simp add: updated_def values_of_def nth_append)
  qed
qed

lemma updated_kept:
  assumes "holds f h" and "puts_ok puts" and g_def: "g = updated f (length h) puts dels"
  shows "holds g (blank (dropped f g) (h @ map snd puts))"
    "values_of g (blank (dropped f g) (h @ map snd puts)) = (values_of f h |` (- set dels)) ++ map_of puts"
proof -
  note low = holds_low [OF assms(1)]
  have unused: "\<forall>k. g k \<noteq> Some (Some i)" if d: "i \<in> dropped f g" for i
  proof (intro allI notI)
    fix k
    assume k: "g k = Some (Some i)"
    from d obtain x where x: "f x = Some (Some i)" "g x \<noteq> Some (Some i)" by (auto simp: dropped_def)
    from k show False
      unfolding g_def
    proof (cases rule: updated_cases)
      case old
      with x holds_inj [OF assms(1) x(1)] k show False by blast
    next
      case (put j)
      with low [OF x(1)] show False by simp
    qed
  qed
  have h: "holds g (h @ map snd puts)" unfolding g_def by (rule updated_holds [OF assms(1,2)])
  show "holds g (blank (dropped f g) (h @ map snd puts))"
    and "values_of g (blank (dropped f g) (h @ map snd puts)) = (values_of f h |` (- set dels)) ++ map_of puts"
    using blank_unused [OF h unused] updated_values [OF assms(1,2), of dels] by (simp_all add: g_def)
qed

lemma updated_clean:
  assumes "holds f h" and "clean f h" and "puts_ok puts" and g_def: "g = updated f (length h) puts dels"
  shows "clean g (blank (dropped f g) (h @ map snd puts))"
  unfolding clean_def
proof (intro allI impI)
  fix i
  let ?h = "h @ map snd puts"
  assume i: "i < length (blank (dropped f g) ?h)" and n: "\<forall>k. g k \<noteq> Some (Some i)"
  show "blank (dropped f g) ?h ! i = zeros (blank (dropped f g) ?h ! i)"
  proof (cases "i < length h")
    case True
    with n assms(2) i show ?thesis
      by (cases "\<exists>k. f k = Some (Some i)") (auto simp: clean_def dropped_def nth_append)
  next
    case False
    then obtain j where j: "i = length h + j" "j < length puts" using i
      by (metis add_diff_inverse_nat length_append length_blank length_map nat_add_left_cancel_less)
    then have "g (fst (puts ! j)) = Some (Some i)"
      using new_slices_nth [of puts j "length h"] assms(3)
      by (simp add: g_def updated_def puts_ok_def)
    with n show ?thesis by blast
  qed
qed

text \<open>An update that fails keeps its table and zeroes the buffers it had filled.\<close>

lemma undone_kept:
  assumes "holds f h" and I: "I = {length h..<length h + length cs}"
  shows "holds f (blank I (h @ cs))" "values_of f (blank I (h @ cs)) = values_of f h"
proof -
  have "\<forall>k. f k \<noteq> Some (Some i)" if "i \<in> I" for i
    using that assms by (fastforce elim: holdsE)
  then show "holds f (blank I (h @ cs))" "values_of f (blank I (h @ cs)) = values_of f h"
    using blank_unused(1,2) [OF append_unused(1) [OF assms(1), of cs], of I] append_unused(2) [OF assms(1), of cs]
    by simp_all
qed

lemma undone_clean:
  assumes "holds f h" and "clean f h" and "I = {length h..<length h + length cs}"
  shows "clean f (blank I (h @ cs))"
  using assms(2,3) by (auto simp: clean_def nth_append)

section \<open>The directory\<close>

definition core_files :: "string set" where
  "core_files = {idFile, masterFile, vaultFile}"

text \<open>What a listing says of the files of the store, temporary ones left out.\<close>

definition view :: "disk_file go_map \<Rightarrow> (string \<rightharpoonup> disk_file)" where
  "view m = map_of m |` core_files"

definition views :: "Disk \<Rightarrow> (string \<rightharpoonup> disk_file) set" where
  "views d = view ` set (dk_now d # dk_past d)"

lemma temp_not_core: "path \<in> core_files \<Longrightarrow> path @ ''.tmp-'' @ x \<notin> core_files"
  by (auto simp: core_files_def idFile_def masterFile_def vaultFile_def)

lemma view_temp [simp]:
  assumes "tmp \<notin> core_files"
  shows "view (AList.update tmp f m) = view m" "view (AList.delete tmp m) = view m"
    "view (AList.map_entry tmp g m) = view m"
  using assms by (auto simp: view_def restrict_map_def update_conv' delete_conv' map_of_map_entry fun_eq_iff)

lemma views_now: "view (dk_now d) \<in> views d"
  by (simp add: views_def)

lemma views_steps [simp]:
  "view (dk_now (set_listing m d)) = view m" "views (set_listing m d) = insert (view m) (views d)"
  by (auto simp: set_listing_def views_def)

lemma temp_steps:
  assumes "tmp \<notin> core_files"
  shows "view (dk_now (file_write tmp data d)) = view (dk_now d)" "views (file_write tmp data d) = views d"
    "view (dk_now (file_sync tmp d)) = view (dk_now d)" "views (file_sync tmp d) = views d"
    "view (dk_now (os_Remove v tmp d)) = view (dk_now d)" "views (os_Remove v tmp d) = views d"
  using assms
  by (simp_all add: file_write_def file_sync_def os_Remove_def views_def)
    (auto simp: set_listing_def)

lemma CreateTemp_views:
  assumes "CreateTemp v path d = Inr (tmp, d1)" and "path \<in> core_files"
  shows "tmp \<notin> core_files" "view (dk_now d1) = view (dk_now d)" "views d1 = views d"
    "map_of (dk_now d1) tmp \<noteq> None"
  using assms temp_not_core [OF assms(2)] views_now [of d]
  by (auto simp: CreateTemp_def Let_def update_conv' insert_absorb split: option.splits)
    (simp_all add: set_listing_def update_conv')

lemma temp_content:
  "map_of (dk_now (file_sync tmp (file_write tmp data d))) tmp = Some \<lparr>fl_data = data, fl_synced = True\<rparr>"
  by (simp add: file_sync_def file_write_def map_of_map_entry update_conv')

lemma Rename_views:
  assumes "tmp \<notin> core_files" and "path \<in> core_files" and "map_of (dk_now d) tmp = Some f"
  shows "view (dk_now (os_Rename tmp path d)) = (view (dk_now d))(path \<mapsto> f)"
    "views (os_Rename tmp path d) = insert ((view (dk_now d))(path \<mapsto> f)) (views d)"
proof -
  have "view (AList.update path f (AList.delete tmp (dk_now d))) = (view (dk_now d))(path \<mapsto> f)"
    using assms(1,2) by (auto simp: view_def restrict_map_def update_conv' delete_conv' fun_eq_iff)
  then show "view (dk_now (os_Rename tmp path d)) = (view (dk_now d))(path \<mapsto> f)"
    "views (os_Rename tmp path d) = insert ((view (dk_now d))(path \<mapsto> f)) (views d)"
    using assms(3) by (simp_all add: os_Rename_def)
qed

lemma syncDir_views: "view (dk_now (syncDir v d)) = view (dk_now d)"
  "views (syncDir v d) = (if we_flush v then {view (dk_now d)} else views d)"
  by (simp_all add: syncDir_def views_def)

text \<open>
  The contract of \<open>writeFileAtomic\<close>: no state shows anything but the old files or the new, complete
  and synced, file; a failed write shows the old ones only; a flushed success only the new one.
\<close>

lemma write_temp_views:
  assumes "tmp \<notin> core_files" and "path \<in> core_files" and "write_temp v tmp path data d = (e, ds)"
    and new: "new = (view (dk_now d))(path \<mapsto> \<lparr>fl_data = data, fl_synced = True\<rparr>)"
  shows "ds \<noteq> [] \<and>
    (case e of
       Some _ \<Rightarrow> (\<forall>d' \<in> set ds. views d' = views d \<and> view (dk_now d') = view (dk_now d))
     | None \<Rightarrow> (\<forall>d' \<in> set ds. views d' \<subseteq> insert new (views d)) \<and> view (dk_now (last ds)) = new \<and>
         (we_flush v \<longrightarrow> views (last ds) = {new}))"
  using assms(3) views_now [of d]
    Rename_views [OF assms(1,2) temp_content, of data d] temp_steps [OF assms(1)]
  unfolding write_temp_def new
  by (auto simp: Let_def syncDir_views split: option.splits if_splits)

lemma write_views:
  assumes "path \<in> core_files" and "writeFileAtomic v path data d = (e, ds)"
    and new: "new = (view (dk_now d))(path \<mapsto> \<lparr>fl_data = data, fl_synced = True\<rparr>)"
  shows "ds \<noteq> []"
    and "e \<noteq> None \<Longrightarrow> \<forall>d' \<in> set ds. views d' = views d \<and> view (dk_now d') = view (dk_now d)"
    and "\<forall>d' \<in> set ds. views d' \<subseteq> insert new (views d)"
    and "e = None \<Longrightarrow> view (dk_now (last ds)) = new"
    and "e = None \<Longrightarrow> we_flush v \<Longrightarrow> views (last ds) = {new}"
proof -
  have "ds \<noteq> [] \<and> (\<forall>d' \<in> set ds. views d' \<subseteq> insert new (views d)) \<and>
    (case e of
       Some _ \<Rightarrow> (\<forall>d' \<in> set ds. views d' = views d \<and> view (dk_now d') = view (dk_now d))
     | None \<Rightarrow> view (dk_now (last ds)) = new \<and> (we_flush v \<longrightarrow> views (last ds) = {new}))"
  proof (cases "CreateTemp v path d")
    case (Inl err)
    with assms(2) show ?thesis by (auto simp: writeFileAtomic_def)
  next
    case (Inr td)
    obtain tmp d1 where td: "td = (tmp, d1)" by (cases td)
    note c = CreateTemp_views [OF Inr [unfolded td] assms(1)]
    obtain e1 ds1 where w: "write_temp v tmp path data d1 = (e1, ds1)" by fastforce
    have r: "e = e1" "ds = d # ds1 @ [os_Remove v tmp (last ds1)]"
      using assms(2) Inr w by (simp_all add: writeFileAtomic_def td)
    have n: "new = (view (dk_now d1))(path \<mapsto> \<lparr>fl_data = data, fl_synced = True\<rparr>)" by (simp add: new c(2))
    note t = write_temp_views [OF c(1) assms(1) w n, unfolded c(2,3)]
    then have l: "last ds1 \<in> set ds1" by simp
    show ?thesis
    proof (cases e1)
      case None
      with t l show ?thesis unfolding r using temp_steps(5,6) [OF c(1), of v "last ds1"] by auto
    next
      case (Some err)
      with t l show ?thesis unfolding r using temp_steps(5,6) [OF c(1), of v "last ds1"] by auto
    qed
  qed
  then show "ds \<noteq> []" "e \<noteq> None \<Longrightarrow> \<forall>d' \<in> set ds. views d' = views d \<and> view (dk_now d') = view (dk_now d)"
    "\<forall>d' \<in> set ds. views d' \<subseteq> insert new (views d)" "e = None \<Longrightarrow> view (dk_now (last ds)) = new"
    "e = None \<Longrightarrow> we_flush v \<Longrightarrow> views (last ds) = {new}"
    by (auto split: option.splits)
qed

section \<open>Files and memory together\<close>

text \<open>A store as \<open>Open\<close> builds it, before the vault is read.\<close>

definition fresh :: "string \<Rightarrow> string \<Rightarrow> Store" where
  "fresh key sid = \<lparr>st_key = key, st_id = sid, st_items = Some [], st_closed = False, st_heap = []\<rparr>"

definition payload_ok :: "string option go_map \<Rightarrow> bool" where
  "payload_ok m \<longleftrightarrow> distinct (map fst m) \<and> length m \<le> MaxSecrets \<and>
     list_all (\<lambda>(k, v). ValidateReference k = None \<and>
       (\<exists>c. v = Some c \<and> c \<noteq> [] \<and> length c \<le> MaxSecretBytes)) m"

definition payload_map :: "string option go_map \<Rightarrow> (string \<rightharpoonup> string)" where
  "payload_map m k = map_option (\<lambda>v. case v of None \<Rightarrow> [] | Some c \<Rightarrow> c) (map_of m k)"

text \<open>The vault file, possibly missing, holds the dictionary \<open>M\<close> for this key and this store.\<close>

definition vault_holds :: "aes \<Rightarrow> string \<Rightarrow> string \<Rightarrow> (string \<rightharpoonup> string) \<Rightarrow> disk_file option \<Rightarrow> bool" where
  "vault_holds aes key sid M x \<longleftrightarrow>
     (case x of
        None \<Rightarrow> M = Map.empty
      | Some f \<Rightarrow> fl_synced f \<and>
          (\<exists>m. unseal aes (fresh key sid) (fl_data f) = Inr (Some m) \<and> payload_ok m \<and> M = payload_map m))"

definition disk_holds ::
  "aes \<Rightarrow> Protector \<Rightarrow> string \<Rightarrow> string \<Rightarrow> (string \<rightharpoonup> string) \<Rightarrow> (string \<rightharpoonup> disk_file) \<Rightarrow> bool" where
  "disk_holds aes prot key sid M f \<longleftrightarrow>
     f idFile = Some \<lparr>fl_data = sid, fl_synced = True\<rparr> \<and> length sid = storeIDLen \<and>
     (\<exists>w. f masterFile = Some \<lparr>fl_data = masterHeader @ w, fl_synced = True\<rparr> \<and> pr_Unprotect prot w = Inr key) \<and>
     length key = keyLen \<and> vault_holds aes key sid M (f vaultFile)"

text \<open>An open store of this key whose table is sound.\<close>

definition store_ok :: "string \<Rightarrow> string \<Rightarrow> Store \<Rightarrow> bool" where
  "store_ok key sid s \<longleftrightarrow>
     st_key s = key \<and> st_id s = sid \<and> \<not> st_closed s \<and> length key = keyLen \<and>
     (\<exists>m. st_items s = Some m \<and> distinct (map fst m) \<and> length m \<le> MaxSecrets) \<and>
     holds (map_of (item_list s)) (st_heap s)"

definition store_clean :: "Store \<Rightarrow> bool" where
  "store_clean s \<longleftrightarrow> clean (map_of (item_list s)) (st_heap s)"

lemma contents_payload:
  assumes "store_ok key sid s"
  obtains m where "contents s = Some m" "payload_ok m" "payload_map m = stored s"
proof -
  from assms obtain xs where xs: "st_items s = Some xs" "distinct (map fst xs)" "length xs \<le> MaxSecrets"
    and h: "holds (map_of xs) (st_heap s)"
    by (auto simp: store_ok_def item_list_def)
  define m where "m = map (\<lambda>(k, b). (k, slice_of s b)) xs"
  have f: "map fst m = map fst xs" by (auto simp: m_def)
  have "ValidateReference k = None \<and> (\<exists>c. v = Some c \<and> c \<noteq> [] \<and> length c \<le> MaxSecretBytes)"
    if "(k, v) \<in> set m" for k v
  proof -
    from that obtain b where b: "(k, b) \<in> set xs" "v = slice_of s b" by (auto simp: m_def)
    with xs(2) have "map_of xs k = Some b" by simp
    with h show ?thesis using b(2) by (elim holdsE) (auto simp: slice_of_def)
  qed
  then have "payload_ok m"
    using xs(2,3) by (auto simp: payload_ok_def f list_all_iff) (simp add: m_def)
  moreover have "payload_map m = stored s"
    by (rule ext) (auto simp: payload_map_def m_def stored_def values_of_def item_list_def xs(1) map_of_map
        slice_of_def comp_def option.map_comp split: option.split intro!: option.map_cong)
  moreover have "contents s = Some m" by (simp add: contents_def xs(1) m_def)
  ultimately show ?thesis using that by blast
qed

lemma payload_short: "payload_ok m \<Longrightarrow> length (marshal_items (Some m)) \<le> gcm_limit"
proof -
  assume p: "payload_ok m"
  then have "length (marshal_items (Some m)) \<le> length m * (2 * MaxSecretBytes + 72) + 2"
    by (intro marshal_length) (auto simp: payload_ok_def list_all_iff)
  also have "\<dots> \<le> 4096 * (2 * 65536 + 72) + 2"
    using p by (intro add_mono mult_mono) (auto simp: payload_ok_def MaxSecrets_def MaxSecretBytes_def)
  also have "\<dots> \<le> gcm_limit" by (simp add: gcm_limit_def)
  finally show ?thesis .
qed

lemma payload_sorted: "payload_ok m \<Longrightarrow> payload_ok (sort_key fst m) \<and> payload_map (sort_key fst m) = payload_map m"
proof -
  assume p: "payload_ok m"
  then have d: "distinct (map fst m)" "distinct (map fst (sort_key fst m))" by (simp_all add: payload_ok_def distinct_map)
  have "map_of (sort_key fst m) = map_of m"
    using d by (intro map_of_inject_set [THEN iffD2]) simp_all
  with p d(2) show ?thesis by (auto simp: payload_ok_def payload_map_def list_all_iff fun_eq_iff)
qed

text \<open>Sealing never panics, and what it makes holds the dictionary.\<close>

lemma seal_vault:
  assumes "store_ok key sid s"
  shows "\<exists>r. seal aes v s = Some r"
    and "seal aes v s = Some (Inr raw) \<Longrightarrow> vault_holds aes key sid (stored s) (Some \<lparr>fl_data = raw, fl_synced = True\<rparr>)"
proof -
  obtain m where m: "contents s = Some m" "payload_ok m" "payload_map m = stored s"
    using assms by (rule contents_payload)
  have k: "st_key s = key" "st_id s = sid" "length key = 32" using assms by (simp_all add: store_ok_def keyLen_def)
  have a: "store_aead aes s = Inr (NewGCM (aes key))" "store_aead aes (fresh key sid) = Inr (NewGCM (aes key))"
    by (simp_all add: store_aead_def k fresh_def)
  have total: "\<exists>raw. seal_with (NewGCM (aes key)) sid nonce (Some m) = Some raw" for nonce
    unfolding seal_with_def by (rule gcm.seal_total [OF payload_short [OF m(2)]])
  then show "\<exists>r. seal aes v s = Some r"
    by (fastforce simp: seal_def a m(1) k split: sum.split)
  assume "seal aes v s = Some (Inr raw)"
  then obtain x where x: "seal_with (NewGCM (aes key)) sid (map x [0..<nonceLen]) (Some m) = Some raw"
    by (auto simp: seal_def a m(1) k rand_Read_def split: sum.splits)
  define nonce where "nonce = map x [0..<nonceLen]"
  have n: "length nonce = nonceLen" "seal_with (NewGCM (aes key)) sid nonce (Some m) = Some raw"
    using x by (simp_all add: nonce_def)
  have "unmarshal_items (marshal_items (Some m)) = Some (Some (sort_key fst m))"
    using m(2) by (intro unmarshal_marshal) (auto simp: payload_ok_def list_all_iff)
  moreover have "list_all (\<lambda>(k, _). ValidateReference k = None) (sort_key fst m)"
    using m(2) by (auto simp: payload_ok_def list_all_iff)
  ultimately have "unseal_with (NewGCM (aes key)) sid raw = Inr (Some (sort_key fst m)) \<and>
      headerLen + aeadOverhead \<le> length raw \<and> take (length vaultHeader) raw = vaultHeader"
    by (intro gcm.unseal_seal [OF n]) simp_all
  then have "unseal aes (fresh key sid) raw = Inr (Some (sort_key fst m))"
    by (simp add: unseal_def a(2)) (simp add: fresh_def)
  with payload_sorted [OF m(2)] m(3)
  show "vault_holds aes key sid (stored s) (Some \<lparr>fl_data = raw, fl_synced = True\<rparr>)"
    by (auto simp: vault_holds_def)
qed

text \<open>What an update may do to the directory: nothing, or show a vault with the new dictionary.\<close>

definition wrote ::
  "aes \<Rightarrow> string \<Rightarrow> string \<Rightarrow> (string \<rightharpoonup> string) \<Rightarrow> Env \<Rightarrow> Disk \<Rightarrow> goerr option \<Rightarrow> Disk list \<Rightarrow> bool" where
  "wrote aes key sid M v d e ds \<longleftrightarrow>
     (let new = (\<lambda>x. \<exists>f. vault_holds aes key sid M (Some f) \<and> x = (view (dk_now d))(vaultFile \<mapsto> f)) in
      ds \<noteq> [] \<and> (\<forall>d' \<in> set ds. \<forall>x \<in> views d'. x \<in> views d \<or> new x) \<and>
      (if e = None
       then new (view (dk_now (last ds))) \<and>
         (we_flush (ev_file v vaultFile) \<longrightarrow> views (last ds) = {view (dk_now (last ds))})
       else views (last ds) = views d \<and> view (dk_now (last ds)) = view (dk_now d)))"

lemma writeLocked_wrote:
  assumes "store_ok key sid s"
  obtains e ds where "writeLocked aes v s d = Some (e, ds)" "wrote aes key sid (stored s) v d e ds"
proof -
  obtain r where r: "seal aes v s = Some r" using seal_vault(1) [OF assms] by blast
  show ?thesis
  proof (cases r)
    case (Inl e)
    with r that [of "Some e" "[d]"] show ?thesis by (simp add: writeLocked_def wrote_def)
  next
    case (Inr raw)
    have h: "vault_holds aes key sid (stored s) (Some \<lparr>fl_data = raw, fl_synced = True\<rparr>)"
      using seal_vault(2) [OF assms] r Inr by simp
    obtain e ds where w: "writeFileAtomic (ev_file v vaultFile) vaultFile raw d = (e, ds)" by fastforce
    have c: "vaultFile \<in> core_files" by (simp add: core_files_def)
    note wv = write_views [OF c w refl]
    have l: "last ds \<in> set ds" using wv(1) by simp
    have "wrote aes key sid (stored s) v d e ds"
      unfolding wrote_def Let_def
    proof (intro conjI)
      show "ds \<noteq> []" by (rule wv(1))
      show "\<forall>d'\<in>set ds. \<forall>x\<in>views d'. x \<in> views d \<or>
          (\<exists>f. vault_holds aes key sid (stored s) (Some f) \<and> x = (view (dk_now d))(vaultFile \<mapsto> f))"
        using wv(3) h by blast
    qed (use wv(2,4,5) h l in \<open>cases "e = None"; auto\<close>)
    with r Inr w that show ?thesis by (cases "length raw > MaxVaultBytes") (auto simp: writeLocked_def wrote_def)
  qed
qed

section \<open>Updates\<close>

datatype store_op = OpPut string string | OpDelete string | OpApply "string go_map" "string list"

definition store_step :: "aes \<Rightarrow> Env \<Rightarrow> store_op \<Rightarrow> Store \<Rightarrow> Disk \<Rightarrow> written" where
  "store_step aes v x s d =
     (case x of
        OpPut k c \<Rightarrow> store_Put aes v k c s d
      | OpDelete k \<Rightarrow> store_Delete aes v k s d
      | OpApply puts deletes \<Rightarrow> store_Apply aes v puts deletes s d)"

text \<open>The same on a dictionary.\<close>

fun op_spec :: "store_op \<Rightarrow> (string \<rightharpoonup> string) \<Rightarrow> (string \<rightharpoonup> string)" where
  "op_spec (OpPut k c) M = M(k \<mapsto> c)"
| "op_spec (OpDelete k) M = M(k := None)"
| "op_spec (OpApply puts deletes) M = (M |` (- set deletes)) ++ map_of puts"

text \<open>The puts of \<open>Apply\<close> are a Go map: no reference occurs twice.\<close>

fun op_map :: "store_op \<Rightarrow> bool" where
  "op_map (OpApply puts deletes) = distinct (map fst puts)"
| "op_map x = True"

definition step_ok ::
  "aes \<Rightarrow> string \<Rightarrow> string \<Rightarrow> Env \<Rightarrow> (string \<rightharpoonup> string) \<Rightarrow> Store \<Rightarrow> Disk \<Rightarrow> written \<Rightarrow> bool" where
  "step_ok aes key sid v M s d r \<longleftrightarrow>
     (\<exists>e s' ds. r = Some (e, s', ds) \<and> store_ok key sid s' \<and> (store_clean s \<longrightarrow> store_clean s') \<and>
        stored s' = (if e = None then M else stored s) \<and>
        (wrote aes key sid M v d e ds \<or> ds = [d] \<and> stored s' = stored s))"

lemma step_refused: "store_ok key sid s \<Longrightarrow> step_ok aes key sid v M s d (Some (Some e, s, [d]))"
  by (simp add: step_ok_def)

text \<open>A store with a new table over the old heap and fresh buffers.\<close>

definition replaced :: "Store \<Rightarrow> slice go_map \<Rightarrow> string list \<Rightarrow> nat set \<Rightarrow> Store" where
  "replaced s m cs I = s\<lparr>st_items := Some m, st_heap := blank I (st_heap s @ cs)\<rparr>"

lemma replaced_done:
  assumes "store_ok key sid s" and "puts_ok puts" and "distinct (map fst m)" and "length m \<le> MaxSecrets"
    and m: "map_of m = updated (map_of (item_list s)) (length (st_heap s)) puts dels"
    and M: "M = (stored s |` (- set dels)) ++ map_of puts"
  shows "store_ok key sid (replaced s m (map snd puts) {})" "stored (replaced s m (map snd puts) {}) = M"
    and "I = dropped (map_of (item_list s)) (map_of m) \<Longrightarrow>
      store_ok key sid (replaced s m (map snd puts) I) \<and> stored (replaced s m (map snd puts) I) = M \<and>
      (store_clean s \<longrightarrow> store_clean (replaced s m (map snd puts) I))"
proof -
  have h: "holds (map_of (item_list s)) (st_heap s)" using assms(1) by (simp add: store_ok_def)
  have i: "item_list (replaced s m cs J) = m" "st_heap (replaced s m cs J) = blank J (st_heap s @ cs)" for cs J
    by (simp_all add: replaced_def item_list_def)
  have ok: "store_ok key sid (replaced s m cs J) \<longleftrightarrow> holds (map_of m) (blank J (st_heap s @ cs))" for cs J
    using assms(1,3,4) by (auto simp: store_ok_def i) (auto simp: replaced_def)
  show "store_ok key sid (replaced s m (map snd puts) {})" "stored (replaced s m (map snd puts) {}) = M"
    using updated_holds [OF h assms(2), of dels] updated_values [OF h assms(2), of dels]
    by (simp_all add: ok stored_def i m M)
  assume I: "I = dropped (map_of (item_list s)) (map_of m)"
  show "store_ok key sid (replaced s m (map snd puts) I) \<and> stored (replaced s m (map snd puts) I) = M \<and>
      (store_clean s \<longrightarrow> store_clean (replaced s m (map snd puts) I))"
    using updated_kept [OF h assms(2) m] updated_clean [OF h _ assms(2) m]
    by (simp add: ok stored_def store_clean_def i I M)
qed

lemma replaced_undone:
  assumes "store_ok key sid s" and "distinct (map fst m)" and "map_of m = map_of (item_list s)"
    and "I = {length (st_heap s)..<length (st_heap s) + length cs}"
  shows "store_ok key sid (replaced s m cs I) \<and> stored (replaced s m cs I) = stored s \<and>
    (store_clean s \<longrightarrow> store_clean (replaced s m cs I))"
proof -
  have h: "holds (map_of (item_list s)) (st_heap s)" using assms(1) by (simp add: store_ok_def)
  have i: "item_list (replaced s m cs I) = m" "st_heap (replaced s m cs I) = blank I (st_heap s @ cs)"
    by (simp_all add: replaced_def item_list_def)
  have "length m \<le> MaxSecrets"
    using assms by (auto simp: store_ok_def item_list_def)
      (metis distinct_card distinct_map dom_map_of_conv_image_fst length_map list.set_map)
  then show ?thesis
    using assms(1-3) undone_kept [OF h assms(4)] undone_clean [OF h _ assms(4)]
    by (auto simp: store_ok_def store_clean_def stored_def i) (auto simp: replaced_def)
qed

text \<open>The three ways an update ends: no write, a failed write, a completed write.\<close>

lemma step_written:
  assumes "store_ok key sid s2" and "stored s2 = M"
    and failed: "store_ok key sid bad" "stored bad = stored s" "store_clean s \<longrightarrow> store_clean bad"
    and finished: "store_ok key sid good" "stored good = M" "store_clean s \<longrightarrow> store_clean good"
  shows "step_ok aes key sid v M s d
    (case writeLocked aes v s2 d of None \<Rightarrow> None | Some (Some e, ds) \<Rightarrow> Some (Some e, bad, ds)
     | Some (None, ds) \<Rightarrow> Some (None, good, ds))"
proof -
  obtain e ds where w: "writeLocked aes v s2 d = Some (e, ds)" "wrote aes key sid (stored s2) v d e ds"
    using assms(1) by (rule writeLocked_wrote)
  with assms show ?thesis by (cases e) (simp_all add: step_ok_def)
qed

lemma length_update: "length (AList.update k v m) = (if k \<in> fst ` set m then length m else Suc (length m))"
  by (induction m) (auto split: if_splits)

lemma new_slices_single: "new_slices n [(k, c)] = [k \<mapsto> Some n]" "new_slices n [] = Map.empty"
  by (simp_all add: new_slices_def)

lemma store_items: "store_ok key sid s \<Longrightarrow> st_items s = Some (item_list s) \<and> distinct (map fst (item_list s)) \<and> length (item_list s) \<le> MaxSecrets"
  by (auto simp: store_ok_def item_list_def)

lemma Put_ok:
  assumes ok: "store_ok key sid s"
  shows "step_ok aes key sid v (op_spec (OpPut k c) (stored s)) s d (store_Put aes v k c s d)"
proof -
  let ?n = "length (st_heap s)" and ?m = "item_list s"
  define m1 where "m1 = AList.update k (Some ?n) ?m"
  note it = store_items [OF ok]
  show ?thesis
  proof (cases "material_error k c = None \<and> (map_of ?m k \<noteq> None \<or> length ?m < MaxSecrets)")
    case False
    with ok show ?thesis
      by (auto simp: store_Put_def store_ok_def split: option.split intro!: step_refused)
  next
    case True
    have p: "puts_ok [(k, c)]" using True by (simp add: puts_ok_def)
    have l: "length m1 \<le> MaxSecrets"
      using True it by (auto simp: m1_def length_update map_of_eq_None_iff)
    have f: "map_of m1 = updated (map_of ?m) ?n [(k, c)] []"
      by (simp add: m1_def update_conv' updated_def new_slices_single restrict_map_def fun_eq_iff map_add_def)
    have dm: "distinct (map fst m1)" using it by (simp add: m1_def distinct_update)
    have M: "(stored s)(k \<mapsto> c) = (stored s |` (- set [])) ++ map_of [(k, c)]"
      by (simp add: restrict_map_def fun_eq_iff)
    note fine = replaced_done [OF ok p dm l f M]
    define undo where "undo = (case map_of ?m k of Some b \<Rightarrow> AList.update k b m1 | None \<Rightarrow> AList.delete k m1)"
    have u: "map_of undo = map_of ?m" "distinct (map fst undo)"
      using it by (auto simp: undo_def m1_def update_conv' delete_conv' distinct_update distinct_delete fun_eq_iff split: option.split)
    define prev where "prev = (case map_of ?m k of Some b \<Rightarrow> buffers [b] | None \<Rightarrow> {})"
    have low: "i < ?n" if "map_of ?m k = Some (Some i)" for i
      using ok that by (auto simp: store_ok_def intro: holds_low)
    have pd: "prev = dropped (map_of ?m) (map_of m1)"
      using low by (auto simp: prev_def dropped_def m1_def update_conv' buffers_def split: option.split)
    have s2: "s\<lparr>st_heap := st_heap s @ [c], st_items := Some m1\<rparr> = replaced s m1 [c] {}"
      by (simp add: replaced_def)
    have bad: "wipe (Some ?n) ((replaced s m1 [c] {})\<lparr>st_items := Some undo\<rparr>) = replaced s undo [c] {?n..<?n + length [c]}"
      by (simp add: wipe_blank replaced_def)
    have good: "(case map_of ?m k of None \<Rightarrow> replaced s m1 [c] {} | Some b \<Rightarrow> wipe b (replaced s m1 [c] {})) =
        replaced s m1 [c] prev"
      by (simp add: wipe_blank replaced_def prev_def split: option.split)
    have "store_Put aes v k c s d = put_locked aes v k c ?m s d"
      using True ok it by (auto simp: store_Put_def store_ok_def)
    also have "\<dots> =
        (case writeLocked aes v (replaced s m1 [c] {}) d of None \<Rightarrow> None
         | Some (Some e, ds) \<Rightarrow> Some (Some e, replaced s undo [c] {?n..<?n + length [c]}, ds)
         | Some (None, ds) \<Rightarrow> Some (None, replaced s m1 [c] prev, ds))"
      unfolding put_locked_def alloc_def Let_def prod.case m1_def [symmetric] s2 undo_def [symmetric] bad good ..
    finally show ?thesis
      using fine(1,2) fine(3) [OF pd] replaced_undone [OF ok u(2,1) refl, of "[c]"]
      by (simp only: op_spec.simps) (rule step_written, simp_all)
  qed
qed

lemma Delete_ok:
  assumes ok: "store_ok key sid s"
  shows "step_ok aes key sid v (op_spec (OpDelete k) (stored s)) s d (store_Delete aes v k s d)"
proof -
  let ?m = "item_list s"
  define m1 where "m1 = AList.delete k ?m"
  note it = store_items [OF ok]
  show ?thesis
  proof (cases "ValidateReference k = None \<and> map_of ?m k \<noteq> None")
    case False
    have "(stored s)(k := None) = stored s" if "map_of ?m k = None"
      using that by (simp add: stored_def values_of_def fun_eq_iff)
    with False ok show ?thesis
      by (auto simp: store_Delete_def store_ok_def step_ok_def split: option.split)
  next
    case True
    then obtain b where b: "map_of ?m k = Some b" by blast
    have p: "puts_ok []" by (simp add: puts_ok_def)
    have l: "length m1 \<le> MaxSecrets" using it length_delete_le [of k ?m] by (simp add: m1_def)
    have f: "map_of m1 = updated (map_of ?m) (length (st_heap s)) [] [k]"
      by (simp add: m1_def delete_conv' updated_def new_slices_single restrict_map_def fun_eq_iff map_add_def)
    have dm: "distinct (map fst m1)" using it by (simp add: m1_def distinct_delete)
    have M: "(stored s)(k := None) = (stored s |` (- set [k])) ++ map_of []"
      by (simp add: restrict_map_def fun_eq_iff)
    note fine = replaced_done [OF ok p dm l f M]
    have u: "map_of (AList.update k b m1) = map_of ?m" "distinct (map fst (AList.update k b m1))"
      using it b by (simp_all add: m1_def update_conv' delete_conv' distinct_update distinct_delete fun_eq_iff)
    have pd: "buffers [b] = dropped (map_of ?m) (map_of m1)"
      using b by (auto simp: dropped_def m1_def delete_conv' buffers_def)
    have s1: "s\<lparr>st_items := Some m1\<rparr> = replaced s m1 [] {}"
      by (simp add: replaced_def)
    have bad: "(replaced s m1 [] {})\<lparr>st_items := Some (AList.update k b m1)\<rparr> =
        replaced s (AList.update k b m1) [] {length (st_heap s)..<length (st_heap s) + length ([] :: string list)}"
      by (simp add: replaced_def)
    have good: "wipe b (replaced s m1 [] {}) = replaced s m1 [] (buffers [b])"
      by (simp add: wipe_blank replaced_def)
    have nc: "\<not> st_closed s" using ok by (simp add: store_ok_def)
    have "store_Delete aes v k s d =
        (case writeLocked aes v (replaced s m1 [] {}) d of None \<Rightarrow> None
         | Some (Some e, ds) \<Rightarrow>
             Some (Some e, replaced s (AList.update k b m1) [] {length (st_heap s)..<length (st_heap s) + length ([] :: string list)}, ds)
         | Some (None, ds) \<Rightarrow> Some (None, replaced s m1 [] (buffers [b]), ds))"
      unfolding store_Delete_def True [THEN conjunct1] option.case if_not_P [OF nc] b Let_def m1_def [symmetric] s1 bad good ..
    then show ?thesis
      using fine(1,2) fine(3) [OF pd] replaced_undone [OF ok u(2,1) refl, of "[]"]
      by (simp only: op_spec.simps) (rule step_written, simp_all)
  qed
qed

lemma new_slices_Cons: "new_slices n ((k, c) # puts) = (new_slices (Suc n) puts)(k \<mapsto> Some n)"
proof -
  have "[n..<n + length ((k, c) # puts)] = n # [Suc n..<Suc n + length puts]"
    by (subst upt_conv_Cons) simp_all
  then show ?thesis by (simp only: new_slices_def list.map zip_Cons_Cons map_of.simps fst_conv snd_conv)
qed

lemma put_all_effect:
  assumes "distinct (map fst puts)" and "put_all puts m s = (m', s')"
  shows "s' = s\<lparr>st_heap := st_heap s @ map snd puts\<rparr> \<and> map_of m' = map_of m ++ new_slices (length (st_heap s)) puts \<and>
    (distinct (map fst m) \<longrightarrow> distinct (map fst m'))"
  using assms
proof (induction puts arbitrary: m s)
  case Nil
  then show ?case by (simp add: new_slices_single)
next
  case (Cons p puts)
  obtain k c where p: "p = (k, c)" by (cases p)
  let ?s1 = "s\<lparr>st_heap := st_heap s @ [c]\<rparr>" and ?n = "length (st_heap s)"
  have IH: "s' = ?s1\<lparr>st_heap := st_heap ?s1 @ map snd puts\<rparr>"
    "map_of m' = map_of (AList.update k (Some ?n) m) ++ new_slices (length (st_heap ?s1)) puts"
    "distinct (map fst (AList.update k (Some ?n) m)) \<longrightarrow> distinct (map fst m')"
    using Cons.IH [of "AList.update k (Some ?n) m" ?s1] Cons.prems by (simp_all add: p alloc_def)
  have n: "new_slices (Suc ?n) puts k = None" using Cons.prems(1) by (simp add: new_slices_None p)
  have "new_slices ?n (p # puts) = (new_slices (Suc ?n) puts)(k \<mapsto> Some ?n)"
    by (simp add: p new_slices_Cons)
  then have "map_of m ++ new_slices ?n (p # puts) = map_of (AList.update k (Some ?n) m) ++ new_slices (Suc ?n) puts"
    using n by (auto simp: update_conv' map_add_def fun_eq_iff split: option.split)
  with IH show ?case by (simp add: p distinct_update)
qed

lemma fold_delete:
  "map_of (fold AList.delete ks m) = map_of m |` (- set ks)"
  "distinct (map fst m) \<Longrightarrow> distinct (map fst (fold AList.delete ks m))"
proof (induction ks arbitrary: m)
  case (Cons k ks)
  {
    case 1
    then show ?case using Cons.IH(1) by (auto simp: delete_conv' restrict_map_def fun_eq_iff)
  next
    case 2
    then show ?case using Cons.IH(2) by (simp add: distinct_delete)
  }
qed (simp_all add: restrict_map_def)

text \<open>The loops over the buffers of \<open>Apply\<close>.\<close>

lemma wipe_puts_blank:
  assumes "distinct (map fst puts)" and "\<And>k. k \<in> fst ` set puts \<Longrightarrow> map_of m k = new_slices n puts k"
  shows "wipe_puts puts m s = s\<lparr>st_heap := blank {n..<n + length puts} (st_heap s)\<rparr>"
proof -
  define step where "step = (\<lambda>(k, _ :: string). case map_of m k of Some b \<Rightarrow> wipe b | None \<Rightarrow> id)"
  have "map step puts = map wipe (map Some [n..<n + length puts])"
  proof (rule nth_equalityI)
    fix j
    assume "j < length (map step puts)"
    then have j: "j < length puts" by simp
    with assms(2) [of "fst (puts ! j)"] new_slices_nth [OF assms(1) j, of n]
    show "map step puts ! j = map wipe (map Some [n..<n + length puts]) ! j"
      by (simp add: step_def case_prod_unfold)
  qed simp
  then have "fold id (map step puts) s = fold id (map wipe (map Some [n..<n + length puts])) s" by simp
  then have "wipe_puts puts m s = fold wipe (map Some [n..<n + length puts]) s"
    by (simp only: wipe_puts_def step_def [symmetric] fold_map id_comp)
  also have "buffers (map Some [n..<n + length puts]) = {n..<n + length puts}" by (auto simp: buffers_def)
  ultimately show ?thesis by (simp add: wipe_fold)
qed

lemma wipe_replaced_blank:
  assumes "\<And>k b. (k, b) \<in> set previous \<Longrightarrow> \<exists>i < length (st_heap s). b = Some i \<and> st_heap s ! i \<noteq> []"
    and "\<And>k b. map_of m k = Some b \<Longrightarrow> \<exists>i < length (st_heap s). b = Some i \<and> st_heap s ! i \<noteq> []"
  shows "wipe_replaced previous m s =
    Some (s\<lparr>st_heap := blank {i. \<exists>k. (k, Some i) \<in> set previous \<and> map_of m k \<noteq> Some (Some i)} (st_heap s)\<rparr>)"
  using assms
proof (induction previous arbitrary: s)
  case (Cons p previous)
  obtain k b where kb: "p = (k, b)" by (cases p)
  from Cons.prems(1) [of k b] obtain i where i: "i < length (st_heap s)" "b = Some i" "st_heap s ! i \<noteq> []"
    by (auto simp: kb)
  then have p: "p = (k, Some i)" by (simp add: kb)
  let ?W = "\<lambda>ps. {i. \<exists>k. (k, Some i) \<in> set ps \<and> map_of m k \<noteq> Some (Some i)}"
  define I where "I = (if map_of m k = Some (Some i) then {} else {i})"
  define s1 where "s1 = s\<lparr>st_heap := blank I (st_heap s)\<rparr>"
  have w: "wipe (Some i) s = s\<lparr>st_heap := blank {i} (st_heap s)\<rparr>" by (simp add: wipe_blank)
  have "wipe_replaced (p # previous) m s = wipe_replaced previous m s1"
  proof (cases "map_of m k")
    case None
    then show ?thesis by (simp add: p s1_def I_def w)
  next
    case (Some b)
    with Cons.prems(2) [OF Some] i show ?thesis by (auto simp: p s1_def I_def w slice_len_def slice_of_def)
  qed
  also have "\<dots> = Some (s1\<lparr>st_heap := blank (?W previous) (st_heap s1)\<rparr>)"
  proof (rule Cons.IH)
    fix x b
    assume "(x, b) \<in> set previous"
    with Cons.prems(1) [of x b] show "\<exists>i<length (st_heap s1). b = Some i \<and> st_heap s1 ! i \<noteq> []"
      by (auto simp: s1_def)
  next
    fix x b
    assume "map_of m x = Some b"
    with Cons.prems(2) [of x b] show "\<exists>i<length (st_heap s1). b = Some i \<and> st_heap s1 ! i \<noteq> []"
      by (auto simp: s1_def)
  qed
  also have "?W previous \<union> I = ?W (p # previous)" by (auto simp: p I_def)
  ultimately show ?case by (simp add: s1_def)
qed simp

lemma Apply_locked_ok:
  assumes ok: "store_ok key sid s" and p: "puts_ok puts"
  shows "step_ok aes key sid v (op_spec (OpApply puts deletes) (stored s)) s d (apply_locked aes v puts deletes s d)"
proof -
  let ?m = "item_list s" and ?n = "length (st_heap s)"
  note it = store_items [OF ok]
  obtain m1 s1 where pa: "put_all puts (fold AList.delete deletes ?m) s = (m1, s1)" by fastforce
  have d: "distinct (map fst puts)" using p by (simp add: puts_ok_def)
  have s1: "s1 = s\<lparr>st_heap := st_heap s @ map snd puts\<rparr>"
    and f: "map_of m1 = updated (map_of ?m) ?n puts deletes" and dm: "distinct (map fst m1)"
    using put_all_effect [OF d pa] fold_delete(1) [of deletes ?m] fold_delete(2) [of ?m deletes] it by (simp_all add: updated_def)
  have "map_of m1 k = new_slices ?n puts k" if "k \<in> fst ` set puts" for k
    using that new_slices_None [of ?n puts k] by (auto simp: f updated_def)
  from wipe_puts_blank [OF d this] have bad: "wipe_puts puts m1 s1 = replaced s ?m (map snd puts) {?n..<?n + length (map snd puts)}"
    using it by (simp add: s1 replaced_def)
  note undone = replaced_undone [OF ok conjunct1 [OF conjunct2 [OF it]] refl refl, of "map snd puts"]
  show ?thesis
  proof (cases "length m1 > MaxSecrets")
    case True
    then show ?thesis using undone by (simp add: apply_locked_def pa bad step_ok_def)
  next
    case False
    then have l: "length m1 \<le> MaxSecrets" by simp
    note fine = replaced_done [OF ok p dm l f refl]
    have s2: "s1\<lparr>st_items := Some m1\<rparr> = replaced s m1 (map snd puts) {}"
      by (simp add: s1 replaced_def)
    let ?s2 = "replaced s m1 (map snd puts) {}"
    have i2: "item_list ?s2 = m1" "st_heap ?s2 = st_heap s @ map snd puts" by (simp_all add: replaced_def item_list_def)
    have D: "{i. \<exists>k. (k, Some i) \<in> set ?m \<and> map_of m1 k \<noteq> Some (Some i)} = dropped (map_of ?m) (map_of m1)"
      using it by (auto simp: dropped_def)
    have "wipe_replaced ?m m1 ?s2 = Some (?s2\<lparr>st_heap := blank (dropped (map_of ?m) (map_of m1)) (st_heap ?s2)\<rparr>)"
      unfolding D [symmetric]
    proof (rule wipe_replaced_blank)
      fix k b
      assume "(k, b) \<in> set ?m"
      then have "map_of ?m k = Some b" using it by simp
      moreover have "holds (map_of ?m) (st_heap s)" using ok by (simp add: store_ok_def)
      ultimately show "\<exists>i<length (st_heap ?s2). b = Some i \<and> st_heap ?s2 ! i \<noteq> []"
        by (auto simp: i2 nth_append elim!: holdsE)
    next
      fix k b
      assume "map_of m1 k = Some b"
      moreover have "holds (map_of m1) (st_heap ?s2)" using fine(1) by (simp add: store_ok_def i2)
      ultimately show "\<exists>i<length (st_heap ?s2). b = Some i \<and> st_heap ?s2 ! i \<noteq> []"
        by (auto elim!: holdsE)
    qed
    also have "?s2\<lparr>st_heap := blank (dropped (map_of ?m) (map_of m1)) (st_heap ?s2)\<rparr> =
        replaced s m1 (map snd puts) (dropped (map_of ?m) (map_of m1))"
      by (simp add: replaced_def)
    finally have good: "wipe_replaced ?m m1 ?s2 = Some (replaced s m1 (map snd puts) (dropped (map_of ?m) (map_of m1)))" .
    have "apply_locked aes v puts deletes s d =
        (case writeLocked aes v ?s2 d of None \<Rightarrow> None
         | Some (Some e, ds) \<Rightarrow> Some (Some e, replaced s ?m (map snd puts) {?n..<?n + length (map snd puts)}, ds)
         | Some (None, ds) \<Rightarrow> Some (None, replaced s m1 (map snd puts) (dropped (map_of ?m) (map_of m1)), ds))"
      unfolding apply_locked_def pa Let_def prod.case if_not_P [OF False] s2 bad good option.map ..
    then show ?thesis
      using fine(1,2) fine(3) [OF refl] undone
      by (simp only: op_spec.simps) (rule step_written, simp_all)
  qed
qed

lemma first_some_all: "first_some f xs = None \<longleftrightarrow> list_all (\<lambda>x. f x = None) xs"
  by (induction xs) (auto split: option.split)

lemma Apply_ok:
  assumes ok: "store_ok key sid s" and "distinct (map fst puts)"
  shows "step_ok aes key sid v (op_spec (OpApply puts deletes) (stored s)) s d (store_Apply aes v puts deletes s d)"
proof (cases "first_some (\<lambda>(k, c). material_error k c) puts")
  case None
  then have "puts_ok puts" using assms(2) by (auto simp: puts_ok_def first_some_all case_prod_unfold)
  with Apply_locked_ok [OF ok] None ok show ?thesis
    by (auto simp: store_Apply_def store_ok_def split: option.split intro: step_refused)
qed (use ok in \<open>simp add: store_Apply_def step_refused\<close>)

lemma store_step_ok:
  assumes "store_ok key sid s" and "op_map x"
  shows "step_ok aes key sid v (op_spec x (stored s)) s d (store_step aes v x s d)"
  using assms by (cases x) (simp_all add: store_step_def Put_ok Delete_ok Apply_ok del: op_spec.simps)

section \<open>Opening\<close>

definition readable :: "Env \<Rightarrow> bool" where
  "readable v \<longleftrightarrow> ev_mkdir v = None \<and> (\<forall>p. ev_read v p = None)"

lemma load_items_all:
  "list_all (\<lambda>(k, v). v \<noteq> None) m \<Longrightarrow>
   load_items n m = (zip (map fst m) (map Some [n..<n + length m]), map (the \<circ> snd) m)"
proof (induction m arbitrary: n)
  case (Cons kv m)
  then obtain k c where kv: "kv = (k, Some c)" by (cases kv) auto
  have "[n..<n + length (kv # m)] = n # [Suc n..<Suc n + length m]"
    by (subst upt_conv_Cons) simp_all
  with Cons show ?case by (simp add: kv del: upt_Suc)
qed simp

lemma loaded_store:
  assumes "payload_ok m" and "load_items 0 m = (xs, h)" and "length key = keyLen"
    and s_def: "s = (fresh key sid)\<lparr>st_items := Some xs, st_heap := h\<rparr>"
  shows "store_ok key sid s" "store_clean s" "stored s = payload_map m"
proof -
  define puts where "puts = map (\<lambda>(k, v). (k, the v)) m"
  have n: "list_all (\<lambda>(k, v). v \<noteq> None) m" using assms(1) by (auto simp: payload_ok_def list_all_iff)
  have k: "map fst puts = map fst m" "map snd puts = h" "length puts = length m"
    using assms(2) unfolding load_items_all [OF n] by (auto simp: puts_def)
  have "distinct (map fst puts)" using assms(1) unfolding k payload_ok_def by blast
  moreover have "list_all (\<lambda>(k, c). material_error k c = None) puts"
    using assms(1) by (fastforce simp: payload_ok_def list_all_iff material_ok puts_def)
  ultimately have p: "puts_ok puts" by (simp add: puts_ok_def)
  have x: "map_of xs = updated Map.empty (length ([] :: string list)) puts []" "map fst xs = map fst m"
    using assms(2) unfolding load_items_all [OF n] by (auto simp: updated_def new_slices_def k)
  have e: "holds Map.empty []" "clean Map.empty []" by (simp_all add: holds_def clean_def)
  have d: "dropped Map.empty g = {}" for g by (simp add: dropped_def)
  have i: "item_list s = xs" "st_heap s = h" by (simp_all add: s_def item_list_def)
  have "holds (map_of xs) h" "clean (map_of xs) h" "values_of (map_of xs) h = map_of puts"
    using updated_kept [OF e(1) p x(1)] updated_clean [OF e p x(1)]
    by (simp_all add: d k) (simp_all add: values_of_def fun_eq_iff map_add_def restrict_map_def split: option.split)
  moreover have "map_of puts = payload_map m"
  proof
    fix r
    show "map_of puts r = payload_map m r"
      using n by (cases "map_of m r") (auto simp: puts_def payload_map_def map_of_map list_all_iff dest!: map_of_SomeD)
  qed
  moreover have "distinct (map fst xs)" "length xs \<le> MaxSecrets"
    using assms(1) x(2) by (simp_all add: payload_ok_def) (metis length_map)
  ultimately show "store_ok key sid s" "store_clean s" "stored s = payload_map m"
    using assms(3) by (simp_all add: store_ok_def store_clean_def stored_def i) (simp add: s_def fresh_def)
qed

lemma view_core: "p \<in> core_files \<Longrightarrow> view m p = map_of m p"
  by (simp add: view_def)

lemmas core_names = core_files_def idFile_def masterFile_def vaultFile_def

lemma fresh_ok:
  assumes "length key = keyLen"
  shows "store_ok key sid (fresh key sid)" "store_clean (fresh key sid)" "stored (fresh key sid) = Map.empty"
  using assms by (simp_all add: store_ok_def fresh_def item_list_def holds_def store_clean_def clean_def
      stored_def values_of_def fun_eq_iff)

text \<open>A directory that holds a dictionary opens to it, and opening writes nothing.\<close>

lemma Open_existing:
  assumes "disk_holds aes prot key sid M (view (dk_now d))" and "readable v" and "TrimSpace dir \<noteq> []"
  obtains s where "Open aes v dir (Some prot) d = (Inr s, d)" "store_ok key sid s" "store_clean s" "stored s = M"
proof -
  have c: "idFile \<in> core_files" "masterFile \<in> core_files" "vaultFile \<in> core_files" by (simp_all add: core_files_def)
  obtain w where id: "map_of (dk_now d) idFile = Some \<lparr>fl_data = sid, fl_synced = True\<rparr>" "length sid = storeIDLen"
    and ma: "map_of (dk_now d) masterFile = Some \<lparr>fl_data = masterHeader @ w, fl_synced = True\<rparr>"
    "pr_Unprotect prot w = Inr key" and key: "length key = keyLen"
    and va: "vault_holds aes key sid M (map_of (dk_now d) vaultFile)"
    using assms(1) by (auto simp: disk_holds_def view_core [OF c(1)] view_core [OF c(2)] view_core [OF c(3)])
  have "loadOrCreateKey v prot d = (Inr (key, sid), d)"
    using id ma key assms(2)
    by (simp add: loadOrCreateKey_def loadOrCreateID_def readMasterFile_def ReadFile_def readable_def)
  then have o: "Open aes v dir (Some prot) d = (store_read aes v (fresh key sid) d, d)"
    using assms(2,3) by (simp add: Open_def readable_def fresh_def)
  show ?thesis
  proof (cases "map_of (dk_now d) vaultFile")
    case None
    have ne: "err_Is is_not_exist (PathE ''open'' vaultFile NotExistE)"
      by (simp add: err_Is_def is_not_exist_def chain.simps)
    with fresh_ok [OF key, of sid] None va ne assms(2) o that [of "fresh key sid"] show ?thesis
      by (simp add: store_read_def ReadFile_def readable_def vault_holds_def)
  next
    case (Some f)
    with va obtain m where m: "unseal aes (fresh key sid) (fl_data f) = Inr (Some m)" "payload_ok m" "M = payload_map m"
      by (auto simp: vault_holds_def)
    obtain xs h where l: "load_items 0 m = (xs, h)" by fastforce
    have "store_read aes v (fresh key sid) d = Inr ((fresh key sid)\<lparr>st_items := Some xs, st_heap := h\<rparr>)"
      using Some m(1) l assms(2) by (simp add: store_read_def ReadFile_def readable_def) (simp add: fresh_def)
    with o that loaded_store [OF m(2) l key refl] m(3) show ?thesis by simp
  qed
qed

text \<open>What the store relies on from its key protector.\<close>

locale protector =
  fixes prot :: Protector
  assumes recovers: "pr_Protect prot key = Inr w \<Longrightarrow> pr_Unprotect prot w = Inr key"
begin

text \<open>A store created in an empty directory.\<close>

lemma Open_new:
  assumes "Open aes v dir (Some prot) d = (Inr s, d')" and "view (dk_now d) = Map.empty"
  obtains key sid where "store_ok key sid s" "store_clean s" "stored s = Map.empty"
    "disk_holds aes prot key sid Map.empty (view (dk_now d'))"
    "we_flush (ev_file v masterFile) \<Longrightarrow> views d' = {view (dk_now d')}"
proof -
  have c: "idFile \<in> core_files" "masterFile \<in> core_files" "vaultFile \<in> core_files" by (simp_all add: core_files_def)
  have r: "\<exists>e. ReadFile v p x = Inl e" if "view (dk_now x) p = None" "p \<in> core_files" for p x
    using that by (auto simp: ReadFile_def view_core split: option.split)
  from assms(1) obtain key sid where k: "loadOrCreateKey v prot d = (Inr (key, sid), d')"
    and s: "store_read aes v (fresh key sid) d' = Inr s"
    by (auto simp: Open_def fresh_def split: if_splits option.splits prod.splits sum.splits)
  obtain e1 where "ReadFile v idFile d = Inl e1" using r [of d idFile] assms(2) c by auto
  with k obtain d1 ds1 where i: "loadOrCreateID v d = (Inr sid, d1)" "rand_Read v idFile storeIDLen = Inr sid"
    "writeFileAtomic (ev_file v idFile) idFile sid d = (None, ds1)" "d1 = last ds1"
    by (auto simp: loadOrCreateKey_def loadOrCreateID_def create_key_def split: if_splits option.splits prod.splits sum.splits)
  define v1 where "v1 = [idFile \<mapsto> \<lparr>fl_data = sid, fl_synced = True\<rparr>]"
  have n1: "view (dk_now d1) = v1" using write_views(4) [OF c(1) i(3) refl] assms(2) i(4) by (simp add: v1_def)
  then have "view (dk_now d1) masterFile = None" by (simp add: v1_def core_names)
  then obtain e2 where "ReadFile v masterFile d1 = Inl e2" using r c by blast
  then have "readMasterFile v d1 = Inl e2" by (simp add: readMasterFile_def)
  with k i(1) obtain w ds2 where m: "rand_Read v masterFile keyLen = Inr key" "pr_Protect prot key = Inr w"
    "writeFileAtomic (ev_file v masterFile) masterFile (masterHeader @ w) d1 = (None, ds2)" "d' = last ds2"
    by (auto simp: loadOrCreateKey_def create_key_def split: if_splits option.splits prod.splits sum.splits)
  note n2 = write_views(4,5) [OF c(2) m(3) refl, unfolded m(4) [symmetric] n1]
  have l: "length sid = storeIDLen" "length key = keyLen"
    using i(2) m(1) by (auto simp: rand_Read_def split: sum.splits)
  have vw: "view (dk_now d') = v1(masterFile \<mapsto> \<lparr>fl_data = masterHeader @ w, fl_synced = True\<rparr>)" using n2(1) by simp
  then have nv: "view (dk_now d') vaultFile = None" by (simp add: v1_def core_names)
  have "disk_holds aes prot key sid Map.empty (view (dk_now d'))"
    using recovers [OF m(2)] l vw by (simp add: disk_holds_def v1_def vault_holds_def core_names)
  moreover have "s = fresh key sid"
  proof -
    obtain e3 where "ReadFile v vaultFile d' = Inl e3" using r [of d' vaultFile] nv c by blast
    with s show ?thesis by (auto simp: store_read_def split: if_splits)
  qed
  ultimately show ?thesis using that fresh_ok [OF l(2), of sid] n2 vw by simp
qed

end

interpretation file_key: protector FileProtector
  by unfold_locales (simp add: FileProtector_def)

section \<open>Histories\<close>

fun store_run :: "aes \<Rightarrow> (Env \<times> store_op) list \<Rightarrow> Store \<Rightarrow> Disk \<Rightarrow> (goerr option list \<times> Store \<times> Disk) option" where
  "store_run aes [] s d = Some ([], s, d)"
| "store_run aes ((v, x) # xs) s d =
     (case store_step aes v x s d of
        None \<Rightarrow> None
      | Some (e, s', ds) \<Rightarrow> map_option (\<lambda>(es, r). (e # es, r)) (store_run aes xs s' (last ds)))"

text \<open>The dictionary after the calls that succeeded.\<close>

fun spec_run :: "(Env \<times> store_op) list \<Rightarrow> goerr option list \<Rightarrow> (string \<rightharpoonup> string) \<Rightarrow> (string \<rightharpoonup> string)" where
  "spec_run ((v, x) # xs) (e # es) M = spec_run xs es (if e = None then op_spec x M else M)"
| "spec_run _ _ M = M"

lemma wrote_holds:
  assumes "wrote aes key sid M' v d e ds" and "disk_holds aes prot key sid M (view (dk_now d))"
  shows "disk_holds aes prot key sid (if e = None then M' else M) (view (dk_now (last ds)))"
  using assms by (auto simp: wrote_def Let_def disk_holds_def core_names split: if_splits)

lemma step_holds:
  assumes "store_step aes v x s d = Some (e, s', ds)" and "store_ok key sid s" and "op_map x"
    and "disk_holds aes prot key sid (stored s) (view (dk_now d))"
  shows "store_ok key sid s'" "store_clean s \<Longrightarrow> store_clean s'"
    "stored s' = (if e = None then op_spec x (stored s) else stored s)"
    "disk_holds aes prot key sid (stored s') (view (dk_now (last ds)))"
    "we_flush (ev_file v vaultFile) \<Longrightarrow> views d = {view (dk_now d)} \<Longrightarrow> views (last ds) = {view (dk_now (last ds))}"
proof -
  from store_step_ok [OF assms(2,3), of aes v d] assms(1)
  have s: "store_ok key sid s'" "store_clean s \<longrightarrow> store_clean s'"
    "stored s' = (if e = None then op_spec x (stored s) else stored s)"
    and w: "wrote aes key sid (op_spec x (stored s)) v d e ds \<or> ds = [d] \<and> stored s' = stored s"
    by (auto simp: step_ok_def)
  show "store_ok key sid s'" "store_clean s \<Longrightarrow> store_clean s'"
    "stored s' = (if e = None then op_spec x (stored s) else stored s)"
    using s by blast+
  show "disk_holds aes prot key sid (stored s') (view (dk_now (last ds)))"
    using w
  proof
    assume "wrote aes key sid (op_spec x (stored s)) v d e ds"
    from wrote_holds [OF this assms(4)] show ?thesis unfolding s(3) .
  qed (use assms(4) in simp)
  show "views (last ds) = {view (dk_now (last ds))}"
    if "we_flush (ev_file v vaultFile)" "views d = {view (dk_now d)}"
    using w that by (auto simp: wrote_def Let_def split: if_splits)
qed

lemma run_holds:
  assumes "store_ok key sid s" and "list_all (\<lambda>(v, x). op_map x) xs"
    and "disk_holds aes prot key sid (stored s) (view (dk_now d))"
  obtains es s' d' where "store_run aes xs s d = Some (es, s', d')" "length es = length xs" "store_ok key sid s'"
    "store_clean s \<Longrightarrow> store_clean s'" "stored s' = spec_run xs es (stored s)"
    "disk_holds aes prot key sid (stored s') (view (dk_now d'))"
    "list_all (\<lambda>(v, x). we_flush (ev_file v vaultFile)) xs \<Longrightarrow> views d = {view (dk_now d)} \<Longrightarrow> views d' = {view (dk_now d')}"
  using assms
proof (induction xs arbitrary: s d thesis)
  case Nil
  then show ?case by simp
next
  case (Cons p xs)
  obtain v x where p: "p = (v, x)" by (cases p)
  have x: "op_map x" "list_all (\<lambda>(v, x). op_map x) xs" using Cons.prems(3) by (simp_all add: p)
  obtain e s1 ds where st: "store_step aes v x s d = Some (e, s1, ds)"
    using store_step_ok [OF Cons.prems(2) x(1), of aes v d] by (auto simp: step_ok_def)
  note h = step_holds [OF st Cons.prems(2) x(1) Cons.prems(4)]
  obtain es s' d' where r: "store_run aes xs s1 (last ds) = Some (es, s', d')" "length es = length xs" "store_ok key sid s'"
    "store_clean s1 \<Longrightarrow> store_clean s'" "stored s' = spec_run xs es (stored s1)"
    "disk_holds aes prot key sid (stored s') (view (dk_now d'))"
    "list_all (\<lambda>(v, x). we_flush (ev_file v vaultFile)) xs \<Longrightarrow> views (last ds) = {view (dk_now (last ds))} \<Longrightarrow>
       views d' = {view (dk_now d')}"
    using Cons.IH [OF _ h(1) x(2) h(4)] by blast
  show ?case
  proof (rule Cons.prems(1))
    show "store_run aes (p # xs) s d = Some (e # es, s', d')" by (simp add: p st r(1))
    show "length (e # es) = length (p # xs)" by (simp add: r(2))
    show "store_ok key sid s'" by (rule r(3))
    show "store_clean s'" if "store_clean s" using r(4) [OF h(2) [OF that]] .
    show "stored s' = spec_run (p # xs) (e # es) (stored s)" by (simp add: p r(5) h(3))
    show "disk_holds aes prot key sid (stored s') (view (dk_now d'))" by (rule r(6))
    show "views d' = {view (dk_now d')}"
      if "list_all (\<lambda>(v, x). we_flush (ev_file v vaultFile)) (p # xs)" "views d = {view (dk_now d)}"
      using that h(5) r(7) by (simp add: p)
  qed
qed

text \<open>Reading agrees with the dictionary.\<close>

lemma Get_stored:
  assumes "store_ok key sid s" and "ValidateReference k = None"
  shows "store_Get k s = (case stored s k of
      Some c \<Rightarrow> Inr c
    | None \<Rightarrow> Inl (Newf CodeNotFound KeySecretNotFound ''secret store: no secret under that reference''))"
  using assms by (auto simp: store_Get_def store_ok_def stored_def values_of_def slice_of_def split: option.split)

text \<open>
  A power loss keeps one of the listings since the last flush, and of the files in it at least
  those that were synced.
\<close>

definition power_loss :: "Disk \<Rightarrow> Disk \<Rightarrow> bool" where
  "power_loss d d' \<longleftrightarrow>
     (\<exists>m \<in> set (dk_now d # dk_past d). \<forall>p.
        (case map_of m p of
           None \<Rightarrow> map_of (dk_now d') p = None
         | Some f \<Rightarrow> fl_synced f \<longrightarrow> map_of (dk_now d') p = Some f))"

lemma power_loss_view:
  assumes "power_loss d d'" and "\<And>x. x \<in> views d \<Longrightarrow> disk_holds aes prot key sid (F x) x"
  shows "view (dk_now d') \<in> views d"
proof -
  from assms(1) obtain m where m: "m \<in> set (dk_now d # dk_past d)"
    and p: "\<And>p. case map_of m p of None \<Rightarrow> map_of (dk_now d') p = None | Some f \<Rightarrow> fl_synced f \<longrightarrow> map_of (dk_now d') p = Some f"
    unfolding power_loss_def by blast
  have v: "view m \<in> views d" unfolding views_def using m by (rule imageI)
  have "view (dk_now d') q = view m q" for q
  proof (cases "q \<in> core_files")
    case True
    have "fl_synced f" if "view m q = Some f" for f
      using assms(2) [OF v] that True by (auto simp: disk_holds_def vault_holds_def core_files_def)
    with p [of q] True show ?thesis by (auto simp: view_core split: option.splits)
  qed (simp add: view_def)
  then have "view (dk_now d') = view m" by blast
  with v show ?thesis by simp
qed

section \<open>Properties\<close>

text \<open>An empty directory, in which a store is created.\<close>

definition created :: "aes \<Rightarrow> Env \<Rightarrow> string \<Rightarrow> Protector \<Rightarrow> Store \<Rightarrow> Disk \<Rightarrow> bool" where
  "created aes v dir prot s d \<longleftrightarrow>
     (\<exists>d0. Open aes v dir (Some prot) d0 = (Inr s, d) \<and> (\<forall>p \<in> core_files. map_of (dk_now d0) p = None))"

lemma created_ok:
  assumes "created aes v dir prot s d" and "protector prot"
  obtains key sid where "store_ok key sid s" "store_clean s" "stored s = Map.empty"
    "disk_holds aes prot key sid (stored s) (view (dk_now d))" "TrimSpace dir \<noteq> []"
    "we_flush (ev_file v masterFile) \<Longrightarrow> views d = {view (dk_now d)}"
proof -
  from assms(1) obtain d0 where o: "Open aes v dir (Some prot) d0 = (Inr s, d)"
    and "\<forall>p \<in> core_files. map_of (dk_now d0) p = None" by (auto simp: created_def)
  then have "view (dk_now d0) = Map.empty" by (auto simp: view_def restrict_map_def fun_eq_iff)
  moreover have "TrimSpace dir \<noteq> []" using o by (auto simp: Open_def)
  ultimately show ?thesis using protector.Open_new [OF assms(2) o] that by metis
qed

text \<open>
  C6. The store refines a dictionary.  Whatever sequence of \<open>Put\<close>, \<open>Delete\<close> and \<open>Apply\<close> is called on
  a store created in an empty directory, and whatever the operating system answers, no call
  panics; a call that reports success has changed the dictionary as asked, a call that reports
  an error has not changed it; and \<open>Get\<close>, \<open>Has\<close> and \<open>Len\<close> read that dictionary.
\<close>

theorem store_is_dictionary:
  assumes "created aes v dir prot s d" and "protector prot" and "list_all (\<lambda>(v, x). op_map x) xs"
  shows "\<exists>es s' d' M. store_run aes xs s d = Some (es, s', d') \<and> length es = length xs \<and>
    M = spec_run xs es Map.empty \<and> store_Len s' = card (dom M) \<and>
    (\<forall>k. ValidateReference k = None \<longrightarrow>
       store_Has k s' = (M k \<noteq> None) \<and>
       store_Get k s' = (case M k of
           Some c \<Rightarrow> Inr c
         | None \<Rightarrow> Inl (Newf CodeNotFound KeySecretNotFound ''secret store: no secret under that reference'')))"
proof -
  obtain key sid where c: "store_ok key sid s" "stored s = Map.empty"
    "disk_holds aes prot key sid (stored s) (view (dk_now d))"
    using created_ok [OF assms(1,2)] by metis
  obtain es s' d' where r: "store_run aes xs s d = Some (es, s', d')" "length es = length xs" "store_ok key sid s'"
    "stored s' = spec_run xs es (stored s)"
    using run_holds [OF c(1) assms(3) c(3)] by metis
  have "dom (stored s') = dom (map_of (item_list s'))" by (auto simp: stored_def values_of_def)
  also have "\<dots> = fst ` set (item_list s')" by (rule dom_map_of_conv_image_fst)
  finally have "dom (stored s') = set (map fst (item_list s'))" by simp
  then have "store_Len s' = card (dom (stored s'))"
    using store_items [OF r(3)] distinct_card [of "map fst (item_list s')"] by (simp add: store_Len_def)
  moreover have "store_Has k s' = (stored s' k \<noteq> None)" if "ValidateReference k = None" for k
    using that by (simp add: store_Has_def stored_def values_of_def)
  ultimately show ?thesis
    using r Get_stored [OF r(3)] c(2) by (intro exI conjI) auto
qed

text \<open>
  C7. Nothing is lost over a restart.  After any sequence of calls, with any failures of the
  operating system on the way, the directory can be opened again: \<open>Open\<close> succeeds without writing,
  and every reference has the value it had.  The vault is read back through decryption, JSON
  and base64.
\<close>

theorem reopened_store_is_the_same:
  assumes "created aes v dir prot s d" and "protector prot" and "list_all (\<lambda>(v, x). op_map x) xs"
    and "readable v'"
  shows "\<exists>es s' d' s''. store_run aes xs s d = Some (es, s', d') \<and>
    Open aes v' dir (Some prot) d' = (Inr s'', d') \<and> (\<forall>k. store_Get k s'' = store_Get k s')"
proof -
  obtain key sid where c: "store_ok key sid s" "disk_holds aes prot key sid (stored s) (view (dk_now d))" "TrimSpace dir \<noteq> []"
    using created_ok [OF assms(1,2)] by metis
  obtain es s' d' where r: "store_run aes xs s d = Some (es, s', d')" "store_ok key sid s'"
    "disk_holds aes prot key sid (stored s') (view (dk_now d'))"
    using run_holds [OF c(1) assms(3) c(2)] by metis
  obtain s'' where o: "Open aes v' dir (Some prot) d' = (Inr s'', d')" "store_ok key sid s''" "stored s'' = stored s'"
    using Open_existing [OF r(3) assms(4) c(3)] by metis
  have "store_Get k s'' = store_Get k s'" for k
  proof (cases "ValidateReference k")
    case None
    then show ?thesis using Get_stored [OF o(2)] Get_stored [OF r(2)] o(3) by simp
  qed (simp add: store_Get_def)
  with r(1) o(1) show ?thesis by blast
qed



text \<open>References made by the core are accepted by the store.\<close>

lemma hex_reference: "n < 16 \<Longrightarrow> reference_char (hex_char n)"
  by (auto simp: hex_char_def reference_char_def is_lower_def is_upper_def is_digit_def)

lemma EncodeToString_reference: "length (EncodeToString s) = 2 * length s \<and> list_all reference_char (EncodeToString s)"
proof (induction s)
  case (Cons c s)
  have "byte c div 16 < 16" using byte_bound [of c] by (simp add: less_mult_imp_div_less)
  with Cons show ?case by (simp add: EncodeToString_def hex_reference)
qed (simp add: EncodeToString_def)

lemma NewReference_valid: "NewReference v = Inr r \<Longrightarrow> ValidateReference r = None"
  using EncodeToString_reference
  by (auto simp: NewReference_def rand_Read_def ValidateReference_ok MaxReferenceLen_def reference_char_def
      is_lower_def is_digit_def split: sum.splits)

section \<open>A concrete store\<close>

definition fine_write :: WriteEnv where
  "fine_write = \<lparr>we_names = [''1''], we_create = None, we_chmod = None, we_write = None, we_sync = None,
     we_close = None, we_rename = None, we_flush = True, we_remove = True\<rparr>"

definition fine_env :: Env where
  "fine_env = \<lparr>ev_mkdir = None, ev_read = (\<lambda>_. None), ev_rand = (\<lambda>_. Inr (\<lambda>i. char_of (i + 1))),
     ev_file = (\<lambda>_. fine_write)\<rparr>"

definition full_disk :: Env where
  "full_disk = fine_env\<lparr>ev_file := (\<lambda>_. fine_write\<lparr>we_write := Some (3, TextE ''no space left on device'')\<rparr>)\<rparr>"

definition plain_aes :: aes where
  "plain_aes key w = w"

definition sample_store :: Store where
  "sample_store = fresh (map (\<lambda>i. char_of (i + 1)) [0..<32]) (map (\<lambda>i. char_of (i + 1)) [0..<16])"

definition sample_disk :: Disk where
  "sample_disk = snd (Open plain_aes fine_env ''data'' (Some FileProtector) \<lparr>dk_now = [], dk_past = []\<rparr>)"

definition sample_calls :: "(Env \<times> store_op) list" where
  "sample_calls =
     [(fine_env, OpPut ''s1_a'' ''first''), (full_disk, OpPut ''s1_a'' ''second''),
      (fine_env, OpApply [(''s1_b'', ''third'')] [''s1_a''])]"

lemma sample_created: "created plain_aes fine_env ''data'' FileProtector sample_store sample_disk"
proof -
  have "fst (Open plain_aes fine_env ''data'' (Some FileProtector) \<lparr>dk_now = [], dk_past = []\<rparr>) = Inr sample_store"
    by code_simp
  then have "Open plain_aes fine_env ''data'' (Some FileProtector) \<lparr>dk_now = [], dk_past = []\<rparr> = (Inr sample_store, sample_disk)"
    by (simp add: sample_disk_def prod_eq_iff)
  then show ?thesis unfolding created_def by (intro exI conjI) auto
qed

lemma sample_calls_ok:
  "list_all (\<lambda>(v, x). op_map x) sample_calls" "list_all (\<lambda>(v, x). op_map x \<and> we_flush (ev_file v vaultFile)) sample_calls"
  "readable fine_env" "we_flush (ev_file fine_env masterFile)"
  by (simp_all add: sample_calls_def full_disk_def fine_env_def fine_write_def readable_def)

theorem store_is_dictionary_witness:
  "\<exists>es s' d'. store_run plain_aes sample_calls sample_store sample_disk = Some (es, s', d') \<and> length es = 3 \<and>
     store_Len s' = card (dom (spec_run sample_calls es Map.empty))"
  using store_is_dictionary [OF sample_created file_key.protector_axioms sample_calls_ok(1)]
  by (auto simp: sample_calls_def)

theorem reopened_store_is_the_same_witness:
  "\<exists>es s' d' s''. store_run plain_aes sample_calls sample_store sample_disk = Some (es, s', d') \<and>
     Open plain_aes fine_env ''data'' (Some FileProtector) d' = (Inr s'', d') \<and>
     store_Get ''s1_b'' s'' = store_Get ''s1_b'' s'"
  using reopened_store_is_the_same [OF sample_created file_key.protector_axioms sample_calls_ok(1,3)] by blast



end
