(* ===== verification/GoText.thy ===== *)
theory GoText
  imports GoBase64 GoJSON
begin

text \<open>
  More of Go's \<open>strings\<close>, \<open>unicode/utf8\<close>, \<open>strconv\<close> and \<open>net\<close>, used by the code that reads what
  providers send: splitting into runes with their bytes, white space, lower case, and host
  and port.
\<close>

section \<open>Runes\<close>

function rune_pieces :: "string \<Rightarrow> (nat \<times> string) list" where
  "rune_pieces s =
     (if s = [] then []
      else (let (r, n) = DecodeRune s in (r, take n s) # rune_pieces (drop n s)))"
  by pat_completeness auto
termination
proof (relation "measure length")
  fix s :: string and x r n
  assume "s \<noteq> []" "x = DecodeRune s" "(r, n) = x"
  then have "0 < n" using DecodeRune_width_pos [of s] by (metis snd_conv)
  then show "(drop n s, s) \<in> measure length" using \<open>s \<noteq> []\<close> by simp
qed simp

declare rune_pieces.simps [simp del]

definition utf8_Valid :: "string \<Rightarrow> bool" where
  "utf8_Valid s \<longleftrightarrow> list_all (\<lambda>(r, b). \<not> (r = rune_error \<and> length b = 1)) (rune_pieces s)"

definition IsSpace :: "nat \<Rightarrow> bool" where
  "IsSpace r \<longleftrightarrow> r \<in> {9, 10, 11, 12, 13, 32, 133, 160, 5760, 8232, 8233, 8239, 8287, 12288} \<or> (8192 \<le> r \<and> r \<le> 8202)"

text \<open>\<open>strings.Map\<close> with a function that only drops runes; invalid bytes become U+FFFD.\<close>

definition keep_runes :: "(nat \<Rightarrow> bool) \<Rightarrow> string \<Rightarrow> string" where
  "keep_runes P s = concat (map encode_rune (filter P (runes s)))"

text \<open>
  \<open>strings.ToLower\<close> as far as a comparison with ASCII text can tell: besides the ASCII letters only
  U+0130 and U+212A have an ASCII letter as their lower case.
\<close>

definition lower_rune :: "nat \<times> string \<Rightarrow> string" where
  "lower_rune p = (if fst p = 304 then ''i'' else if fst p = 8490 then ''k'' else map ascii_lower (snd p))"

definition ToLower :: "string \<Rightarrow> string" where
  "ToLower s = concat (map lower_rune (rune_pieces s))"

text \<open>\<open>strings.Fields\<close>.\<close>

fun collect_fields :: "string \<Rightarrow> (nat \<times> string) list \<Rightarrow> string list" where
  "collect_fields word [] = (if word = [] then [] else [word])"
| "collect_fields word ((r, b) # ps) =
     (if IsSpace r then (if word = [] then [] else [word]) @ collect_fields [] ps
      else collect_fields (word @ b) ps)"

definition Fields :: "string \<Rightarrow> string list" where
  "Fields s = collect_fields [] (rune_pieces s)"

section \<open>Values\<close>

definition ParseUint64 :: "string \<Rightarrow> nat option" where
  "ParseUint64 s = (if s \<noteq> [] \<and> list_all is_digit s \<and> digits_value 0 s < 2 ^ 64 then Some (digits_value 0 s) else None)"

definition ParseBool_true :: "string \<Rightarrow> bool" where
  "ParseBool_true s \<longleftrightarrow> s \<in> {''1'', ''t'', ''T'', ''TRUE'', ''true'', ''True''}"

text \<open>The four decoders that are tried in turn: standard and URL alphabet, padded first.\<close>

definition b64_variants :: "(bool \<times> bool) list" where
  "b64_variants = [(False, True), (False, False), (True, True), (True, False)]"

fun first_decoded :: "(bool \<times> bool) list \<Rightarrow> string \<Rightarrow> string option" where
  "first_decoded [] s = None"
| "first_decoded ((url, pad) # vs) s =
     (case DecodeString url pad s of
        Some out \<Rightarrow> if utf8_Valid out then Some out else first_decoded vs s
      | None \<Rightarrow> first_decoded vs s)"

section \<open>Host and port\<close>

text \<open>\<open>net.SplitHostPort\<close>; the error is its reason.\<close>

definition SplitHostPort :: "string \<Rightarrow> string + string \<times> string" where
  "SplitHostPort hp =
     (case cut_last (\<lambda>c. c = CHR '':'') hp of
        None \<Rightarrow> Inl ''missing port in address''
      | Some (before_colon, port) \<Rightarrow>
          if HasPrefix hp ''['' then
            (case cut_first (\<lambda>c. c = CHR '']'') hp of
               None \<Rightarrow> Inl (''missing '' @ [CHR 0x27] @ '']'' @ [CHR 0x27] @ '' in address'')
             | Some (inside, behind) \<Rightarrow>
                 if behind = [] then Inl ''missing port in address''
                 else if inside @ '']'' \<noteq> before_colon then
                   Inl (if HasPrefix behind '':'' then ''too many colons in address'' else ''missing port in address'')
                 else if List.member (drop 1 hp) (CHR ''['') then Inl (''unexpected '' @ [CHR 0x27, CHR ''['', CHR 0x27] @ '' in address'')
                 else if List.member behind (CHR '']'') then Inl (''unexpected '' @ [CHR 0x27, CHR '']'', CHR 0x27] @ '' in address'')
                 else Inr (drop 1 inside, port))
          else if List.member before_colon (CHR '':'') then Inl ''too many colons in address''
          else if List.member hp (CHR ''['') then Inl (''unexpected '' @ [CHR 0x27, CHR ''['', CHR 0x27] @ '' in address'')
          else if List.member hp (CHR '']'') then Inl (''unexpected '' @ [CHR 0x27, CHR '']'', CHR 0x27] @ '' in address'')
          else Inr (before_colon, port))"

end
