(* ===== verification/SubscriptionInfo.thy ===== *)
theory SubscriptionInfo
  imports GoText "HOL-Library.AList"
begin

text \<open>
  What a provider says about a subscription, \<open>subscription/info.go\<close>: headers of the response and
  leading comment lines of the body, with \<open>mime.ParseMediaType\<close> as far as the file name needs it.
\<close>

section \<open>Media types\<close>

definition isTSpecial :: "char \<Rightarrow> bool" where
  "isTSpecial c = List.member (''()<>@,;:/[]?='' @ [CHR 0x5C, CHR 0x22]) c"

definition isTokenChar :: "char \<Rightarrow> bool" where
  "isTokenChar c \<longleftrightarrow> 32 < byte c \<and> byte c < 127 \<and> \<not> isTSpecial c"

definition trim_left :: "string \<Rightarrow> string" where
  "trim_left s = strip_front space_encodings s"

text \<open>A quoted value behind its opening quote; \<open>None\<close> when the quote is not closed.\<close>

fun quoted_value :: "string \<Rightarrow> (string \<times> string) option" where
  "quoted_value [] = None"
| "quoted_value (c # cs) =
     (if c = CHR 0x22 then Some ([], cs)
      else
        (case cs of
           d # ds \<Rightarrow>
             if c = CHR 0x5C \<and> isTSpecial d then map_option (\<lambda>(v, r). (d # v, r)) (quoted_value ds)
             else if c = CHR 0x0D \<or> c = CHR 0x0A then None
             else map_option (\<lambda>(v, r). (c # v, r)) (quoted_value cs)
         | [] \<Rightarrow> None))"

definition consumeValue :: "string \<Rightarrow> string \<times> string" where
  "consumeValue v =
     (if HasPrefix v [CHR 0x22] then (case quoted_value (drop 1 v) of Some r \<Rightarrow> r | None \<Rightarrow> ([], v))
      else (takeWhile isTokenChar v, dropWhile isTokenChar v))"

text \<open>One parameter: its name, its value and what follows, or \<open>None\<close> when there is none.\<close>

definition consumeMediaParam :: "string \<Rightarrow> (string \<times> string \<times> string) option" where
  "consumeMediaParam v =
     (let r0 = trim_left v; r1 = trim_left (drop 1 r0);
          param = takeWhile isTokenChar r1; r2 = trim_left (dropWhile isTokenChar r1);
          r3 = trim_left (drop 1 r2); (value', r4) = consumeValue r3
      in if \<not> HasPrefix r0 '';'' \<or> param = [] \<or> \<not> HasPrefix r2 ''='' \<or> (value' = [] \<and> r4 = r3) then None
         else Some (ToLower param, value', r4))"

text \<open>All parameters; every one consumes at least its semicolon, so the length is enough fuel.\<close>

fun media_params :: "nat \<Rightarrow> string \<Rightarrow> (string \<times> string) list option" where
  "media_params 0 v = (if trim_left v = [] then Some [] else None)"
| "media_params (Suc n) v =
     (if trim_left v = [] then Some []
      else
        (case consumeMediaParam (trim_left v) of
           None \<Rightarrow> if TrimSpace (trim_left v) = '';'' then Some [] else None
         | Some (k, x, rest) \<Rightarrow> map_option ((#) (k, x)) (media_params n rest)))"

definition decode2231Enc :: "string \<Rightarrow> string option" where
  "decode2231Enc v =
     (case cut_first (\<lambda>c. c = CHR 0x27) v of
        None \<Rightarrow> None
      | Some (charset, r) \<Rightarrow>
          (case cut_first (\<lambda>c. c = CHR 0x27) r of
             None \<Rightarrow> None
           | Some (_, text') \<Rightarrow>
               if ToLower charset \<in> {''us-ascii'', ''utf-8''} then unescape EncodePath text' else None))"

fun continued :: "nat \<Rightarrow> nat \<Rightarrow> (string \<times> string) list \<Rightarrow> string list" where
  "continued 0 n ps = []"
| "continued (Suc fuel) n ps =
     (let part = ''filename*'' @ Itoa (int n) in
      case map_of ps part of
        Some v \<Rightarrow> v # continued fuel (Suc n) ps
      | None \<Rightarrow>
          (case map_of ps (part @ ''*'') of
             None \<Rightarrow> []
           | Some v \<Rightarrow>
               (case (if n = 0 then decode2231Enc v else unescape EncodePath v) of Some d \<Rightarrow> d | None \<Rightarrow> [])
               # continued fuel (Suc n) ps))"

definition media_filename :: "string \<Rightarrow> string option" where
  "media_filename v =
     (let base = takeWhile (\<lambda>c. c \<noteq> CHR '';'') v;
          kind = TrimSpace (ToLower base);
          sub = drop 1 (dropWhile isTokenChar kind)
      in if \<not> isTokenChar (hd (kind @ '';'')) then None
         else if dropWhile isTokenChar kind \<noteq> [] \<and>
           (\<not> HasPrefix (dropWhile isTokenChar kind) ''/'' \<or> sub = [] \<or> \<not> list_all isTokenChar sub) then None
         else
           (case media_params (length v) (drop (length base) v) of
              None \<Rightarrow> None
            | Some ps \<Rightarrow>
                if list_ex (\<lambda>(k, x). map_of ps k \<noteq> Some x) ps then None
                else
                  (let plain = (case map_of ps ''filename'' of Some x \<Rightarrow> x | None \<Rightarrow> []);
                       pieces = continued (length ps) 0 ps
                   in case map_of ps ''filename*'' of
                        Some x \<Rightarrow> Some (case decode2231Enc x of Some d \<Rightarrow> d | None \<Rightarrow> plain)
                      | None \<Rightarrow> Some (if pieces = [] then plain else concat pieces))))"

section \<open>Fields\<close>

definition maxTitleRunes :: nat where "maxTitleRunes = 128"
definition maxAnnounceRunes :: nat where "maxAnnounceRunes = 2048"
definition maxURLBytes :: nat where "maxURLBytes = 2048"
definition maxIntervalHours :: int where "maxIntervalHours = 24 * 365"
definition bodyHeaderLines :: nat where "bodyHeaderLines = 10"

record Info =
  in_Title :: string
  in_UpdateInterval :: Duration
  in_HasUsage :: bool
  in_Upload :: nat
  in_Download :: nat
  in_Total :: nat
  in_Expire :: "Time option"
  in_WebPageURL :: string
  in_SupportURL :: string
  in_Announce :: string

text \<open>The \<open>range\<close> loop of \<open>cleanText\<close>, with the runes it may still write.\<close>

fun clean_runes :: "nat \<Rightarrow> bool \<Rightarrow> nat list \<Rightarrow> nat list" where
  "clean_runes n multiline [] = []"
| "clean_runes 0 multiline rs = []"
| "clean_runes (Suc n) multiline (r # rs) =
     (if IsControl r \<and> \<not> (multiline \<and> r = 10) then clean_runes (Suc n) multiline rs
      else r # clean_runes n multiline rs)"

definition cleanText :: "string \<Rightarrow> nat \<Rightarrow> bool \<Rightarrow> string" where
  "cleanText v limit multiline = TrimSpace (concat (map encode_rune (clean_runes limit multiline (runes (TrimSpace v)))))"

definition cleanURL :: "string \<Rightarrow> string" where
  "cleanURL v0 =
     (let v = TrimSpace v0 in
      if v = [] \<or> length v > maxURLBytes then []
      else
        (case url_Parse v of
           None \<Rightarrow> []
         | Some u \<Rightarrow>
             if ToLower (u_Scheme u) \<in> {''https'', ''http''} then (if u_Host u = [] then [] else url_String u)
             else if ToLower (u_Scheme u) = ''tg'' then url_String u
             else []))"

definition dispositionName :: "string \<Rightarrow> string" where
  "dispositionName v =
     (if v = [] then []
      else
        (case media_filename v of
           None \<Rightarrow> []
         | Some name \<Rightarrow>
             (case cut_last (\<lambda>c. c = CHR ''.'') name of
                Some (a, _) \<Rightarrow> if a \<noteq> [] then a else name
              | None \<Rightarrow> name)))"

definition decodeMarked :: "string \<Rightarrow> string" where
  "decodeMarked v =
     (if HasPrefix v ''base64:'' then
        (case first_decoded b64_variants (TrimSpace (drop 7 v)) of Some out \<Rightarrow> out | None \<Rightarrow> [])
      else v)"

definition decodeBody :: "string \<Rightarrow> string option" where
  "decodeBody body = first_decoded b64_variants (keep_runes (\<lambda>r. \<not> IsSpace r) body)"

definition body_line :: "string \<Rightarrow> (string \<times> string) option" where
  "body_line line0 =
     (let line = TrimSpace line0;
          rest = (if HasPrefix line ''#'' then Some (drop 1 line)
                  else if HasPrefix line ''//'' then Some (drop 2 line) else None)
      in case rest of
           None \<Rightarrow> None
         | Some r \<Rightarrow>
             (case cut_first (\<lambda>c. c = CHR '':'') r of
                None \<Rightarrow> None
              | Some (k, x) \<Rightarrow> Some (ToLower (TrimSpace k), TrimSpace x)))"

definition bodyHeaders :: "string \<Rightarrow> string go_map" where
  "bodyHeaders body =
     (let t = (case decodeBody body of Some d \<Rightarrow> d | None \<Rightarrow> body)
      in fold (\<lambda>(k, x) m. AList.update k x m) (List.map_filter body_line (take bodyHeaderLines (Split t (CHR 0x0A)))) [])"

definition usage_fields :: "string \<Rightarrow> nat go_map" where
  "usage_fields raw =
     fold (\<lambda>part m.
        case cut_first (\<lambda>c. c = CHR ''='') part of
          None \<Rightarrow> m
        | Some (k, x) \<Rightarrow>
            (case ParseUint64 (TrimSpace x) of None \<Rightarrow> m | Some n \<Rightarrow> AList.update (ToLower (TrimSpace k)) n m))
       (Split raw (CHR '';'')) []"

text \<open>\<open>parseUsage\<close>; instants are nanoseconds since 1970.\<close>

definition parseUsage :: "string \<Rightarrow> bool \<times> nat \<times> nat \<times> nat \<times> Time option" where
  "parseUsage raw =
     (let fields = usage_fields raw;
          val = (\<lambda>k. case map_of fields k of Some n \<Rightarrow> n | None \<Rightarrow> 0)
      in if map_of fields ''upload'' = None \<and> map_of fields ''download'' = None then (False, 0, 0, 0, None)
         else (True, val ''upload'', val ''download'', val ''total'',
               (if 0 < val ''expire'' \<and> val ''expire'' < 2 ^ 40 then Some (int (val ''expire'') * Second) else None)))"

definition infoKeys :: "string list" where
  "infoKeys = [''profile-title'', ''profile-update-interval'', ''subscription-userinfo'',
     ''profile-web-page-url'', ''support-url'', ''announce'', ''content-disposition'']"

definition header_Get :: "string go_map \<Rightarrow> string \<Rightarrow> string" where
  "header_Get h key =
     (case find (\<lambda>(k, _). map ascii_lower k = map ascii_lower key) h of Some (_, v) \<Rightarrow> v | None \<Rightarrow> [])"

definition info_values :: "string go_map \<Rightarrow> string \<Rightarrow> string go_map" where
  "info_values header body =
     fold (\<lambda>key m. let v = TrimSpace (header_Get header key) in if v \<noteq> [] then AList.update key v m else m)
       infoKeys (bodyHeaders body)"

definition parseInfo :: "string go_map \<Rightarrow> string \<Rightarrow> Info" where
  "parseInfo header body =
     (let values = info_values header body;
          val = (\<lambda>k. case map_of values k of Some v \<Rightarrow> v | None \<Rightarrow> []);
          named = cleanText (decodeMarked (val ''profile-title'')) maxTitleRunes False;
          (usage, up, down, total, expire) =
            (if val ''subscription-userinfo'' = [] then (False, 0, 0, 0, None) else parseUsage (val ''subscription-userinfo''))
      in \<lparr>in_Title = (if named = [] then cleanText (dispositionName (val ''content-disposition'')) maxTitleRunes False else named),
          in_UpdateInterval = (case Atoi (val ''profile-update-interval'') of
             Some hours \<Rightarrow> if 0 < hours \<and> hours \<le> maxIntervalHours then hours * 60 * Minute else 0
           | None \<Rightarrow> 0),
          in_HasUsage = usage, in_Upload = up, in_Download = down, in_Total = total, in_Expire = expire,
          in_WebPageURL = cleanURL (val ''profile-web-page-url''),
          in_SupportURL = cleanURL (val ''support-url''),
          in_Announce = cleanText (decodeMarked (val ''announce'')) maxAnnounceRunes True\<rparr>)"

end
