(* ===== verification/Subscription.thy ===== *)
theory Subscription
  imports SubscriptionInfo ErrClassify
begin

text \<open>
  Retrieval of subscriptions, \<open>subscription/subscription.go\<close>.  The HTTP client and the resolver are
  operations over an arbitrary world; a retrieval also returns the
  requests it made, in order: whether private addresses could be dialled, the URL and the agent.
\<close>

definition DefaultTimeout :: Duration where "DefaultTimeout = 30 * Second"
definition MaxRedirects :: int where "MaxRedirects = 5"
definition MaxBodyBytes :: int where "MaxBodyBytes = 16777216"
definition UserAgent :: string where "UserAgent = ''sora-core/1 (+https://github.com/levvs-one/sora)''"
definition MaxUserAgent :: nat where "MaxUserAgent = 256"

record FetchLimits =
  fo_Timeout :: Duration
  fo_MaxRedirects :: int
  fo_MaxBodyBytes :: int

text \<open>\<open>New\<close> fills in the defaults.\<close>

definition fetcher_New :: "FetchLimits \<Rightarrow> FetchLimits" where
  "fetcher_New o' =
     \<lparr>fo_Timeout = (if fo_Timeout o' \<le> 0 then DefaultTimeout else fo_Timeout o'),
      fo_MaxRedirects = (if fo_MaxRedirects o' \<le> 0 then MaxRedirects else fo_MaxRedirects o'),
      fo_MaxBodyBytes = (if fo_MaxBodyBytes o' \<le> 0 then MaxBodyBytes else fo_MaxBodyBytes o')\<rparr>"

section \<open>What may be asked for\<close>

definition scheme_error :: "Code \<Rightarrow> string \<Rightarrow> goerr" where
  "scheme_error code what = Newf code KeySubscriptionScheme (''subscription: '' @ what)"

definition checked_reference :: "string \<Rightarrow> goerr + url" where
  "checked_reference reference =
     (let trimmed = TrimSpace reference in
      if trimmed = [] then Inl (scheme_error CodeInvalidArgument ''the reference is empty'')
      else
        (case url_Parse trimmed of
           None \<Rightarrow> Inl (scheme_error CodeInvalidArgument ''the reference is not a url'')
         | Some parsed \<Rightarrow>
             if u_User parsed \<noteq> None then
               Inl (scheme_error CodeInvalidArgument ''the reference carries credentials of its own'')
             else if ToLower (u_Scheme parsed) = ''https'' then
               (if u_Host parsed = [] then Inl (scheme_error CodeInvalidArgument ''the reference has no host'')
                else Inr parsed)
             else if ToLower (u_Scheme parsed) = ''http'' then
               Inl (scheme_error CodeUnsupported ''the reference uses http, which would send the token in clear'')
             else Inl (scheme_error CodeUnsupported ''the reference is not an http or https url'')))"

definition UserAgentFor :: "string \<Rightarrow> goerr + string" where
  "UserAgentFor asked =
     (let trimmed = TrimSpace asked in
      if trimmed = [] then Inr UserAgent
      else if length trimmed > MaxUserAgent then
        Inl (scheme_error CodeInvalidArgument (''the User-Agent is longer than '' @ Itoa (int MaxUserAgent) @ '' bytes''))
      else if list_ex (\<lambda>r. r < 32 \<or> r > 126) (runes trimmed) then
        Inl (scheme_error CodeInvalidArgument ''the User-Agent may hold printable ASCII only'')
      else Inr trimmed)"

section \<open>Where connections may go\<close>

definition publicAddr :: "addr \<Rightarrow> bool" where
  "publicAddr addr = (let a = Unmap addr in IsGlobalUnicast a \<and> \<not> IsPrivate a)"

definition checkDial :: "bool \<Rightarrow> string \<Rightarrow> goerr option" where
  "checkDial allowPrivate address =
     (case SplitHostPort address of
        Inl why \<Rightarrow> Some (TextE (''address '' @ address @ '': '' @ why))
      | Inr (host, _) \<Rightarrow>
          (case ParseAddr host of
             None \<Rightarrow> Some (TextE (''ParseAddr('' @ Quote host @ '')''))
           | Some addr \<Rightarrow>
               if allowPrivate \<or> publicAddr addr then None
               else Some (Newf CodePermissionDenied KeySubscriptionRedirect
                 ''subscription: the request was led to an address outside the internet'')))"

section \<open>Retrieval\<close>

text \<open>A response: the body may end in a failure after some bytes.\<close>

type_synonym request = "bool \<times> string \<times> string"

record Response =
  rs_StatusCode :: int
  rs_Header :: "string go_map"
  rs_ContentLength :: int
  rs_Body :: string
  rs_failure :: "goerr option"

text \<open>
  \<open>nt_Do\<close> is one request of the HTTP client: whether private addresses may be dialled, the URL and the
  \<open>User-Agent\<close>.  The client follows no redirect itself.
\<close>

record 'w Net =
  nt_LookupNetIP :: "string \<Rightarrow> 'w \<Rightarrow> (goerr + addr list) \<times> 'w"
  nt_Do :: "bool \<Rightarrow> string \<Rightarrow> string \<Rightarrow> 'w \<Rightarrow> (goerr + Response) \<times> 'w"

definition isPrivateHost :: "'w Net \<Rightarrow> string \<Rightarrow> 'w \<Rightarrow> bool \<times> 'w" where
  "isPrivateHost N host w =
     (case ParseAddr host of
        Some addr \<Rightarrow> (\<not> publicAddr addr, w)
      | None \<Rightarrow>
          (case nt_LookupNetIP N host w of
             (Inl e, w1) \<Rightarrow> (False, w1)
           | (Inr addrs, w1) \<Rightarrow> (list_ex (\<lambda>a. \<not> publicAddr a) addrs, w1)))"

definition redirectTarget :: "Response \<Rightarrow> string" where
  "redirectTarget r =
     (if rs_StatusCode r \<in> {301, 302, 303, 307, 308} then header_Get (rs_Header r) ''Location'' else [])"

definition status_failure :: "int \<Rightarrow> goerr" where
  "status_failure code =
     (let failure = err_Newf CodeUnavailable KeySubscriptionStatus (''subscription: the provider answered '' @ Itoa code)
      in catalog_err (if code \<ge> 500 \<or> code = 429 then the (WithRetry 0 (Some failure)) else failure))"

text \<open>Reading at most one byte more than the limit; a failure behind that is not seen.\<close>

definition read_body :: "int \<Rightarrow> Response \<Rightarrow> goerr + string" where
  "read_body maxBody r =
     (case rs_failure r of
        Some e \<Rightarrow> if int (length (rs_Body r)) \<le> maxBody then Inl (catalog_err (err_From e))
                  else Inr (take (nat (maxBody + 1)) (rs_Body r))
      | None \<Rightarrow> Inr (take (nat (maxBody + 1)) (rs_Body r)))"

definition too_large :: "string \<Rightarrow> goerr" where
  "too_large what = Newf CodeResourceExhausted KeySubscriptionTooLarge (''subscription: '' @ what)"

datatype hop_result = HopFailed goerr | HopMoved string | HopBody string "string go_map"

definition take_response :: "int \<Rightarrow> Response \<Rightarrow> hop_result" where
  "take_response maxBody r =
     (if redirectTarget r \<noteq> [] then HopMoved (redirectTarget r)
      else if rs_StatusCode r \<noteq> 200 then HopFailed (status_failure (rs_StatusCode r))
      else if rs_ContentLength r > maxBody then
        HopFailed (too_large (''the provider announced '' @ Itoa (rs_ContentLength r) @ '' bytes, the limit is '' @ Itoa maxBody))
      else
        (case read_body maxBody r of
           Inl e \<Rightarrow> HopFailed e
         | Inr body \<Rightarrow>
             if int (length body) > maxBody then
               HopFailed (too_large (''the body is larger than the limit of '' @ Itoa maxBody @ '' bytes''))
             else if body = [] then
               HopFailed (Newf CodeInvalidArgument KeySubscriptionEmpty ''subscription: the provider answered with an empty body'')
             else HopBody body (rs_Header r)))"

definition hop :: "'w Net \<Rightarrow> int \<Rightarrow> bool \<Rightarrow> url \<Rightarrow> string \<Rightarrow> 'w \<Rightarrow> hop_result \<times> request list \<times> 'w" where
  "hop N maxBody private target agent w =
     (if url_Parse (url_String target) = None then
        (HopFailed (scheme_error CodeInvalidArgument ''the reference is not a url this client can request''), [], w)
      else
        (case nt_Do N private (url_String target) agent w of
           (Inl e, w1) \<Rightarrow> (HopFailed (catalog_err (err_From e)), [(private, url_String target, agent)], w1)
         | (Inr r, w1) \<Rightarrow> (take_response maxBody r, [(private, url_String target, agent)], w1)))"

text \<open>The loop of \<open>Fetch\<close>; \<open>n\<close> counts the hops that were made.\<close>

function fetch_loop :: "'w Net \<Rightarrow> FetchLimits \<Rightarrow> bool \<Rightarrow> string \<Rightarrow> int \<Rightarrow> url \<Rightarrow> 'w
    \<Rightarrow> (goerr + string \<times> Info) \<times> request list \<times> 'w" where
  "fetch_loop N f private agent n target w =
     (if n > fo_MaxRedirects f then
        (Inl (Newf CodeInvalidArgument KeySubscriptionRedirect
           (''subscription: the provider led the request more than '' @ Itoa (fo_MaxRedirects f) @ '' times'')), [], w)
      else
        (case hop N (fo_MaxBodyBytes f) private target agent w of
           (HopFailed e, reqs, w1) \<Rightarrow> (Inl e, reqs, w1)
         | (HopBody body header, reqs, w1) \<Rightarrow> (Inr (body, parseInfo header body), reqs, w1)
         | (HopMoved location, reqs, w1) \<Rightarrow>
             (case url_Parse location of
                None \<Rightarrow>
                  (Inl (Newf CodeInvalidArgument KeySubscriptionRedirect
                     ''subscription: the provider sent a redirect that is not a location''), reqs, w1)
              | Some moved \<Rightarrow>
                  (case checked_reference (url_String (ResolveReference target moved)) of
                     Inl e \<Rightarrow> (Inl e, reqs, w1)
                   | Inr target' \<Rightarrow>
                       (let (r, more, w2) = fetch_loop N f private agent (n + 1) target' w1 in (r, reqs @ more, w2))))))"
  by pat_completeness auto
termination
  by (relation "measure (\<lambda>(N, f, private, agent, n, target, w). nat (fo_MaxRedirects f + 1 - n))") auto

declare fetch_loop.simps [simp del]

definition Fetch :: "'w Net \<Rightarrow> FetchLimits \<Rightarrow> string \<Rightarrow> string \<Rightarrow> 'w
    \<Rightarrow> (goerr + string \<times> Info) \<times> request list \<times> 'w" where
  "Fetch N f reference asked w =
     (case UserAgentFor asked of
        Inl e \<Rightarrow> (Inl e, [], w)
      | Inr agent \<Rightarrow>
          (case checked_reference reference of
             Inl e \<Rightarrow> (Inl e, [], w)
           | Inr target \<Rightarrow>
               (let (private, w1) = isPrivateHost N (url_Hostname target) w
                in fetch_loop N f private agent 0 target w1)))"

end
