(* ===== verification/TextFacts.thy ===== *)
theory TextFacts
  imports GoText PlanSpec
begin

text \<open>
  Facts on runes, trimming, lower case and parsed URLs that the theories on provider data share.
\<close>

section \<open>Runes and trimming\<close>

lemma rune_pieces_ascii: "list_all (\<lambda>c. byte c < 128) s \<Longrightarrow> rune_pieces s = map (\<lambda>c. (byte c, [c])) s"
proof (induction s)
  case (Cons c s)
  then show ?case by (subst rune_pieces.simps) (simp add: DecodeRune_ascii del: DecodeRune.simps)
qed (simp add: rune_pieces.simps)

lemma ToLower_ascii: "list_all (\<lambda>c. byte c < 128) s \<Longrightarrow> ToLower s = map ascii_lower s"
proof -
  assume a: "list_all (\<lambda>c. byte c < 128) s"
  then have "map lower_rune (rune_pieces s) = map (\<lambda>c. [ascii_lower c]) s"
    by (auto simp: rune_pieces_ascii list_all_iff lower_rune_def)
  then show ?thesis by (simp add: ToLower_def)
qed

lemma ascii_lower_twice: "ascii_lower (ascii_lower c) = ascii_lower c"
  by (auto simp: ascii_lower_def is_upper_def)

lemma DecodeRune_bound: "fst (DecodeRune s) < 4194304"
proof (cases s)
  case (Cons c cs)
  have "byte c < 256" by (rule byte_bound)
  then show ?thesis using Cons by (auto simp: Let_def rune_error_def is_cont_def split: list.splits)
qed (simp add: rune_error_def)

lemma runes_bound: "r \<in> set (runes s) \<Longrightarrow> r < 4194304"
proof (induction s rule: runes.induct)
  case (1 s)
  then show ?case by (subst (asm) (2) runes.simps) (auto simp: DecodeRune_bound split: if_splits)
qed

lemma encode_rune_chars: "r < 4194304 \<Longrightarrow> c \<in> set (encode_rune r) \<Longrightarrow> (r < 128 \<and> byte c = r) \<or> 128 \<le> byte c"
proof -
  assume r: "r < 4194304" and c: "c \<in> set (encode_rune r)"
  have "r div 262144 < 16" using r by (simp add: less_mult_imp_div_less)
  moreover have "r < 2048 \<Longrightarrow> r div 64 < 32" "r < 65536 \<Longrightarrow> r div 4096 < 16" by (simp_all add: less_mult_imp_div_less)
  moreover have "x mod 64 < 64" for x :: nat by simp
  ultimately show ?thesis using c by (auto simp: encode_rune_def split: if_splits)
qed

lemma encode_rune_length: "length (encode_rune r) \<le> 4"
  by (simp add: encode_rune_def)

lemma strip_front_length: "length (strip_front es s) \<le> length s"
proof (induction es s rule: strip_front.induct)
  case (1 es s)
  then show ?case by (subst strip_front.simps) (fastforce split: option.splits)
qed

lemma TrimSpace_length: "length (TrimSpace s) \<le> length s"
  unfolding TrimSpace_def length_rev by (rule order_trans [OF strip_front_length]) (simp add: strip_front_length)

section \<open>Parsed URLs\<close>

text \<open>The scheme of a parsed URL is in lower case, and a URL with a host is not opaque.\<close>

lemma setPath_keeps: "setPath p u = Some v \<Longrightarrow>
  u_Scheme v = u_Scheme u \<and> u_Host v = u_Host u \<and> u_Opaque v = u_Opaque u \<and> u_User v = u_User u"
  by (auto simp: setPath_def)

lemma setFragment_keeps: "setFragment p u = Some v \<Longrightarrow>
  u_Scheme v = u_Scheme u \<and> u_Host v = u_Host u \<and> u_Opaque v = u_Opaque u \<and> u_User v = u_User u"
  by (auto simp: setFragment_def)

lemma getScheme_chars: "getScheme raw = Some (sch, rest) \<Longrightarrow> list_all is_scheme_char sch"
  by (auto simp: getScheme_def Let_def list_all_iff dest: set_takeWhileD split: list.splits if_splits)

lemma parse_no_fragment_facts:
  assumes "parse_no_fragment raw = Some u"
  shows "\<exists>sch. list_all is_scheme_char sch \<and> u_Scheme u = map ascii_lower sch" "u_Host u \<noteq> [] \<longrightarrow> u_Opaque u = []"
proof -
  have "(\<exists>sch. list_all is_scheme_char sch \<and> u_Scheme u = map ascii_lower sch) \<and> (u_Host u \<noteq> [] \<longrightarrow> u_Opaque u = [])"
  proof (cases "raw = ''*''")
    case True
    with assms show ?thesis by (auto simp: parse_no_fragment_def empty_url_def intro!: exI [of _ "[]"] split: if_splits)
  next
    case False
    with assms obtain sch rest0 where g: "getScheme raw = Some (sch, rest0)"
      by (auto simp: parse_no_fragment_def split: if_splits option.splits)
    obtain rest force query where q: "cut_query rest0 = (rest, force, query)" by (cases "cut_query rest0")
    from assms False g q have "u_Scheme u = map ascii_lower sch \<and> (u_Host u \<noteq> [] \<longrightarrow> u_Opaque u = [])"
      unfolding parse_no_fragment_def
      by (auto simp: Let_def empty_url_def dest!: setPath_keeps split: if_splits option.splits)
    with getScheme_chars [OF g] show ?thesis by blast
  qed
  then show "\<exists>sch. list_all is_scheme_char sch \<and> u_Scheme u = map ascii_lower sch" "u_Host u \<noteq> [] \<longrightarrow> u_Opaque u = []"
    by blast+
qed

lemma url_Parse_facts:
  assumes "url_Parse raw = Some u"
  shows "ToLower (u_Scheme u) = u_Scheme u" "u_Host u \<noteq> [] \<Longrightarrow> u_Opaque u = []"
proof -
  from assms obtain r v where v: "parse_no_fragment r = Some v" "u_Scheme u = u_Scheme v" "u_Host u = u_Host v" "u_Opaque u = u_Opaque v"
    by (auto simp: url_Parse_def dest!: setFragment_keeps split: option.splits if_splits)
  obtain sch where s: "list_all is_scheme_char sch" "u_Scheme v = map ascii_lower sch"
    using parse_no_fragment_facts(1) [OF v(1)] by blast
  have "list_all (\<lambda>c. byte c < 128) (map ascii_lower sch)"
    using s(1) by (auto simp: list_all_iff is_scheme_char_def is_alnum_def ascii_lower_def is_digit_def is_lower_def is_upper_def)
  then have "ToLower (map ascii_lower sch) = map ascii_lower sch"
    by (simp add: ToLower_ascii ascii_lower_twice)
  then show "ToLower (u_Scheme u) = u_Scheme u" by (simp add: v(2) s(2))
  show "u_Host u \<noteq> [] \<Longrightarrow> u_Opaque u = []" using parse_no_fragment_facts(2) [OF v(1)] by (simp add: v)
qed

end
