(* ===== verification/SubscriptionSpec.thy ===== *)
theory SubscriptionSpec
  imports Subscription TextFacts
begin

text \<open>
  What the retrieval of subscriptions guarantees whatever the provider answers: it ends, it never
  leaves HTTPS, and what it hands on for display is bounded.
\<close>

section \<open>Requests\<close>

text \<open>
  An HTTPS URL in text: the authority is not empty and holds no user information, and a path, query or
  fragment may follow.
\<close>

definition https_text :: "string \<Rightarrow> bool" where
  "https_text t \<longleftrightarrow>
     (\<exists>h rest. t = ''https://'' @ h @ rest \<and> h \<noteq> [] \<and> list_all (\<lambda>c. \<not> List.member ''@/?#'' c) h \<and>
        (rest = [] \<or> hd rest \<in> set ''/?#''))"

definition header_safe :: "string \<Rightarrow> bool" where
  "header_safe v \<longleftrightarrow> v \<noteq> [] \<and> length v \<le> MaxUserAgent \<and> list_all (\<lambda>c. 32 \<le> byte c \<and> byte c \<le> 126) v"

lemma escape_host_chars: "list_all (\<lambda>c. \<not> List.member ''@/?#'' c) (escape EncodeHost h)"
proof -
  have hex: "\<not> List.member ''@/?#'' (upper_hex d)" if "d < 16" for d
  proof -
    have "byte (upper_hex d) \<in> {48..57} \<union> {65..70}" using that by (auto simp: upper_hex_def)
    then show ?thesis by auto
  qed
  have "\<not> List.member ''@/?#'' x" if "x \<in> set (escape_byte EncodeHost c)" for x c
  proof (cases "should_escape EncodeHost c")
    case True
    then have "x \<in> {CHR ''%'', upper_hex (byte c div 16), upper_hex (byte c mod 16)}"
      using that by (simp add: escape_byte_def)
    moreover have "byte c div 16 < 16" using byte_bound [of c] by (simp add: less_mult_imp_div_less)
    ultimately show ?thesis using hex [of "byte c div 16"] hex [of "byte c mod 16"] by auto
  next
    case False
    then have "x = c" using that by (simp add: escape_byte_def)
    with False show ?thesis
      by (auto simp: should_escape_def host_should_escape_def is_alnum_def is_digit_def is_lower_def is_upper_def)
  qed
  then show ?thesis by (auto simp: escape_def list_all_iff)
qed

lemma escape_not_Nil: "h \<noteq> [] \<Longrightarrow> escape mode h \<noteq> []"
  by (cases h) (simp_all add: escape_def escape_byte_def)

lemma url_String_https:
  assumes "u_Scheme u = ''https''" and "u_User u = None" and "u_Host u \<noteq> []" and "u_Opaque u = []"
  shows "https_text (url_String u)"
proof -
  define path where "path = EscapedPath u"
  define tail where "tail = (if u_ForceQuery u \<or> u_RawQuery u \<noteq> [] then ''?'' @ u_RawQuery u else []) @
         (if u_Fragment u \<noteq> [] then ''#'' @ EscapedFragment u else [])"
  define rest where "rest = (if path \<noteq> [] \<and> hd path \<noteq> CHR ''/'' then ''/'' else []) @ path @ tail"
  have "url_String u = ''https://'' @ escape EncodeHost (u_Host u) @ rest"
    using assms by (simp add: url_String_def Let_def authority_text_def rest_def tail_def path_def)
  moreover have "rest = [] \<or> hd rest \<in> set ''/?#''"
    by (cases path) (auto simp: rest_def tail_def)
  ultimately show ?thesis
    unfolding https_text_def using escape_not_Nil [OF assms(3), of EncodeHost] escape_host_chars by blast
qed

lemma checked_reference_https: "checked_reference r = Inr u \<Longrightarrow> https_text (url_String u)"
  by (rule url_String_https)
    (auto simp: checked_reference_def Let_def url_Parse_facts simp del: not_None_eq split: if_splits option.splits)

lemma UserAgentFor_safe: "UserAgentFor asked = Inr a \<Longrightarrow> header_safe a"
proof -
  assume a: "UserAgentFor asked = Inr a"
  show ?thesis
  proof (cases "TrimSpace asked = []")
    case True
    then have "a = UserAgent" using a by (simp add: UserAgentFor_def)
    moreover have "header_safe UserAgent" by code_simp
    ultimately show ?thesis by simp
  next
    case False
    with a have "a = TrimSpace asked" "length a \<le> MaxUserAgent" "list_all (\<lambda>r. 32 \<le> r \<and> r \<le> 126) (runes a)"
      by (auto simp: UserAgentFor_def Let_def list_ex_iff list_all_iff not_less split: if_splits)
    with False show ?thesis
      using runes_ascii_iff [of "\<lambda>r. 32 \<le> r \<and> r \<le> 126" a] by (simp add: header_safe_def)
  qed
qed

lemma hop_requests:
  "hop N maxBody local target agent w = (r, reqs, w') \<Longrightarrow> reqs = [] \<or> reqs = [(local, url_String target, agent)]"
  by (auto simp: hop_def split: if_splits prod.splits sum.splits)

text \<open>The requests of the loop, and how many there can be.\<close>

lemma fetch_loop_requests:
  "fetch_loop N f local agent n target w = (r, reqs, w') \<Longrightarrow> https_text (url_String target) \<Longrightarrow>
   list_all (\<lambda>(p, t, a). p = local \<and> https_text t \<and> a = agent) reqs \<and>
   int (length reqs) \<le> max 0 (fo_MaxRedirects f + 1 - n)"
proof (induction N f local agent n target w arbitrary: r reqs w' rule: fetch_loop.induct)
  case (1 N f local agent n target w)
  show ?case
  proof (cases "n > fo_MaxRedirects f")
    case True
    then show ?thesis using "1.prems"(1) by (subst (asm) fetch_loop.simps) simp
  next
    case False
    obtain res rs w1 where h: "hop N (fo_MaxBodyBytes f) local target agent w = (res, rs, w1)" by (metis prod_cases3)
    have rs: "list_all (\<lambda>(p, t, a). p = local \<and> https_text t \<and> a = agent) rs" "length rs \<le> 1"
      using hop_requests [OF h] "1.prems"(2) by auto
    show ?thesis
    proof (cases "\<exists>location moved target'. res = HopMoved location \<and> url_Parse location = Some moved \<and>
        checked_reference (url_String (ResolveReference target moved)) = Inr target'")
      case no: False
      then have "reqs = rs"
        using "1.prems"(1) False h
        by (subst (asm) fetch_loop.simps) (auto split: hop_result.splits option.splits sum.splits)
      with rs False show ?thesis by auto
    next
      case True
      then obtain location moved target' where m: "res = HopMoved location" "url_Parse location = Some moved"
        "checked_reference (url_String (ResolveReference target moved)) = Inr target'" by blast
      obtain r2 more w2 where l: "fetch_loop N f local agent (n + 1) target' w1 = (r2, more, w2)" by (metis prod_cases3)
      have "reqs = rs @ more"
        using "1.prems"(1) False h m l by (subst (asm) fetch_loop.simps) simp
      moreover have "list_all (\<lambda>(p, t, a). p = local \<and> https_text t \<and> a = agent) more \<and>
          int (length more) \<le> max 0 (fo_MaxRedirects f + 1 - (n + 1))"
        using "1.IH" [OF False h [symmetric] m(1) refl m(2) m(3) l checked_reference_https [OF m(3)]] .
      ultimately show ?thesis using rs False by auto
    qed
  qed
qed

lemma fetcher_New_positive [simp]:
  "0 < fo_MaxRedirects (fetcher_New lim)" "0 < fo_MaxBodyBytes (fetcher_New lim)"
  by (simp_all add: fetcher_New_def MaxRedirects_def MaxBodyBytes_def)

lemma take_response_body: "take_response maxBody r = HopBody body header \<Longrightarrow> body \<noteq> [] \<and> int (length body) \<le> maxBody"
  by (auto simp: take_response_def split: if_splits sum.splits)

lemma hop_body: "hop N maxBody local target agent w = (HopBody body header, reqs, w') \<Longrightarrow> body \<noteq> [] \<and> int (length body) \<le> maxBody"
  by (auto simp: hop_def dest: take_response_body split: if_splits prod.splits sum.splits)

section \<open>The chain of redirects\<close>

definition redirected :: "url \<Rightarrow> string \<Rightarrow> url option" where
  "redirected target location =
     (case url_Parse location of
        None \<Rightarrow> None
      | Some moved \<Rightarrow>
          (case checked_reference (url_String (ResolveReference target moved)) of Inl _ \<Rightarrow> None | Inr t \<Rightarrow> Some t))"

text \<open>
  \<open>redirect_chain N maxBody local agent target w k body header\<close>: the provider answers from \<open>target\<close> with \<open>k\<close>
  admissible redirects and then with the body.
\<close>

inductive redirect_chain :: "'w Net \<Rightarrow> int \<Rightarrow> bool \<Rightarrow> string \<Rightarrow> url \<Rightarrow> 'w \<Rightarrow> nat \<Rightarrow> string \<Rightarrow> string go_map \<Rightarrow> bool"
  for N maxBody local agent where
  answered: "hop N maxBody local target agent w = (HopBody body header, reqs, w') \<Longrightarrow>
    redirect_chain N maxBody local agent target w 0 body header"
| moved: "hop N maxBody local target agent w = (HopMoved location, reqs, w') \<Longrightarrow>
    redirected target location = Some target' \<Longrightarrow> redirect_chain N maxBody local agent target' w' k body header \<Longrightarrow>
    redirect_chain N maxBody local agent target w (Suc k) body header"

lemma chain_body: "redirect_chain N maxBody local agent target w k body header \<Longrightarrow> body \<noteq> [] \<and> int (length body) \<le> maxBody"
  by (induction rule: redirect_chain.induct) (auto dest: hop_body)

lemma fetch_loop_moved:
  assumes "\<not> n > fo_MaxRedirects f" and "hop N (fo_MaxBodyBytes f) local target agent w = (HopMoved location, reqs, w1)"
    and "redirected target location = Some target'"
  shows "fst (fetch_loop N f local agent n target w) = fst (fetch_loop N f local agent (n + 1) target' w1)"
  using assms
  by (subst fetch_loop.simps) (auto simp: redirected_def split_beta split: option.splits sum.splits)

lemma chain_gives_result:
  "redirect_chain N (fo_MaxBodyBytes f) local agent target w k body header \<Longrightarrow> n + int k \<le> fo_MaxRedirects f \<Longrightarrow>
   fst (fetch_loop N f local agent n target w) = Inr (body, parseInfo header body)"
proof (induction arbitrary: n rule: redirect_chain.induct)
  case (answered target w body header reqs w')
  then show ?case by (subst fetch_loop.simps) simp
next
  case (moved target w location reqs w' target' k body header)
  from moved.prems have "fst (fetch_loop N f local agent (n + 1) target' w') = Inr (body, parseInfo header body)"
    by (intro moved.IH) simp
  moreover have "\<not> n > fo_MaxRedirects f" using moved.prems by simp
  ultimately show ?case using fetch_loop_moved [OF _ moved.hyps(1,2), of n] by simp
qed

lemma result_has_chain:
  "fst (fetch_loop N f local agent n target w) = Inr (body, info) \<Longrightarrow>
   \<exists>k header. n + int k \<le> fo_MaxRedirects f \<and> redirect_chain N (fo_MaxBodyBytes f) local agent target w k body header \<and>
     info = parseInfo header body"
proof (induction N f local agent n target w rule: fetch_loop.induct)
  case (1 N f local agent n target w)
  have n: "\<not> n > fo_MaxRedirects f" using "1.prems" by (subst (asm) fetch_loop.simps) (auto split: if_splits)
  obtain res rs w1 where h: "hop N (fo_MaxBodyBytes f) local target agent w = (res, rs, w1)" by (metis prod_cases3)
  show ?case
  proof (cases res)
    case (HopFailed e)
    then show ?thesis using "1.prems" n h by (subst (asm) fetch_loop.simps) simp
  next
    case (HopBody b header)
    then have "b = body" "info = parseInfo header body"
      using "1.prems" n h by (subst (asm) fetch_loop.simps, simp)+
    with HopBody h n show ?thesis by (intro exI [of _ 0] exI [of _ header]) (auto intro: redirect_chain.answered)
  next
    case (HopMoved location)
    from "1.prems" n h HopMoved obtain moved target' where m: "url_Parse location = Some moved"
      "checked_reference (url_String (ResolveReference target moved)) = Inr target'"
      by (subst (asm) fetch_loop.simps) (auto split: option.splits sum.splits)
    then have t: "redirected target location = Some target'" by (simp add: redirected_def)
    with fetch_loop_moved [OF n h [unfolded HopMoved]] "1.prems" have "fst (fetch_loop N f local agent (n + 1) target' w1) = Inr (body, info)" by simp
    from "1.IH" [OF n h [symmetric] HopMoved refl m(1) m(2) this]
    obtain k header where "n + 1 + int k \<le> fo_MaxRedirects f"
      "redirect_chain N (fo_MaxBodyBytes f) local agent target' w1 k body header" "info = parseInfo header body" by blast
    then show ?thesis
      using redirect_chain.moved [OF h [unfolded HopMoved] t] by (intro exI [of _ "Suc k"] exI [of _ header]) simp
  qed
qed

section \<open>What is shown to the user\<close>

lemma clean_runes_length: "length (clean_runes n multiline rs) \<le> n"
  by (induction n multiline rs rule: clean_runes.induct) auto

lemma clean_runes_mem: "r \<in> set (clean_runes n multiline rs) \<Longrightarrow> r \<in> set rs \<and> (\<not> IsControl r \<or> (multiline \<and> r = 10))"
  by (induction n multiline rs rule: clean_runes.induct) (auto split: if_splits)

text \<open>Text without ASCII control characters, line feeds apart where several lines may be shown.\<close>

definition shown_text :: "nat \<Rightarrow> bool \<Rightarrow> string \<Rightarrow> bool" where
  "shown_text limit multiline s \<longleftrightarrow>
     length s \<le> 4 * limit \<and> list_all (\<lambda>c. (32 \<le> byte c \<and> byte c \<noteq> 127) \<or> (multiline \<and> c = CHR 0x0A)) s"

lemma cleanText_shown: "shown_text limit multiline (cleanText v limit multiline)"
proof -
  define rs where "rs = clean_runes limit multiline (runes (TrimSpace v))"
  have l: "length (concat (map encode_rune xs)) \<le> 4 * length xs" for xs
    by (induction xs) (use encode_rune_length in \<open>auto simp: add_mono\<close>)
  have "length (TrimSpace (concat (map encode_rune rs))) \<le> 4 * limit"
    using TrimSpace_length l [of rs] clean_runes_length [of limit multiline "runes (TrimSpace v)"]
    by (fastforce simp: rs_def intro: order_trans)
  moreover have "(32 \<le> byte c \<and> byte c \<noteq> 127) \<or> (multiline \<and> c = CHR 0x0A)"
    if "c \<in> set (TrimSpace (concat (map encode_rune rs)))" for c
  proof -
    from that TrimSpace_subset obtain r where r: "r \<in> set rs" "c \<in> set (encode_rune r)" by fastforce
    have m: "r \<in> set (runes (TrimSpace v))" "\<not> IsControl r \<or> (multiline \<and> r = 10)"
      using clean_runes_mem r(1) unfolding rs_def by blast+
    have "byte c = byte (CHR 0x0A) \<Longrightarrow> c = CHR 0x0A" by (simp only: of_char_eq_iff)
    then have "byte c = 10 \<Longrightarrow> c = CHR 0x0A" by simp
    with encode_rune_chars [OF runes_bound [OF m(1)] r(2)] m(2) show ?thesis by (auto simp: IsControl_def)
  qed
  ultimately show ?thesis by (simp add: shown_text_def cleanText_def rs_def list_all_iff)
qed

definition shown_url :: "string \<Rightarrow> bool" where
  "shown_url s \<longleftrightarrow> s = [] \<or> HasPrefix s ''https://'' \<or> HasPrefix s ''http://'' \<or> HasPrefix s ''tg:''"

lemma cleanURL_shown: "shown_url (cleanURL v)"
proof (cases "url_Parse (TrimSpace v)")
  case (Some u)
  have "HasPrefix (url_String u) (u_Scheme u @ ''://'')" if "u_Host u \<noteq> []" "u_Scheme u \<noteq> []"
    using that url_Parse_facts(2) [OF Some that(1)] by (simp add: url_String_def Let_def authority_text_def HasPrefix_def)
  moreover have "HasPrefix (url_String u) (u_Scheme u @ '':'')" if "u_Scheme u \<noteq> []"
    using that by (simp add: url_String_def Let_def HasPrefix_def)
  ultimately show ?thesis
    using Some url_Parse_facts(1) [OF Some] by (auto simp: cleanURL_def shown_url_def Let_def)
qed (simp add: cleanURL_def shown_url_def Let_def)

lemma usage_fields_bound: "map_of (usage_fields raw) k = Some n \<Longrightarrow> n < 2 ^ 64"
proof -
  have "map_of (fold (\<lambda>part m.
        case cut_first (\<lambda>c. c = CHR ''='') part of
          None \<Rightarrow> m
        | Some (k, x) \<Rightarrow>
            (case ParseUint64 (TrimSpace x) of None \<Rightarrow> m | Some n \<Rightarrow> AList.update (ToLower (TrimSpace k)) n m)) parts m0) k = Some n \<Longrightarrow>
     (\<And>k n. map_of m0 k = Some n \<Longrightarrow> n < 2 ^ 64) \<Longrightarrow> n < 2 ^ 64" for parts m0
  proof (induction parts arbitrary: m0)
    case (Cons p ps)
    show ?case
      by (rule Cons.IH [OF Cons.prems(1) [simplified fold_simps o_apply]])
        (use Cons.prems(2) in \<open>auto simp: update_conv' ParseUint64_def split: option.splits if_splits prod.splits\<close>)
  qed simp
  then show "map_of (usage_fields raw) k = Some n \<Longrightarrow> n < 2 ^ 64" unfolding usage_fields_def by fastforce
qed

section \<open>Properties\<close>

text \<open>
  C18. \<open>Fetch\<close> returns a body exactly when the asked agent and reference are admissible and the provider,
  asked from there, answers with at most \<open>MaxRedirects\<close> admissible redirects followed by an acceptable
  body; what it reports is read from the headers of that last answer and from the body.
\<close>

theorem fetch_iff_chain:
  "fst (Fetch N f reference asked w) = Inr (body, info) \<longleftrightarrow>
   (\<exists>agent target local w1 k header.
      UserAgentFor asked = Inr agent \<and> checked_reference reference = Inr target \<and>
      isPrivateHost N (url_Hostname target) w = (local, w1) \<and> int k \<le> fo_MaxRedirects f \<and>
      redirect_chain N (fo_MaxBodyBytes f) local agent target w1 k body header \<and> info = parseInfo header body)"
proof (cases "(\<exists>agent. UserAgentFor asked = Inr agent) \<and> (\<exists>target. checked_reference reference = Inr target)")
  case False
  then show ?thesis by (auto simp: Fetch_def split: sum.splits)
next
  case True
  then obtain agent target where a: "UserAgentFor asked = Inr agent" "checked_reference reference = Inr target" by blast
  obtain local w1 where p: "isPrivateHost N (url_Hostname target) w = (local, w1)" by (cases "isPrivateHost N (url_Hostname target) w")
  have "fst (Fetch N f reference asked w) = fst (fetch_loop N f local agent 0 target w1)"
    using a p by (simp add: Fetch_def)
  moreover have "fst (fetch_loop N f local agent 0 target w1) = Inr (body, info) \<longleftrightarrow>
      (\<exists>k header. int k \<le> fo_MaxRedirects f \<and> redirect_chain N (fo_MaxBodyBytes f) local agent target w1 k body header \<and>
         info = parseInfo header body)"
    using result_has_chain [of N f local agent 0 target w1 body info] chain_gives_result [of N f local agent target w1 _ body _ 0]
    by auto
  ultimately show ?thesis using a p by simp
qed

text \<open>
  C17. Whatever a provider answers, a retrieval makes at most one request more than the redirects it
  allows; each request is an HTTPS URL with a host and without user information, carries a
  \<open>User-Agent\<close> that cannot break out of its header, and is dialled under the policy decided for the
  host of the reference; a body that is returned is not empty and within the limit.
\<close>

theorem fetch_requests_are_safe:
  "case Fetch N (fetcher_New lim) reference asked w of
     (result, reqs, _) \<Rightarrow>
       int (length reqs) \<le> fo_MaxRedirects (fetcher_New lim) + 1 \<and>
       list_all (\<lambda>(local, t, agent). https_text t \<and> header_safe agent \<and>
          (\<exists>target. checked_reference reference = Inr target \<and> local = fst (isPrivateHost N (url_Hostname target) w))) reqs \<and>
       (case result of
          Inl _ \<Rightarrow> True
        | Inr (body, _) \<Rightarrow> body \<noteq> [] \<and> int (length body) \<le> fo_MaxBodyBytes (fetcher_New lim))"
proof (cases "(\<exists>agent. UserAgentFor asked = Inr agent) \<and> (\<exists>target. checked_reference reference = Inr target)")
  case False
  have "0 \<le> fo_MaxRedirects (fetcher_New lim) + 1" using fetcher_New_positive(1) [of lim] by linarith
  with False show ?thesis unfolding Fetch_def by (auto split: sum.splits)
next
  case True
  let ?f = "fetcher_New lim"
  from True obtain agent target where a: "UserAgentFor asked = Inr agent" "checked_reference reference = Inr target" by blast
  obtain local w1 where p: "isPrivateHost N (url_Hostname target) w = (local, w1)" by (cases "isPrivateHost N (url_Hostname target) w")
  obtain result reqs w' where l: "fetch_loop N ?f local agent 0 target w1 = (result, reqs, w')" by (metis prod_cases3)
  have "Fetch N ?f reference asked w = (result, reqs, w')" using a p l by (simp add: Fetch_def)
  moreover have "list_all (\<lambda>(p, t, a). p = local \<and> https_text t \<and> a = agent) reqs \<and> int (length reqs) \<le> max 0 (fo_MaxRedirects ?f + 1 - 0)"
    using fetch_loop_requests [OF l checked_reference_https [OF a(2)]] .
  moreover have "body \<noteq> [] \<and> int (length body) \<le> fo_MaxBodyBytes ?f" if "result = Inr (body, info)" for body info
    using result_has_chain [of N ?f local agent 0 target w1 body info] l that chain_body by fastforce
  moreover have "0 < fo_MaxRedirects ?f" by simp
  ultimately show ?thesis
    using a(2) p UserAgentFor_safe [OF a(1)] by (auto simp: list_all_iff split: sum.splits)
qed

lemma fetch_local_flag:
  assumes "checked_reference reference = Inr target" and "isPrivateHost N (url_Hostname target) w = (local, w1)"
  shows "list_all (\<lambda>(p, _, _). p = local) (fst (snd (Fetch N f reference asked w)))"
proof (cases "UserAgentFor asked")
  case (Inl e)
  then show ?thesis by (simp add: Fetch_def)
next
  case (Inr agent)
  obtain r reqs w' where l: "fetch_loop N f local agent 0 target w1 = (r, reqs, w')" by (metis prod_cases3)
  then have "Fetch N f reference asked w = (r, reqs, w')" using assms Inr by (simp add: Fetch_def)
  with fetch_loop_requests [OF l checked_reference_https [OF assms(1)]] show ?thesis by (auto simp: list_all_iff)
qed

text \<open>
  C37. A host that resolves to several addresses counts as local as soon as one of them is not
  public.  Every hop of the retrieval is then dialled without the check for public addresses, so a
  provider whose name has a public and a private address can redirect into the local network, which
  the comment on \<open>privateKey\<close> excludes.  When all addresses are public, only public ones are dialled.
\<close>

theorem one_local_address_lifts_the_check:
  assumes "checked_reference reference = Inr target" and "ParseAddr (url_Hostname target) = None"
    and "nt_LookupNetIP N (url_Hostname target) w = (Inr addrs, w1)"
  shows "list_all (\<lambda>(local, _, _). local = list_ex (\<lambda>b. \<not> publicAddr b) addrs) (fst (snd (Fetch N f reference asked w))) \<and>
    (checkDial (list_ex (\<lambda>b. \<not> publicAddr b) addrs) address = None \<longleftrightarrow>
      (case SplitHostPort address of
         Inl _ \<Rightarrow> False
       | Inr (host, _) \<Rightarrow>
           (case ParseAddr host of None \<Rightarrow> False | Some a \<Rightarrow> publicAddr a \<or> list_ex (\<lambda>b. \<not> publicAddr b) addrs)))"
proof (rule conjI)
  have "isPrivateHost N (url_Hostname target) w = (list_ex (\<lambda>b. \<not> publicAddr b) addrs, w1)"
    using assms(2,3) by (simp add: isPrivateHost_def)
  then show "list_all (\<lambda>(local, _, _). local = list_ex (\<lambda>b. \<not> publicAddr b) addrs) (fst (snd (Fetch N f reference asked w)))"
    by (rule fetch_local_flag [OF assms(1)])
qed (auto simp: checkDial_def split: sum.splits option.splits)

text \<open>A provider with a public and a private address that redirects to a router.\<close>

definition mixed_net :: "unit Net" where
  "mixed_net =
     \<lparr>nt_LookupNetIP = (\<lambda>_ w. (Inr [V4 0x08080808, V4 0x0A000005], w)),
      nt_Do = (\<lambda>_ t _ w.
        (Inr (if t = ''https://p.example/s'' then
                \<lparr>rs_StatusCode = 302, rs_Header = [(''Location'', ''https://192.168.1.1/x'')], rs_ContentLength = 0, rs_Body = [], rs_failure = None\<rparr>
              else \<lparr>rs_StatusCode = 404, rs_Header = [], rs_ContentLength = 0, rs_Body = [], rs_failure = None\<rparr>), w))\<rparr>"

theorem one_local_address_lifts_the_check_witness:
  "fst (snd (Fetch mixed_net (fetcher_New \<lparr>fo_Timeout = 0, fo_MaxRedirects = 0, fo_MaxBodyBytes = 0\<rparr>) ''https://p.example/s'' [] ())) =
     [(True, ''https://p.example/s'', UserAgent), (True, ''https://192.168.1.1/x'', UserAgent)] \<and>
   publicAddr (V4 0x08080808) \<and> checkDial True ''192.168.1.1:443'' = None \<and> checkDial False ''192.168.1.1:443'' \<noteq> None"
proof -
  have t: "checked_reference ''https://p.example/s'' = Inr (empty_url\<lparr>u_Scheme := ''https'', u_Host := ''p.example'', u_Path := ''/s''\<rparr>)"
    by code_simp
  have r: "fst (snd (Fetch mixed_net (fetcher_New \<lparr>fo_Timeout = 0, fo_MaxRedirects = 0, fo_MaxBodyBytes = 0\<rparr>) ''https://p.example/s'' [] ())) =
     [(True, ''https://p.example/s'', UserAgent), (True, ''https://192.168.1.1/x'', UserAgent)]"
    by code_simp
  have "ParseAddr (url_Hostname (empty_url\<lparr>u_Scheme := ''https'', u_Host := ''p.example'', u_Path := ''/s''\<rparr>)) = None" by code_simp
  from one_local_address_lifts_the_check [OF t this, where N = mixed_net and w = "()"
      and addrs = "[V4 0x08080808, V4 0x0A000005]" and address = "''192.168.1.1:443''"]
  have "checkDial (list_ex (\<lambda>b. \<not> publicAddr b) [V4 0x08080808, V4 0x0A000005]) ''192.168.1.1:443'' = None \<longleftrightarrow>
    (case SplitHostPort ''192.168.1.1:443'' of
         Inl _ \<Rightarrow> False
       | Inr (host, _) \<Rightarrow>
           (case ParseAddr host of None \<Rightarrow> False
            | Some a \<Rightarrow> publicAddr a \<or> list_ex (\<lambda>b. \<not> publicAddr b) [V4 0x08080808, V4 0x0A000005]))"
    by (simp add: mixed_net_def)
  moreover have "list_ex (\<lambda>b. \<not> publicAddr b) [V4 0x08080808, V4 0x0A000005]" "publicAddr (V4 0x08080808)"
    "SplitHostPort ''192.168.1.1:443'' = Inr (''192.168.1.1'', ''443'')" "ParseAddr ''192.168.1.1'' = Some (V4 0xC0A80101)"
    "checkDial False ''192.168.1.1:443'' \<noteq> None"
    by code_simp+
  ultimately show ?thesis using r by simp
qed


end
